(* ===== verification/Prelude.thy ===== *)
theory Prelude
  imports Main "HOL-Library.Word" "HOL-Library.Sublist"
begin

text \<open>
  Shared vocabulary of the development of the volta agent (\<^verbatim>\<open>src/sources/agent/src\<close>):
  the fixed-width integer types the C++ code uses, the failures a C++ operation can end in
  (an exception, or undefined behaviour, each a value of \<open>cpp_error\<close>), sequencing of
  operations that can fail, and the generic lemmas on words and lists that the component
  theories use.  Nothing here models a line of the program by itself.
\<close>

unbundle bit_operations_syntax

section \<open>Types\<close>

type_synonym u8 = "8 word"
type_synonym u16 = "16 word"
type_synonym u32 = "32 word"
type_synonym u64 = "64 word"

text \<open>Signed values are stored as words and read with \<open>sint\<close>.\<close>

type_synonym i32 = "32 word"
type_synonym i64 = "64 word"

text \<open>On the LP64 targets of the agent \<^verbatim>\<open>size_t\<close> has 64 bits.\<close>

type_synonym size_t = "64 word"

datatype cpp_error =
    DivideByZero            \<comment> \<open>integer division or remainder by zero\<close>
  | OutOfBounds             \<comment> \<open>\<open>vector::operator[]\<close> outside the vector\<close>
  | NullDeref               \<comment> \<open>dereference of a null pointer\<close>
  | EmptyOptional           \<comment> \<open>\<open>*opt\<close> on an empty optional\<close>
  | EndIterator             \<comment> \<open>dereference of \<open>end()\<close>\<close>
  | Uninitialised           \<comment> \<open>read of a variable that was never written\<close>
  | FloatCast               \<comment> \<open>conversion of a float that does not fit the integer type\<close>
  | Dangling                \<comment> \<open>use of an object after its destruction\<close>
  | LengthError             \<comment> \<open>\<open>std::length_error\<close>\<close>
  | OutOfRange              \<comment> \<open>\<open>std::out_of_range\<close>\<close>
  | InvalidArgument string  \<comment> \<open>\<open>std::invalid_argument\<close>\<close>
  | LogicError string       \<comment> \<open>\<open>std::logic_error\<close>\<close>
  | RuntimeError string     \<comment> \<open>\<open>std::runtime_error\<close>\<close>
  | FilesystemError string  \<comment> \<open>\<open>std::filesystem::filesystem_error\<close>\<close>

type_synonym 'a result = "cpp_error + 'a"

definition res_bind :: "'a result \<Rightarrow> ('a \<Rightarrow> 'b result) \<Rightarrow> 'b result" where
  "res_bind r f = (case r of Inl e \<Rightarrow> Inl e | Inr x \<Rightarrow> f x)"

definition res_map :: "('a \<Rightarrow> 'b) \<Rightarrow> 'a result \<Rightarrow> 'b result" where
  "res_map f r = (case r of Inl e \<Rightarrow> Inl e | Inr x \<Rightarrow> Inr (f x))"

definition is_ok :: "'a result \<Rightarrow> bool" where
  "is_ok r = (case r of Inl _ \<Rightarrow> False | Inr _ \<Rightarrow> True)"

text \<open>A range-based \<^verbatim>\<open>for\<close> whose body can fail: stops at the first failure.\<close>

fun res_fold :: "('x \<Rightarrow> 's \<Rightarrow> 's result) \<Rightarrow> 'x list \<Rightarrow> 's \<Rightarrow> 's result" where
  "res_fold f [] s = Inr s"
| "res_fold f (x # xs) s = res_bind (f x s) (res_fold f xs)"

section \<open>Lemma collections\<close>

named_theorems wordarith \<open>unsigned readings of word operations that do not wrap\<close>
named_theorems result_simps \<open>computation with results\<close>

section \<open>Results\<close>

lemma res_bind_simps [simp, result_simps]:
  "res_bind (Inl e) f = Inl e" "res_bind (Inr x) f = f x"
  by (simp_all add: res_bind_def)

lemma res_map_simps [simp, result_simps]:
  "res_map f (Inl e) = Inl e" "res_map f (Inr x) = Inr (f x)"
  by (simp_all add: res_map_def)

lemma is_ok_simps [simp, result_simps]: "\<not> is_ok (Inl e)" "is_ok (Inr x)"
  by (simp_all add: is_ok_def)

lemma is_okE: assumes "is_ok r" obtains x where "r = Inr x"
  using assms by (cases r) auto

lemma res_bind_eq_Inr: "res_bind r f = Inr y \<longleftrightarrow> (\<exists>x. r = Inr x \<and> f x = Inr y)"
  by (cases r) auto

lemma res_map_eq_Inr: "res_map f r = Inr y \<longleftrightarrow> (\<exists>x. r = Inr x \<and> y = f x)"
  by (cases r) auto

lemma res_bind_Inr_right [simp]: "res_bind r Inr = r"
  by (cases r) auto

lemma res_fold_append: "res_fold f (xs @ ys) s = res_bind (res_fold f xs s) (res_fold f ys)"
proof (induction xs arbitrary: s)
  case (Cons x xs)
  then show ?case by (cases "f x s") simp_all
qed simp

text \<open>
  The rule for such loops: an invariant that every iteration keeps while it succeeds
  holds at the end, and the loop cannot fail.
\<close>

lemma res_fold_total:
  assumes "I s" "\<And>x s. x \<in> set xs \<Longrightarrow> I s \<Longrightarrow> \<exists>s'. f x s = Inr s' \<and> I s'"
  shows "\<exists>s'. res_fold f xs s = Inr s' \<and> I s'"
  using assms
proof (induction xs arbitrary: s)
  case (Cons x xs)
  from Cons.prems obtain s1 where "f x s = Inr s1" "I s1" by fastforce
  with Cons show ?case by simp
qed simp

section \<open>Words\<close>

lemma unat_succ [wordarith]: "unat (a + 1) = unat a + 1" if "unat a + 1 < 2 ^ 64" for a :: u64
proof -
  have "unat (a + 1) = (unat a + unat (1 :: u64)) mod 2 ^ 64"
    by (simp add: unat_word_ariths)
  with that show ?thesis by simp
qed

lemma unat_pred [wordarith]: "unat (a - 1) = unat a - 1" if "a \<noteq> 0" for a :: u64
  using that by (simp add: unat_minus_one)

lemma unat_minus [wordarith]: "unat (a - b) = unat a - unat b" if "unat b \<le> unat a" for a b :: u64
proof -
  from that have "b \<le> a" by (simp add: word_le_nat_alt)
  then show ?thesis by (rule unat_sub)
qed

lemma unat_remainder [wordarith]: "unat (a mod b) = unat a mod unat b" for a b :: u64
  by (rule unat_mod)

lemma unat64_bound: "unat (a :: u64) < 2 ^ 64"
  using unsigned_less [of a] by simp

section \<open>Lists\<close>

text \<open>Reading a list at consecutive positions is taking a slice of it.\<close>

lemma map_nth_slice: "map ((!) xs) [i..<length xs] = drop i xs"
proof (rule nth_equalityI)
  fix k assume "k < length (map ((!) xs) [i..<length xs])"
  then have "k < length xs - i" by simp
  then show "map ((!) xs) [i..<length xs] ! k = drop i xs ! k" by simp
qed simp

lemma subseq_drop: "subseq (drop n xs) xs"
  by (metis append_take_drop_id list_emb_append2 subseq_order.order_refl)

end
