(* ===== verification/Floating.thy ===== *)
theory Floating
  imports Complex_Main "HOL-Library.Log_Nat" Prelude
begin

text \<open>
  IEEE-754 arithmetic as the C++ code uses it: \<^verbatim>\<open>double\<close> (binary64) in the collectors and
  \<^verbatim>\<open>float\<close> (binary32) in the configuration loader.  A finite value is the rational number it
  denotes; every operation computes the exact result and rounds it to nearest, ties to
  even, with gradual underflow and overflow to infinity.  The two zeros are identified: the
  agent never looks at the sign of a zero.

  The locale \<open>rounding_mode\<close> states what the collectors and the loader rely on (rounding is
  monotone, keeps representable numbers, keeps zero); it is interpreted for both formats.
\<close>

section \<open>Formats and rounding\<close>

record fformat =
  prec :: nat   \<comment> \<open>bits of the significand\<close>
  emin :: int   \<comment> \<open>exponent of the smallest subnormal\<close>
  emax :: int   \<comment> \<open>\<open>2 ^ emax\<close> is the first power of two that overflows\<close>

definition binary64 :: fformat where
  "binary64 = \<lparr>prec = 53, emin = -1074, emax = 1024\<rparr>"

definition binary32 :: fformat where
  "binary32 = \<lparr>prec = 24, emin = -149, emax = 128\<rparr>"

datatype fval = Fin rat | PInf | NInf | NaN

type_synonym double = fval

definition pow2 :: "int \<Rightarrow> rat" where
  "pow2 k = (if 0 \<le> k then 2 ^ nat k else 1 / 2 ^ nat (- k))"

text \<open>The exponent of the leading bit of a positive rational.\<close>

definition ilog2 :: "rat \<Rightarrow> int" where
  "ilog2 q = (let (n, d) = quotient_of q; k = bitlen n - bitlen d
     in if pow2 k \<le> q then k else k - 1)"

definition round_half_even :: "rat \<Rightarrow> int" where
  "round_half_even x = (let f = \<lfloor>x\<rfloor>; r = x - of_int f
     in if r < 1 / 2 then f else if 1 / 2 < r then f + 1 else if even f then f else f + 1)"

definition ulp_exp :: "fformat \<Rightarrow> rat \<Rightarrow> int" where
  "ulp_exp fmt q = max (emin fmt) (ilog2 q + 1 - int (prec fmt))"

definition round_pos :: "fformat \<Rightarrow> rat \<Rightarrow> rat" where
  "round_pos fmt q = (let e = ulp_exp fmt q in of_int (round_half_even (q / pow2 e)) * pow2 e)"

definition rnd :: "fformat \<Rightarrow> rat \<Rightarrow> rat" where
  "rnd fmt q = (if q = 0 then 0 else if 0 < q then round_pos fmt q else - round_pos fmt (- q))"

definition fround :: "fformat \<Rightarrow> rat \<Rightarrow> fval" where
  "fround fmt q = (let r = rnd fmt q in
     if pow2 (emax fmt) \<le> r then PInf else if r \<le> - pow2 (emax fmt) then NInf else Fin r)"

section \<open>Operations\<close>

fun fneg :: "fval \<Rightarrow> fval" where
  "fneg (Fin a) = Fin (- a)"
| "fneg PInf = NInf"
| "fneg NInf = PInf"
| "fneg NaN = NaN"

fun fadd :: "fformat \<Rightarrow> fval \<Rightarrow> fval \<Rightarrow> fval" where
  "fadd fmt (Fin a) (Fin b) = fround fmt (a + b)"
| "fadd fmt NaN _ = NaN"
| "fadd fmt _ NaN = NaN"
| "fadd fmt PInf NInf = NaN"
| "fadd fmt NInf PInf = NaN"
| "fadd fmt PInf _ = PInf"
| "fadd fmt _ PInf = PInf"
| "fadd fmt NInf _ = NInf"
| "fadd fmt _ NInf = NInf"

definition fsub :: "fformat \<Rightarrow> fval \<Rightarrow> fval \<Rightarrow> fval" where
  "fsub fmt x y = fadd fmt x (fneg y)"

text \<open>An infinity with the sign of a rational; \<open>NaN\<close> for zero (\<open>0 * \<infinity>\<close>, \<open>0 / 0\<close>).\<close>

definition signed_inf :: "rat \<Rightarrow> fval" where
  "signed_inf a = (if 0 < a then PInf else if a < 0 then NInf else NaN)"

fun fmul :: "fformat \<Rightarrow> fval \<Rightarrow> fval \<Rightarrow> fval" where
  "fmul fmt (Fin a) (Fin b) = fround fmt (a * b)"
| "fmul fmt NaN _ = NaN"
| "fmul fmt _ NaN = NaN"
| "fmul fmt (Fin a) PInf = signed_inf a"
| "fmul fmt (Fin a) NInf = signed_inf (- a)"
| "fmul fmt PInf (Fin b) = signed_inf b"
| "fmul fmt NInf (Fin b) = signed_inf (- b)"
| "fmul fmt PInf PInf = PInf"
| "fmul fmt PInf NInf = NInf"
| "fmul fmt NInf PInf = NInf"
| "fmul fmt NInf NInf = PInf"

fun fdiv :: "fformat \<Rightarrow> fval \<Rightarrow> fval \<Rightarrow> fval" where
  "fdiv fmt (Fin a) (Fin b) = (if b = 0 then signed_inf a else fround fmt (a / b))"
| "fdiv fmt NaN _ = NaN"
| "fdiv fmt _ NaN = NaN"
| "fdiv fmt (Fin a) PInf = Fin 0"
| "fdiv fmt (Fin a) NInf = Fin 0"
| "fdiv fmt PInf (Fin b) = (if b < 0 then NInf else PInf)"
| "fdiv fmt NInf (Fin b) = (if b < 0 then PInf else NInf)"
| "fdiv fmt _ _ = NaN"

fun fless :: "fval \<Rightarrow> fval \<Rightarrow> bool" where
  "fless (Fin a) (Fin b) = (a < b)"
| "fless NaN _ = False"
| "fless _ NaN = False"
| "fless NInf NInf = False"
| "fless NInf _ = True"
| "fless _ PInf = True"
| "fless _ _ = False"

text \<open>Conversions: from integers (rounded), and to \<^verbatim>\<open>uint32_t\<close> (truncated; undefined when
  the truncated value does not fit).\<close>

definition f_of_int :: "fformat \<Rightarrow> int \<Rightarrow> fval" where
  "f_of_int fmt n = fround fmt (of_int n)"

fun f_to_u32 :: "fval \<Rightarrow> u32 result" where
  "f_to_u32 (Fin a) = (if - 1 < a \<and> a < 2 ^ 32
     then Inr (of_int (if 0 \<le> a then \<lfloor>a\<rfloor> else 0)) else Inl FloatCast)"
| "f_to_u32 _ = Inl FloatCast"

section \<open>Powers of two\<close>

lemma pow2_pos [simp]: "0 < pow2 k"
  by (simp add: pow2_def)

lemma pow2_nonzero [simp]: "pow2 k \<noteq> 0"
  using pow2_pos [of k] by linarith

lemma pow2_powi: "pow2 k = 2 powi k"
  by (simp add: pow2_def power_int_def power_one_over)

lemma pow2_add: "pow2 (a + b) = pow2 a * pow2 b"
  by (simp add: pow2_powi power_int_add)

lemma pow2_diff: "pow2 (a - b) = pow2 a / pow2 b"
  by (simp add: pow2_powi power_int_diff)

lemma pow2_mono: "a \<le> b \<Longrightarrow> pow2 a \<le> pow2 b"
  by (simp add: pow2_powi power_int_increasing)

lemma pow2_strict: "a < b \<Longrightarrow> pow2 a < pow2 b"
  by (simp add: pow2_powi power_int_strict_increasing)

lemma pow2_nat: "pow2 (int n) = 2 ^ n"
  by (simp add: pow2_def)

lemma pow2_of_nonneg: "0 \<le> k \<Longrightarrow> pow2 k = of_int (2 ^ nat k)"
  by (simp add: pow2_def)

section \<open>The leading bit\<close>

lemma ilog2_bounds:
  assumes "0 < q"
  shows "pow2 (ilog2 q) \<le> q" "q < pow2 (ilog2 q + 1)"
proof -
  obtain n d where nd: "quotient_of q = (n, d)" by fastforce
  then have d: "0 < d" and q: "q = of_int n / of_int d"
    by (simp_all add: quotient_of_denom_pos quotient_of_div)
  with assms have n: "0 < n" by (simp add: zero_less_divide_iff)
  let ?k = "bitlen n - bitlen d"
  have up: "(of_int x :: rat) < pow2 (bitlen x)" and low: "pow2 (bitlen x - 1) \<le> of_int x"
    if "0 < x" for x
  proof -
    from that have b: "2 ^ nat (bitlen x - 1) \<le> x" "x < 2 ^ nat (bitlen x)" "1 \<le> bitlen x"
      using bitlen_bounds [of x] bitlen_eq_zero_iff [of x] bitlen_nonneg [of x] by auto
    then show "(of_int x :: rat) < pow2 (bitlen x)"
      by (simp add: pow2_of_nonneg del: of_int_power)
    from b show "pow2 (bitlen x - 1) \<le> of_int x"
      by (simp add: pow2_of_nonneg del: of_int_power)
  qed
  have "q < pow2 (bitlen n) / pow2 (bitlen d - 1)"
    unfolding q using up [OF n] low [OF d] n d by (intro frac_less) auto
  then have above: "q < pow2 (?k + 1)"
    by (simp add: pow2_diff [symmetric] algebra_simps)
  have "pow2 (bitlen n - 1) / pow2 (bitlen d) \<le> q"
    unfolding q using up [OF d] low [OF n] n d by (intro frac_le) auto
  then have below: "pow2 (?k - 1) \<le> q"
    by (simp add: pow2_diff [symmetric] algebra_simps)
  show "pow2 (ilog2 q) \<le> q" "q < pow2 (ilog2 q + 1)"
    using above below by (auto simp: ilog2_def nd Let_def)
qed

lemma ilog2_mono: assumes "0 < x" "x \<le> y" shows "ilog2 x \<le> ilog2 y"
proof (rule ccontr)
  assume "\<not> ilog2 x \<le> ilog2 y"
  then have "pow2 (ilog2 y + 1) \<le> pow2 (ilog2 x)" by (intro pow2_mono) simp
  with ilog2_bounds [of x] ilog2_bounds [of y] assms show False by force
qed

lemma ilog2_less: "ilog2 q < k" if "0 < q" "q < pow2 k"
proof (rule ccontr)
  assume "\<not> ilog2 q < k"
  then have "pow2 k \<le> pow2 (ilog2 q)" by (intro pow2_mono) simp
  with ilog2_bounds(1) [OF that(1)] that(2) show False by simp
qed

lemma ilog2_pow2 [simp]: "ilog2 (pow2 k) = k"
proof (rule antisym)
  show "ilog2 (pow2 k) \<le> k" using ilog2_less [of "pow2 k" "k + 1"] pow2_strict [of k "k + 1"] by simp
  show "k \<le> ilog2 (pow2 k)"
  proof (rule ccontr)
    assume "\<not> k \<le> ilog2 (pow2 k)"
    then have "pow2 (ilog2 (pow2 k) + 1) \<le> pow2 k" by (intro pow2_mono) simp
    with ilog2_bounds(2) [of "pow2 k"] show False by simp
  qed
qed

section \<open>Rounding to an integer\<close>

lemma rhe_of_int [simp]: "round_half_even (of_int n) = n"
  by (simp add: round_half_even_def)

lemma rhe_range: "\<lfloor>x\<rfloor> \<le> round_half_even x" "round_half_even x \<le> \<lfloor>x\<rfloor> + 1"
  by (simp_all add: round_half_even_def Let_def)

lemma rhe_mono: assumes "x \<le> y" shows "round_half_even x \<le> round_half_even y"
proof (cases "\<lfloor>x\<rfloor> = \<lfloor>y\<rfloor>")
  case True
  with assms show ?thesis by (auto simp: round_half_even_def Let_def)
next
  case False
  with assms floor_mono [OF assms] have "\<lfloor>x\<rfloor> + 1 \<le> \<lfloor>y\<rfloor>" by linarith
  with rhe_range(2) [of x] rhe_range(1) [of y] show ?thesis by linarith
qed

lemma rhe_le: "x \<le> of_int n \<Longrightarrow> round_half_even x \<le> n"
  using rhe_mono [of x "of_int n"] by simp

lemma rhe_ge: "of_int n \<le> x \<Longrightarrow> n \<le> round_half_even x"
  using rhe_mono [of "of_int n" x] by simp

section \<open>Rounding to a format\<close>

definition valid_format :: "fformat \<Rightarrow> bool" where
  "valid_format fmt = (1 \<le> prec fmt \<and> emin fmt \<le> 0)"

lemma valid_formats [simp]: "valid_format binary64" "valid_format binary32"
  by (simp_all add: valid_format_def binary64_def binary32_def)

text \<open>The numbers a format holds exactly.\<close>

definition representable :: "fformat \<Rightarrow> rat \<Rightarrow> bool" where
  "representable fmt r \<longleftrightarrow>
     (\<exists>m e. \<bar>r\<bar> = of_int m * pow2 e \<and> 0 \<le> m \<and> m \<le> 2 ^ prec fmt \<and> emin fmt \<le> e)"

lemma scaled_bounds:
  assumes "0 < q"
  shows "q / pow2 (ulp_exp fmt q) < of_int (2 ^ prec fmt)"
    "emin fmt < ulp_exp fmt q \<Longrightarrow> 1 \<le> prec fmt \<Longrightarrow> of_int (2 ^ (prec fmt - 1)) \<le> q / pow2 (ulp_exp fmt q)"
proof -
  let ?e = "ulp_exp fmt q"
  have "q < pow2 (ilog2 q + 1)" by (rule ilog2_bounds(2) [OF assms])
  also have "\<dots> \<le> pow2 (int (prec fmt) + ?e)" by (rule pow2_mono) (simp add: ulp_exp_def)
  finally show "q / pow2 ?e < of_int (2 ^ prec fmt)"
    by (simp add: pow2_add pow2_nat pos_divide_less_eq)
  assume "emin fmt < ?e" and p: "1 \<le> prec fmt"
  then have "?e = ilog2 q + 1 - int (prec fmt)" by (simp add: ulp_exp_def)
  then have "pow2 (int (prec fmt - 1) + ?e) = pow2 (ilog2 q)" using p by (simp add: of_nat_diff)
  with ilog2_bounds(1) [OF assms] have "pow2 (int (prec fmt - 1)) * pow2 ?e \<le> q"
    by (simp add: pow2_add)
  then show "of_int (2 ^ (prec fmt - 1)) \<le> q / pow2 ?e"
    by (simp only: pos_le_divide_eq [OF pow2_pos]) (simp add: pow2_nat)
qed

lemma ulp_exp_mono: "0 < x \<Longrightarrow> x \<le> y \<Longrightarrow> ulp_exp fmt x \<le> ulp_exp fmt y"
  using ilog2_mono [of x y] by (simp add: ulp_exp_def)

lemma round_pos_eq: "round_pos fmt q = of_int (round_half_even (q / pow2 (ulp_exp fmt q))) * pow2 (ulp_exp fmt q)"
  by (simp add: round_pos_def Let_def)

lemma round_pos_mono:
  assumes "1 \<le> prec fmt" "0 < x" "x \<le> y"
  shows "round_pos fmt x \<le> round_pos fmt y"
proof (cases "ulp_exp fmt x = ulp_exp fmt y")
  case True
  have "x / pow2 (ulp_exp fmt y) \<le> y / pow2 (ulp_exp fmt y)"
    using assms by (intro divide_right_mono) (auto simp: less_imp_le)
  from rhe_mono [OF this] True show ?thesis
    by (simp add: round_pos_eq mult_right_mono less_imp_le)
next
  case False
  let ?ex = "ulp_exp fmt x" and ?ey = "ulp_exp fmt y" and ?p = "prec fmt"
  from False ulp_exp_mono [OF assms(2,3)] have lt: "?ex < ?ey" by (simp add: less_le)
  moreover have "emin fmt \<le> ?ex" by (simp add: ulp_exp_def)
  ultimately have norm: "emin fmt < ?ey" by simp
  have y: "0 < y" using assms by simp
  have "round_half_even (x / pow2 ?ex) \<le> 2 ^ ?p"
    using scaled_bounds(1) [OF assms(2)] by (intro rhe_le less_imp_le)
  then have "(of_int (round_half_even (x / pow2 ?ex)) :: rat) \<le> of_int (2 ^ ?p)"
    by (simp only: of_int_le_iff)
  then have "round_pos fmt x \<le> of_int (2 ^ ?p) * pow2 ?ex"
    by (simp add: round_pos_eq mult_right_mono less_imp_le)
  also have "\<dots> = pow2 (int ?p + ?ex)" by (simp add: pow2_add pow2_nat)
  also have "\<dots> \<le> pow2 (int (?p - 1) + ?ey)"
    by (rule pow2_mono) (use lt assms(1) in \<open>simp add: of_nat_diff\<close>)
  also have "\<dots> = of_int (2 ^ (?p - 1)) * pow2 ?ey" by (simp add: pow2_add pow2_nat)
  also have "\<dots> \<le> round_pos fmt y"
  proof -
    have "2 ^ (?p - 1) \<le> round_half_even (y / pow2 ?ey)"
      using scaled_bounds(2) [OF y norm assms(1)] by (intro rhe_ge)
    then have "(of_int (2 ^ (?p - 1)) :: rat) \<le> of_int (round_half_even (y / pow2 ?ey))"
      by (simp only: of_int_le_iff)
    then show ?thesis unfolding round_pos_eq by (intro mult_right_mono less_imp_le [OF pow2_pos])
  qed
  finally show ?thesis .
qed

lemma round_pos_nonneg: "0 < x \<Longrightarrow> 0 \<le> round_pos fmt x"
  using rhe_ge [of 0 "x / pow2 (ulp_exp fmt x)"]
  by (simp add: round_pos_eq less_imp_le)

lemma round_pos_representable:
  assumes "0 < x" shows "representable fmt (round_pos fmt x)"
  unfolding representable_def
proof (intro exI conjI)
  show "\<bar>round_pos fmt x\<bar> = of_int (round_half_even (x / pow2 (ulp_exp fmt x))) * pow2 (ulp_exp fmt x)"
    using round_pos_nonneg [OF assms, of fmt] by (simp add: round_pos_eq)
  show "0 \<le> round_half_even (x / pow2 (ulp_exp fmt x))"
    using assms by (intro rhe_ge) (simp add: less_imp_le)
  show "round_half_even (x / pow2 (ulp_exp fmt x)) \<le> 2 ^ prec fmt"
    using scaled_bounds(1) [OF assms, of fmt] by (intro rhe_le less_imp_le)
  show "emin fmt \<le> ulp_exp fmt x" by (simp add: ulp_exp_def)
qed

text \<open>A multiple of a unit no larger than the rounding unit is not changed.\<close>

lemma round_pos_exact:
  assumes "q = of_int m * pow2 e" "ulp_exp fmt q \<le> e"
  shows "round_pos fmt q = q"
proof -
  let ?u = "ulp_exp fmt q"
  have "q / pow2 ?u = of_int m * pow2 (e - ?u)" by (simp add: assms(1) pow2_diff)
  also have "\<dots> = of_int (m * 2 ^ nat (e - ?u))" using assms(2) by (simp add: pow2_def)
  finally have "of_int (round_half_even (q / pow2 ?u)) = q / pow2 ?u" by (simp only: rhe_of_int)
  then show ?thesis by (simp add: round_pos_eq)
qed

lemma round_pos_fixed:
  assumes "1 \<le> prec fmt" "representable fmt q" "0 < q"
  shows "round_pos fmt q = q"
proof -
  from assms(2,3) obtain m e where q: "q = of_int m * pow2 e" and m: "0 \<le> m" "m \<le> 2 ^ prec fmt"
    and e: "emin fmt \<le> e" by (auto simp: representable_def)
  show ?thesis
  proof (cases "m = 2 ^ prec fmt")
    case True
    then have "q = pow2 (int (prec fmt) + e)" by (simp add: q pow2_add pow2_nat)
    moreover have "int (prec fmt) + e = int (prec fmt - 1) + (e + 1)" using assms(1) by simp
    ultimately have "q = of_int (2 ^ (prec fmt - 1)) * pow2 (e + 1)"
      by (simp only: pow2_add [of "int (prec fmt - 1)"] pow2_nat of_int_power of_int_numeral)
    moreover have "ulp_exp fmt q \<le> e + 1"
      using e by (simp add: \<open>q = pow2 (int (prec fmt) + e)\<close> ulp_exp_def)
    ultimately show ?thesis by (rule round_pos_exact)
  next
    case False
    with m have "of_int m < (of_int (2 ^ prec fmt) :: rat)" by (subst of_int_less_iff) simp
    then have "q < of_int (2 ^ prec fmt) * pow2 e"
      unfolding q by (intro mult_strict_right_mono pow2_pos)
    also have "\<dots> = pow2 (int (prec fmt) + e)" by (simp add: pow2_add pow2_nat)
    finally have "ulp_exp fmt q \<le> e"
      using ilog2_less [OF assms(3)] e by (fastforce simp: ulp_exp_def)
    with q show ?thesis by (rule round_pos_exact)
  qed
qed

lemma rnd_mono:
  assumes "valid_format fmt" "x \<le> y"
  shows "rnd fmt x \<le> rnd fmt y"
proof -
  have p: "1 \<le> prec fmt" using assms(1) by (simp add: valid_format_def)
  have "rnd fmt x \<le> 0" if "x \<le> 0" using that round_pos_nonneg [of "- x" fmt] by (simp add: rnd_def)
  moreover have "0 \<le> rnd fmt y" if "0 \<le> y" using that round_pos_nonneg [of y fmt] by (simp add: rnd_def)
  ultimately show ?thesis
    using assms(2) round_pos_mono [OF p, of x y] round_pos_mono [OF p, of "- y" "- x"]
    by (cases "0 < x"; cases "y < 0") (auto simp: rnd_def)
qed

lemma rnd_representable [simp]: "representable fmt (rnd fmt x)"
proof -
  have "representable fmt 0" by (auto simp: representable_def intro!: exI [of _ 0] exI [of _ "emin fmt"])
  moreover have "representable fmt (- r) = representable fmt r" for r
    by (simp add: representable_def)
  ultimately show ?thesis
    using round_pos_representable [of x fmt] round_pos_representable [of "- x" fmt]
    by (auto simp: rnd_def)
qed

lemma rnd_fixed:
  assumes "valid_format fmt" "representable fmt r"
  shows "rnd fmt r = r"
proof -
  have p: "1 \<le> prec fmt" using assms(1) by (simp add: valid_format_def)
  have "representable fmt (- r)" using assms(2) by (simp add: representable_def)
  with p assms(2) show ?thesis
    using round_pos_fixed [of fmt r] round_pos_fixed [of fmt "- r"] by (auto simp: rnd_def)
qed

lemma representable_int: "valid_format fmt \<Longrightarrow> \<bar>n\<bar> \<le> 2 ^ prec fmt \<Longrightarrow> representable fmt (of_int n)"
  unfolding representable_def
  by (intro exI [of _ "\<bar>n\<bar>"] exI [of _ 0]) (simp add: pow2_def valid_format_def)

text \<open>
  What the users of the arithmetic rely on: rounding keeps the order and does not change
  the numbers it can represent, zero among them.
\<close>

locale rounding_mode =
  fixes rd :: "rat \<Rightarrow> rat" and rep :: "rat \<Rightarrow> bool"
  assumes rd_mono: "x \<le> y \<Longrightarrow> rd x \<le> rd y"
    and rd_rep: "rep (rd x)"
    and rd_fixed: "rep r \<Longrightarrow> rd r = r"
    and rep_zero: "rep 0" and rep_one: "rep 1"
begin

lemma rd_zero: "rd 0 = 0" and rd_one: "rd 1 = 1"
  by (simp_all add: rd_fixed rep_zero rep_one)

lemma rd_nonneg: "0 \<le> x \<Longrightarrow> 0 \<le> rd x"
  using rd_mono [of 0 x] by (simp add: rd_zero)

text \<open>A rounded quotient of rounded numbers stays a fraction.\<close>

lemma rd_fraction:
  assumes "0 \<le> a" "a \<le> b" "0 < rd b"
  shows "0 \<le> rd (rd a / rd b)" "rd (rd a / rd b) \<le> 1"
proof -
  have "0 \<le> rd a" "rd a \<le> rd b" using assms rd_mono rd_nonneg by auto
  then show "0 \<le> rd (rd a / rd b)" using assms by (intro rd_nonneg) simp
  have "rd a / rd b \<le> 1" using \<open>rd a \<le> rd b\<close> assms by simp
  then have "rd (rd a / rd b) \<le> rd 1" by (rule rd_mono)
  then show "rd (rd a / rd b) \<le> 1" by (simp add: rd_one)
qed

lemma rd_scaled:
  assumes "0 \<le> x" "x \<le> 1" "0 \<le> c" "rep c"
  shows "0 \<le> rd (x * c)" "rd (x * c) \<le> c"
proof -
  show "0 \<le> rd (x * c)" using assms by (intro rd_nonneg) simp
  have "rd (x * c) \<le> rd c" using assms by (intro rd_mono) (simp add: mult_left_le_one_le)
  then show "rd (x * c) \<le> c" using assms by (simp add: rd_fixed)
qed

text \<open>A represented number above a rounded one is above the unrounded one.\<close>

lemma rd_below: "rep y \<Longrightarrow> rd x < y \<Longrightarrow> x < y"
  using rd_mono [of y x] rd_fixed [of y] by (cases "x < y") auto

end

lemma rounding_mode_format: "valid_format fmt \<Longrightarrow> rounding_mode (rnd fmt) (representable fmt)"
  using representable_int [of fmt 0] representable_int [of fmt 1]
  by unfold_locales (simp_all add: rnd_mono rnd_fixed valid_format_def)

interpretation b64: rounding_mode "rnd binary64" "representable binary64"
  by (rule rounding_mode_format) simp

interpretation b32: rounding_mode "rnd binary32" "representable binary32"
  by (rule rounding_mode_format) simp

section \<open>Results that stay finite\<close>

lemma fround_Fin:
  "\<bar>rnd fmt q\<bar> < pow2 (emax fmt) \<Longrightarrow> fround fmt q = Fin (rnd fmt q)"
  by (auto simp: fround_def Let_def)

lemma rnd_bound:
  assumes "valid_format fmt" "representable fmt b" "- b \<le> q" "q \<le> b"
  shows "\<bar>rnd fmt q\<bar> \<le> b"
proof -
  have "representable fmt (- b)" using assms(2) by (simp add: representable_def)
  then have "- b \<le> rnd fmt q" "rnd fmt q \<le> b"
    using rnd_mono [OF assms(1,3)] rnd_mono [OF assms(1,4)] assms by (simp_all add: rnd_fixed)
  then show ?thesis by simp
qed

lemma representable_pow2: "valid_format fmt \<Longrightarrow> emin fmt \<le> k \<Longrightarrow> representable fmt (pow2 k)"
  unfolding representable_def
  by (intro exI [of _ 1] exI [of _ k]) (simp add: less_imp_le)

text \<open>Every 64-bit integer converts to a finite \<^verbatim>\<open>double\<close>.\<close>

lemma f_of_int_u64:
  assumes "0 \<le> n" "n < 2 ^ 64"
  shows "f_of_int binary64 n = Fin (rnd binary64 (of_int n))"
    "0 \<le> rnd binary64 (of_int n)" "rnd binary64 (of_int n) \<le> 2 ^ 64"
proof -
  have p: "(2 ^ 64 :: rat) = pow2 64" by (simp add: pow2_def)
  from assms have n: "(0 :: rat) \<le> of_int n" "(of_int n :: rat) \<le> 2 ^ 64"
    by (simp_all add: of_int_le_numeral_power_cancel_iff)
  show "0 \<le> rnd binary64 (of_int n)" by (rule b64.rd_nonneg [OF n(1)])
  have "representable binary64 (2 ^ 64)"
    unfolding p by (rule representable_pow2) (simp, simp add: binary64_def)
  then have le: "\<bar>rnd binary64 (of_int n)\<bar> \<le> 2 ^ 64"
    using n by (intro rnd_bound) simp_all
  then show "rnd binary64 (of_int n) \<le> 2 ^ 64" by simp
  have "\<bar>rnd binary64 (of_int n)\<bar> < pow2 (emax binary64)"
    using le pow2_strict [of 64 "emax binary64"] unfolding p by (simp add: binary64_def)
  then show "f_of_int binary64 n = Fin (rnd binary64 (of_int n))"
    unfolding f_of_int_def by (rule fround_Fin)
qed

text \<open>A \<^verbatim>\<open>double\<close> holds every integer of at most 53 bits exactly, also scaled by a negative power of two.\<close>

lemma fround_scaled:
  assumes "\<bar>m\<bar> \<le> 2 ^ 53" "- 1074 \<le> e" "e \<le> 0"
  shows "fround binary64 (of_int m * pow2 e) = Fin (of_int m * pow2 e)"
proof -
  have "representable binary64 (of_int m * pow2 e)"
    unfolding representable_def
    using assms by - (rule exI [of _ "\<bar>m\<bar>"], rule exI [of _ e], simp add: binary64_def abs_mult less_imp_le abs_of_pos)
  then have r: "rnd binary64 (of_int m * pow2 e) = of_int m * pow2 e" by (intro rnd_fixed) simp_all
  have "\<bar>of_int m :: rat\<bar> \<le> 2 ^ 53"
    using assms(1) by (metis of_int_abs of_int_le_iff of_int_numeral of_int_power)
  moreover have "pow2 e \<le> 1" using pow2_mono [OF assms(3)] by (simp add: pow2_def)
  ultimately have "\<bar>of_int m :: rat\<bar> * pow2 e \<le> 2 ^ 53 * 1" by (intro mult_mono) (simp_all add: less_imp_le)
  then have "\<bar>of_int m * pow2 e\<bar> \<le> pow2 53" by (simp add: abs_mult pow2_def)
  also have "\<dots> < pow2 (emax binary64)" by (rule pow2_strict) (simp add: binary64_def)
  finally show ?thesis using fround_Fin [of binary64 "of_int m * pow2 e"] r by simp
qed

lemma fround_int: "\<bar>n\<bar> \<le> 2 ^ 53 \<Longrightarrow> fround binary64 (of_int n) = Fin (of_int n)"
  using fround_scaled [of n 0] by (simp add: pow2_def)

end
