(* ===== verification/Metric_Types.thy ===== *)
theory Metric_Types
  imports Prelude Floating
begin

text \<open>
  The data of the agent: the metric catalogue and the wire messages declared in
  \<^verbatim>\<open>src/sources/proto\<close> (the C++ classes of these messages are generated by \<^verbatim>\<open>protoc\<close> from the
  declarations), and \<^verbatim>\<open>metric.h\<close>.

  The functions \<^verbatim>\<open>MetricType_Name\<close>, \<^verbatim>\<open>MetricType_Parse\<close> and \<^verbatim>\<open>MetricType_IsValid\<close> are generated code.
  The definitions that call them take them as arguments; the locale \<open>metric_enum\<close> states
  their documented behaviour, and is interpreted on the tables read off the declaration of
  the enum.
\<close>

section \<open>The metric catalogue (types/metric.proto)\<close>

datatype MetricType =
    METRIC_TYPE_UNSPECIFIED
  | METRIC_TYPE_CPU_POWER_PACKAGE
  | METRIC_TYPE_CPU_POWER_CORES
  | METRIC_TYPE_CPU_CLOCK_SPEED
  | METRIC_TYPE_CPU_UTILIZATION
  | METRIC_TYPE_CPU_TEMPERATURE
  | METRIC_TYPE_CPU_IOWAIT
  | METRIC_TYPE_CPU_CACHE_HIT_RATIO
  | METRIC_TYPE_CPU_ACTIVE_PROCESSES
  | METRIC_TYPE_GPU_POWER
  | METRIC_TYPE_GPU_CLOCK_SPEED
  | METRIC_TYPE_GPU_UTILIZATION
  | METRIC_TYPE_GPU_TEMPERATURE
  | METRIC_TYPE_GPU_VRAM_USED
  | METRIC_TYPE_GPU_PCIE_BANDWIDTH
  | METRIC_TYPE_GPU_COMPUTE_UNIT_UTILIZATION
  | METRIC_TYPE_GPU_SHARED_MEMORY_UTILIZATION
  | METRIC_TYPE_GPU_REGISTER_UTILIZATION
  | METRIC_TYPE_RAM_POWER
  | METRIC_TYPE_RAM_TOTAL
  | METRIC_TYPE_RAM_AVAILABLE
  | METRIC_TYPE_RAM_USED
  | METRIC_TYPE_RAM_CACHED
  | METRIC_TYPE_SWAP_USED
  | METRIC_TYPE_SWAP_ACTIVITY
  | METRIC_TYPE_DISK_READ_THROUGHPUT
  | METRIC_TYPE_DISK_WRITE_THROUGHPUT
  | METRIC_TYPE_DISK_READ_IOPS
  | METRIC_TYPE_DISK_WRITE_IOPS
  | METRIC_TYPE_DISK_BUSY_TIME
  | METRIC_TYPE_DISK_CAPACITY_USED
  | METRIC_TYPE_NET_BYTES_RECEIVED
  | METRIC_TYPE_NET_BYTES_SENT
  | METRIC_TYPE_NET_PACKETS_RECEIVED
  | METRIC_TYPE_NET_PACKETS_SENT

fun MetricType_value :: "MetricType \<Rightarrow> i32" where
  "MetricType_value METRIC_TYPE_UNSPECIFIED = 0"
| "MetricType_value METRIC_TYPE_CPU_POWER_PACKAGE = 100"
| "MetricType_value METRIC_TYPE_CPU_POWER_CORES = 101"
| "MetricType_value METRIC_TYPE_CPU_CLOCK_SPEED = 102"
| "MetricType_value METRIC_TYPE_CPU_UTILIZATION = 103"
| "MetricType_value METRIC_TYPE_CPU_TEMPERATURE = 104"
| "MetricType_value METRIC_TYPE_CPU_IOWAIT = 105"
| "MetricType_value METRIC_TYPE_CPU_CACHE_HIT_RATIO = 106"
| "MetricType_value METRIC_TYPE_CPU_ACTIVE_PROCESSES = 107"
| "MetricType_value METRIC_TYPE_GPU_POWER = 200"
| "MetricType_value METRIC_TYPE_GPU_CLOCK_SPEED = 201"
| "MetricType_value METRIC_TYPE_GPU_UTILIZATION = 202"
| "MetricType_value METRIC_TYPE_GPU_TEMPERATURE = 203"
| "MetricType_value METRIC_TYPE_GPU_VRAM_USED = 204"
| "MetricType_value METRIC_TYPE_GPU_PCIE_BANDWIDTH = 205"
| "MetricType_value METRIC_TYPE_GPU_COMPUTE_UNIT_UTILIZATION = 206"
| "MetricType_value METRIC_TYPE_GPU_SHARED_MEMORY_UTILIZATION = 207"
| "MetricType_value METRIC_TYPE_GPU_REGISTER_UTILIZATION = 208"
| "MetricType_value METRIC_TYPE_RAM_POWER = 300"
| "MetricType_value METRIC_TYPE_RAM_TOTAL = 301"
| "MetricType_value METRIC_TYPE_RAM_AVAILABLE = 302"
| "MetricType_value METRIC_TYPE_RAM_USED = 303"
| "MetricType_value METRIC_TYPE_RAM_CACHED = 304"
| "MetricType_value METRIC_TYPE_SWAP_USED = 305"
| "MetricType_value METRIC_TYPE_SWAP_ACTIVITY = 306"
| "MetricType_value METRIC_TYPE_DISK_READ_THROUGHPUT = 400"
| "MetricType_value METRIC_TYPE_DISK_WRITE_THROUGHPUT = 401"
| "MetricType_value METRIC_TYPE_DISK_READ_IOPS = 402"
| "MetricType_value METRIC_TYPE_DISK_WRITE_IOPS = 403"
| "MetricType_value METRIC_TYPE_DISK_BUSY_TIME = 404"
| "MetricType_value METRIC_TYPE_DISK_CAPACITY_USED = 405"
| "MetricType_value METRIC_TYPE_NET_BYTES_RECEIVED = 500"
| "MetricType_value METRIC_TYPE_NET_BYTES_SENT = 501"
| "MetricType_value METRIC_TYPE_NET_PACKETS_RECEIVED = 502"
| "MetricType_value METRIC_TYPE_NET_PACKETS_SENT = 503"

text \<open>The names, in the order of the declaration.\<close>

fun MetricType_table_name :: "MetricType \<Rightarrow> string" where
  "MetricType_table_name METRIC_TYPE_UNSPECIFIED = ''METRIC_TYPE_UNSPECIFIED''"
| "MetricType_table_name METRIC_TYPE_CPU_POWER_PACKAGE = ''METRIC_TYPE_CPU_POWER_PACKAGE''"
| "MetricType_table_name METRIC_TYPE_CPU_POWER_CORES = ''METRIC_TYPE_CPU_POWER_CORES''"
| "MetricType_table_name METRIC_TYPE_CPU_CLOCK_SPEED = ''METRIC_TYPE_CPU_CLOCK_SPEED''"
| "MetricType_table_name METRIC_TYPE_CPU_UTILIZATION = ''METRIC_TYPE_CPU_UTILIZATION''"
| "MetricType_table_name METRIC_TYPE_CPU_TEMPERATURE = ''METRIC_TYPE_CPU_TEMPERATURE''"
| "MetricType_table_name METRIC_TYPE_CPU_IOWAIT = ''METRIC_TYPE_CPU_IOWAIT''"
| "MetricType_table_name METRIC_TYPE_CPU_CACHE_HIT_RATIO = ''METRIC_TYPE_CPU_CACHE_HIT_RATIO''"
| "MetricType_table_name METRIC_TYPE_CPU_ACTIVE_PROCESSES = ''METRIC_TYPE_CPU_ACTIVE_PROCESSES''"
| "MetricType_table_name METRIC_TYPE_GPU_POWER = ''METRIC_TYPE_GPU_POWER''"
| "MetricType_table_name METRIC_TYPE_GPU_CLOCK_SPEED = ''METRIC_TYPE_GPU_CLOCK_SPEED''"
| "MetricType_table_name METRIC_TYPE_GPU_UTILIZATION = ''METRIC_TYPE_GPU_UTILIZATION''"
| "MetricType_table_name METRIC_TYPE_GPU_TEMPERATURE = ''METRIC_TYPE_GPU_TEMPERATURE''"
| "MetricType_table_name METRIC_TYPE_GPU_VRAM_USED = ''METRIC_TYPE_GPU_VRAM_USED''"
| "MetricType_table_name METRIC_TYPE_GPU_PCIE_BANDWIDTH = ''METRIC_TYPE_GPU_PCIE_BANDWIDTH''"
| "MetricType_table_name METRIC_TYPE_GPU_COMPUTE_UNIT_UTILIZATION = ''METRIC_TYPE_GPU_COMPUTE_UNIT_UTILIZATION''"
| "MetricType_table_name METRIC_TYPE_GPU_SHARED_MEMORY_UTILIZATION = ''METRIC_TYPE_GPU_SHARED_MEMORY_UTILIZATION''"
| "MetricType_table_name METRIC_TYPE_GPU_REGISTER_UTILIZATION = ''METRIC_TYPE_GPU_REGISTER_UTILIZATION''"
| "MetricType_table_name METRIC_TYPE_RAM_POWER = ''METRIC_TYPE_RAM_POWER''"
| "MetricType_table_name METRIC_TYPE_RAM_TOTAL = ''METRIC_TYPE_RAM_TOTAL''"
| "MetricType_table_name METRIC_TYPE_RAM_AVAILABLE = ''METRIC_TYPE_RAM_AVAILABLE''"
| "MetricType_table_name METRIC_TYPE_RAM_USED = ''METRIC_TYPE_RAM_USED''"
| "MetricType_table_name METRIC_TYPE_RAM_CACHED = ''METRIC_TYPE_RAM_CACHED''"
| "MetricType_table_name METRIC_TYPE_SWAP_USED = ''METRIC_TYPE_SWAP_USED''"
| "MetricType_table_name METRIC_TYPE_SWAP_ACTIVITY = ''METRIC_TYPE_SWAP_ACTIVITY''"
| "MetricType_table_name METRIC_TYPE_DISK_READ_THROUGHPUT = ''METRIC_TYPE_DISK_READ_THROUGHPUT''"
| "MetricType_table_name METRIC_TYPE_DISK_WRITE_THROUGHPUT = ''METRIC_TYPE_DISK_WRITE_THROUGHPUT''"
| "MetricType_table_name METRIC_TYPE_DISK_READ_IOPS = ''METRIC_TYPE_DISK_READ_IOPS''"
| "MetricType_table_name METRIC_TYPE_DISK_WRITE_IOPS = ''METRIC_TYPE_DISK_WRITE_IOPS''"
| "MetricType_table_name METRIC_TYPE_DISK_BUSY_TIME = ''METRIC_TYPE_DISK_BUSY_TIME''"
| "MetricType_table_name METRIC_TYPE_DISK_CAPACITY_USED = ''METRIC_TYPE_DISK_CAPACITY_USED''"
| "MetricType_table_name METRIC_TYPE_NET_BYTES_RECEIVED = ''METRIC_TYPE_NET_BYTES_RECEIVED''"
| "MetricType_table_name METRIC_TYPE_NET_BYTES_SENT = ''METRIC_TYPE_NET_BYTES_SENT''"
| "MetricType_table_name METRIC_TYPE_NET_PACKETS_RECEIVED = ''METRIC_TYPE_NET_PACKETS_RECEIVED''"
| "MetricType_table_name METRIC_TYPE_NET_PACKETS_SENT = ''METRIC_TYPE_NET_PACKETS_SENT''"

definition MetricType_all :: "MetricType list" where
  "MetricType_all = [
     METRIC_TYPE_UNSPECIFIED,
     METRIC_TYPE_CPU_POWER_PACKAGE,
     METRIC_TYPE_CPU_POWER_CORES,
     METRIC_TYPE_CPU_CLOCK_SPEED,
     METRIC_TYPE_CPU_UTILIZATION,
     METRIC_TYPE_CPU_TEMPERATURE,
     METRIC_TYPE_CPU_IOWAIT,
     METRIC_TYPE_CPU_CACHE_HIT_RATIO,
     METRIC_TYPE_CPU_ACTIVE_PROCESSES,
     METRIC_TYPE_GPU_POWER,
     METRIC_TYPE_GPU_CLOCK_SPEED,
     METRIC_TYPE_GPU_UTILIZATION,
     METRIC_TYPE_GPU_TEMPERATURE,
     METRIC_TYPE_GPU_VRAM_USED,
     METRIC_TYPE_GPU_PCIE_BANDWIDTH,
     METRIC_TYPE_GPU_COMPUTE_UNIT_UTILIZATION,
     METRIC_TYPE_GPU_SHARED_MEMORY_UTILIZATION,
     METRIC_TYPE_GPU_REGISTER_UTILIZATION,
     METRIC_TYPE_RAM_POWER,
     METRIC_TYPE_RAM_TOTAL,
     METRIC_TYPE_RAM_AVAILABLE,
     METRIC_TYPE_RAM_USED,
     METRIC_TYPE_RAM_CACHED,
     METRIC_TYPE_SWAP_USED,
     METRIC_TYPE_SWAP_ACTIVITY,
     METRIC_TYPE_DISK_READ_THROUGHPUT,
     METRIC_TYPE_DISK_WRITE_THROUGHPUT,
     METRIC_TYPE_DISK_READ_IOPS,
     METRIC_TYPE_DISK_WRITE_IOPS,
     METRIC_TYPE_DISK_BUSY_TIME,
     METRIC_TYPE_DISK_CAPACITY_USED,
     METRIC_TYPE_NET_BYTES_RECEIVED,
     METRIC_TYPE_NET_BYTES_SENT,
     METRIC_TYPE_NET_PACKETS_RECEIVED,
     METRIC_TYPE_NET_PACKETS_SENT]"

section \<open>Devices and metrics (types/metric.proto, metric.h)\<close>

record GpuID =
  pci_domain :: u32
  pci_bus :: u32
  pci_device :: u32
  pci_function :: u32

record CpuID =
  socket_index :: u32
  core_index :: u32

record NetInterfaceID =
  ifindex :: u32

record DiskID =
  disk_major :: u32
  disk_minor :: u32

text \<open>\<^verbatim>\<open>using DeviceId = std::variant<...>\<close> of metric.h.\<close>

datatype DeviceId = Gpu GpuID | Cpu CpuID | Net NetInterfaceID | Disk DiskID

record Metric =
  metric_type :: MetricType
  devId :: "DeviceId option"
  metric_value :: double
  timestamp :: i64

definition default_Metric :: Metric where
  "default_Metric = \<lparr>metric_type = METRIC_TYPE_UNSPECIFIED, devId = None,
     metric_value = Fin 0, timestamp = 0\<rparr>"

definition HasDevice :: "Metric \<Rightarrow> bool" where
  "HasDevice m = (devId m \<noteq> None)"

section \<open>Wire messages (types/metric.proto, types/transport.proto)\<close>

text \<open>
  \<^verbatim>\<open>message DeviceID\<close> is a oneof over the four device kinds: \<open>None\<close> when no member is set.
  A proto3 enum field is open: the header stores the number.
\<close>

type_synonym DeviceID = "DeviceId option"

record BatchHeader =
  header_metric_type :: i32
  header_device_id :: "DeviceID option"

record MetricBatch =
  batch_id :: u64
  batch_header :: BatchHeader
  batch_timestamps_ns :: "u64 list"
  batch_values :: "double list"

record BatchAck =
  ack_batch_id :: u64
  ack_samples_received :: u64
  ack_error :: "string option"

datatype MessageType =
    MESSAGE_UNKNOWN
  | MESSAGE_SEND_DATA
  | MESSAGE_STREAM_DATA
  | MESSAGE_OK
  | MESSAGE_ERROR
  | MESSAGE_PING
  | MESSAGE_PONG
  | MESSAGE_ID

text \<open>Of the oneof \<^verbatim>\<open>request\<close> the agent reads and writes the member \<^verbatim>\<open>payload\<close> only; the others
  and the timestamp are never set by it and never looked at.\<close>

record ControlMessage =
  msg_type :: MessageType
  msg_payload :: "string option"

text \<open>\<^verbatim>\<open>msg.payload()\<close> of an unset member is the empty string.\<close>

definition payload_of :: "ControlMessage \<Rightarrow> string" where
  "payload_of m = (case msg_payload m of None \<Rightarrow> [] | Some p \<Rightarrow> p)"

section \<open>The generated enum functions\<close>

type_synonym name_fun = "MetricType \<Rightarrow> string"
type_synonym parse_fun = "string \<Rightarrow> MetricType option"
type_synonym cast_fun = "i32 \<Rightarrow> MetricType option"

definition MetricType_table_parse :: parse_fun where
  "MetricType_table_parse s = find (\<lambda>m. MetricType_table_name m = s) MetricType_all"

text \<open>\<^verbatim>\<open>MetricType_IsValid(n)\<close> and \<^verbatim>\<open>static_cast<MetricType>(n)\<close> in one: \<open>None\<close> when \<open>n\<close> is not the
  number of an enumerator.\<close>

definition MetricType_table_cast :: cast_fun where
  "MetricType_table_cast n = find (\<lambda>m. MetricType_value m = n) MetricType_all"

lemma MetricType_all_complete [simp]: "m \<in> set MetricType_all"
  by (cases m) (simp_all add: MetricType_all_def)

lemma MetricType_value_inj: "MetricType_value a = MetricType_value b \<longleftrightarrow> a = b"
proof
  have "distinct (map MetricType_value MetricType_all)"
    by (simp add: MetricType_all_def)
  then have "inj_on MetricType_value (set MetricType_all)" by (simp add: distinct_map)
  then show "MetricType_value a = MetricType_value b \<Longrightarrow> a = b" by (simp add: inj_on_def)
qed simp

lemma MetricType_table_name_inj: "MetricType_table_name a = MetricType_table_name b \<longleftrightarrow> a = b"
proof
  have "distinct (map MetricType_table_name MetricType_all)"
    by (simp add: MetricType_all_def)
  then have "inj_on MetricType_table_name (set MetricType_all)" by (simp add: distinct_map)
  then show "MetricType_table_name a = MetricType_table_name b \<Longrightarrow> a = b" by (simp add: inj_on_def)
qed simp

locale metric_enum =
  fixes name :: name_fun and parse :: parse_fun and cast :: cast_fun
  assumes parse_name: "parse (name m) = Some m"
    and parse_sound: "parse s = Some m \<Longrightarrow> s = name m"
    and cast_value: "cast (MetricType_value m) = Some m"
    and cast_sound: "cast n = Some m \<Longrightarrow> n = MetricType_value m"
begin

lemma name_inj: "name a = name b \<longleftrightarrow> a = b"
  by (metis option.inject parse_name)

lemma parse_eq: "parse s = Some m \<longleftrightarrow> s = name m"
  using parse_name parse_sound by blast

end

lemma find_first_hit: "find P xs = Some x \<Longrightarrow> P x"
  by (induction xs) (auto split: if_splits)

lemma find_unique:
  assumes "x \<in> set xs" "\<And>y. f y = f x \<longleftrightarrow> y = x"
  shows "find (\<lambda>y. f y = f x) xs = Some x"
  using assms by (induction xs) auto

interpretation table: metric_enum MetricType_table_name MetricType_table_parse MetricType_table_cast
proof
  fix m s n
  show "MetricType_table_parse (MetricType_table_name m) = Some m"
    unfolding MetricType_table_parse_def
    by (rule find_unique) (simp_all add: MetricType_table_name_inj)
  show "MetricType_table_cast (MetricType_value m) = Some m"
    unfolding MetricType_table_cast_def
    by (rule find_unique) (simp_all add: MetricType_value_inj)
  show "MetricType_table_parse s = Some m \<Longrightarrow> s = MetricType_table_name m"
    unfolding MetricType_table_parse_def by (drule find_first_hit) simp
  show "MetricType_table_cast n = Some m \<Longrightarrow> n = MetricType_value m"
    unfolding MetricType_table_cast_def by (drule find_first_hit) simp
qed

end
