(* ===== verification/Series_Buffer.thy ===== *)
theory Series_Buffer
  imports Metric_Types
begin

text \<open>
  \<^verbatim>\<open>class SeriesBuffer\<close> of buffer.h / buffer.cc: the ring buffer that holds the samples of one
  time series.  \<open>head\<close> counts every sample ever pushed, \<open>tail\<close> the samples sent or dropped; a
  sample with count \<open>i\<close> lies in slot \<open>i mod capacity\<close>.  The counters are 64-bit words, so the
  model wraps where the code does; indexing outside the vector, a remainder by zero and
  \<^verbatim>\<open>std::length_error\<close> are error results.

  The abstract specification \<open>series_spec\<close> keeps the whole history of pushed samples and the
  number of samples no longer owed to the server.  \<open>sb_rel\<close> relates the two; the locale
  \<open>series_log\<close> is the contract the streaming client relies on, and it is interpreted on the
  operations of the ring buffer.
\<close>

section \<open>Data (buffer.h)\<close>

record Sample =
  timestamp_ns :: i64
  sample_value :: double

definition default_Sample :: Sample where
  "default_Sample = \<lparr>timestamp_ns = 0, sample_value = Fin 0\<rparr>"

record SeriesBuffer =
  sb_capacity :: size_t
  sb_samples :: "Sample list"
  sb_head :: size_t
  sb_tail :: size_t

record Snapshot =
  snap_samples :: "Sample list"
  snap_end :: size_t

section \<open>Operations (buffer.cc)\<close>

text \<open>\<^verbatim>\<open>std::vector<Sample>::max_size()\<close> for 16-byte elements on LP64.\<close>

definition vector_max_size :: nat where
  "vector_max_size = (2 ^ 63 - 1) div 16"

definition vector_reserve :: "size_t \<Rightarrow> unit result" where
  "vector_reserve n = (if vector_max_size < unat n then Inl LengthError else Inr ())"

definition vector_at :: "'a list \<Rightarrow> size_t \<Rightarrow> 'a result" where
  "vector_at xs i = (if unat i < length xs then Inr (xs ! unat i) else Inl OutOfBounds)"

definition word_rem :: "size_t \<Rightarrow> size_t \<Rightarrow> size_t result" where
  "word_rem a b = (if b = 0 then Inl DivideByZero else Inr (a mod b))"

definition SeriesBuffer_SetCapacity :: "size_t \<Rightarrow> SeriesBuffer \<Rightarrow> SeriesBuffer result" where
  "SeriesBuffer_SetCapacity capacity b =
     res_bind (vector_reserve capacity) (\<lambda>_.
       Inr (b\<lparr>sb_capacity := capacity,
              sb_samples := replicate (unat capacity) default_Sample,
              sb_head := 0\<rparr>))"

definition SeriesBuffer_new :: "size_t \<Rightarrow> SeriesBuffer result" where
  "SeriesBuffer_new capacity = SeriesBuffer_SetCapacity capacity
     \<lparr>sb_capacity = 0, sb_samples = [], sb_head = 0, sb_tail = 0\<rparr>"

definition SeriesBuffer_Push :: "Sample \<Rightarrow> SeriesBuffer \<Rightarrow> SeriesBuffer result" where
  "SeriesBuffer_Push sample b =
     (if sb_capacity b = 0 then Inr b
      else
        let tail' = (if sb_capacity b \<le> sb_head b - sb_tail b then sb_tail b + 1 else sb_tail b);
            slot = sb_head b mod sb_capacity b
        in if unat slot < length (sb_samples b)
           then Inr (b\<lparr>sb_tail := tail', sb_samples := (sb_samples b)[unat slot := sample],
                       sb_head := sb_head b + 1\<rparr>)
           else Inl OutOfBounds)"

definition SeriesBuffer_Latest :: "SeriesBuffer \<Rightarrow> Sample option result" where
  "SeriesBuffer_Latest b =
     (if sb_head b = 0 then Inr None
      else res_bind (word_rem (sb_head b - 1) (sb_capacity b)) (\<lambda>slot.
             res_map Some (vector_at (sb_samples b) slot)))"

definition SeriesBuffer_GetNextSnapshotSize :: "SeriesBuffer \<Rightarrow> size_t" where
  "SeriesBuffer_GetNextSnapshotSize b = sb_head b - sb_tail b"

text \<open>The loop \<^verbatim>\<open>for (size_t i = tail_; i < head_; ++i)\<close>.\<close>

function snapshot_loop :: "SeriesBuffer \<Rightarrow> size_t \<Rightarrow> Sample list \<Rightarrow> Sample list result" where
  "snapshot_loop b i acc =
     (if i < sb_head b
      then res_bind (word_rem i (sb_capacity b)) (\<lambda>slot.
             res_bind (vector_at (sb_samples b) slot) (\<lambda>x.
               snapshot_loop b (i + 1) (acc @ [x])))
      else Inr acc)"
  by pat_completeness auto
termination
proof (relation "measure (\<lambda>(b, i, acc). unat (sb_head b) - unat i)")
  fix b i acc x xa
  assume "i < sb_head b"
  then have "unat i < unat (sb_head b)" by (simp add: word_less_nat_alt)
  with unat64_bound [of "sb_head b"] have "unat (i + 1) = unat i + 1" by (intro unat_succ) simp
  with \<open>unat i < unat (sb_head b)\<close>
  show "((b, i + 1, acc @ [xa]), b, i, acc) \<in> measure (\<lambda>(b, i, acc). unat (sb_head b) - unat i)"
    by simp
qed simp

declare snapshot_loop.simps [simp del]

definition SeriesBuffer_GetSnapshot :: "SeriesBuffer \<Rightarrow> Snapshot result" where
  "SeriesBuffer_GetSnapshot b =
     res_bind (vector_reserve (sb_head b - sb_tail b)) (\<lambda>_.
       res_map (\<lambda>r. \<lparr>snap_samples = r, snap_end = sb_head b\<rparr>) (snapshot_loop b (sb_tail b) []))"

definition SeriesBuffer_AckSnapshot :: "Snapshot \<Rightarrow> SeriesBuffer \<Rightarrow> SeriesBuffer" where
  "SeriesBuffer_AckSnapshot s b =
     (if sb_tail b < snap_end s then b\<lparr>sb_tail := snap_end s\<rparr> else b)"

definition SeriesBuffer_Size :: "SeriesBuffer \<Rightarrow> nat" where
  "SeriesBuffer_Size b = length (sb_samples b)"

definition SeriesBuffer_Empty :: "SeriesBuffer \<Rightarrow> bool" where
  "SeriesBuffer_Empty b = (sb_samples b = [])"

section \<open>The abstract series\<close>

record series_spec =
  sp_cap :: nat
  sp_hist :: "Sample list"   \<comment> \<open>every sample ever pushed, oldest first\<close>
  sp_gone :: nat             \<comment> \<open>how many of them are no longer owed to the server\<close>

definition spec_unsent :: "series_spec \<Rightarrow> Sample list" where
  "spec_unsent s = drop (sp_gone s) (sp_hist s)"

definition spec_push :: "Sample \<Rightarrow> series_spec \<Rightarrow> series_spec" where
  "spec_push x s = (if sp_cap s = 0 then s else
     s\<lparr>sp_hist := sp_hist s @ [x],
       sp_gone := (if length (spec_unsent s) = sp_cap s then sp_gone s + 1 else sp_gone s)\<rparr>)"

definition spec_ack :: "nat \<Rightarrow> series_spec \<Rightarrow> series_spec" where
  "spec_ack e s = s\<lparr>sp_gone := max (sp_gone s) e\<rparr>"

definition spec_latest :: "series_spec \<Rightarrow> Sample option" where
  "spec_latest s = (if sp_hist s = [] then None else Some (last (sp_hist s)))"

text \<open>The ring buffer represents a history when its counters are the history's length and
  the number of samples gone, and the last \<open>capacity\<close> samples lie in their slots.\<close>

definition sb_rel :: "SeriesBuffer \<Rightarrow> series_spec \<Rightarrow> bool" where
  "sb_rel b s \<longleftrightarrow>
     unat (sb_capacity b) = sp_cap s \<and> length (sb_samples b) = sp_cap s \<and>
     sp_cap s \<le> vector_max_size \<and>
     unat (sb_head b) = length (sp_hist s) \<and> unat (sb_tail b) = sp_gone s \<and>
     sp_gone s \<le> length (sp_hist s) \<and> length (sp_hist s) \<le> sp_gone s + sp_cap s \<and>
     (sp_cap s = 0 \<longrightarrow> sp_hist s = []) \<and>
     (\<forall>i < length (sp_hist s). length (sp_hist s) \<le> i + sp_cap s \<longrightarrow>
        sb_samples b ! (i mod sp_cap s) = sp_hist s ! i)"

section \<open>Sequences of operations\<close>

text \<open>
  What the two threads that share a series do to it, in any order: the collector pushes,
  the streaming client takes snapshots and acknowledges one of the snapshots it took
  (numbered from the first; an acknowledgement of a snapshot not taken yet is ignored).
\<close>

datatype sb_op = OpPush Sample | OpSnapshot | OpAck nat

type_synonym 'b sb_run = "'b \<times> Snapshot list"

definition sb_step :: "sb_op \<Rightarrow> SeriesBuffer sb_run \<Rightarrow> SeriesBuffer sb_run result" where
  "sb_step op st = (let (b, ps) = st in case op of
     OpPush x \<Rightarrow> res_map (\<lambda>b'. (b', ps)) (SeriesBuffer_Push x b)
   | OpSnapshot \<Rightarrow> res_map (\<lambda>p. (b, ps @ [p])) (SeriesBuffer_GetSnapshot b)
   | OpAck n \<Rightarrow> Inr (if n < length ps then SeriesBuffer_AckSnapshot (ps ! n) b else b, ps))"

definition sb_exec :: "size_t \<Rightarrow> sb_op list \<Rightarrow> SeriesBuffer sb_run result" where
  "sb_exec c ops = res_bind (SeriesBuffer_new c) (\<lambda>b. res_fold sb_step ops (b, []))"

definition spec_snapshot :: "series_spec \<Rightarrow> Snapshot" where
  "spec_snapshot s = \<lparr>snap_samples = spec_unsent s, snap_end = of_nat (length (sp_hist s))\<rparr>"

definition spec_step :: "sb_op \<Rightarrow> series_spec sb_run \<Rightarrow> series_spec sb_run" where
  "spec_step op st = (let (s, ps) = st in case op of
     OpPush x \<Rightarrow> (spec_push x s, ps)
   | OpSnapshot \<Rightarrow> (s, ps @ [spec_snapshot s])
   | OpAck n \<Rightarrow> (if n < length ps then spec_ack (unat (snap_end (ps ! n))) s else s, ps))"

definition spec_init :: "nat \<Rightarrow> series_spec" where
  "spec_init c = \<lparr>sp_cap = c, sp_hist = [], sp_gone = 0\<rparr>"

fun pushes :: "sb_op list \<Rightarrow> Sample list" where
  "pushes [] = []"
| "pushes (OpPush x # ops) = x # pushes ops"
| "pushes (_ # ops) = pushes ops"

lemma vector_max_size_bound: "n \<le> vector_max_size \<Longrightarrow> n < 2 ^ 64"
  by (simp add: vector_max_size_def)

lemmas sb_relD = sb_rel_def [THEN iffD1]

lemma mod_distinct:
  fixes i h c :: nat
  assumes "i < h" "h < i + c"
  shows "i mod c \<noteq> h mod c"
proof
  assume "i mod c = h mod c"
  then have "h mod c = i mod c" by simp
  then have "c dvd h - i" using assms by (subst (asm) mod_eq_dvd_iff_nat) simp_all
  with assms show False by (auto dest: dvd_imp_le)
qed

section \<open>Every operation implements its specification\<close>

lemma SeriesBuffer_new_rel:
  assumes "unat c \<le> vector_max_size"
  shows "\<exists>b. SeriesBuffer_new c = Inr b \<and> sb_rel b (spec_init (unat c))"
  using assms by (simp add: spec_init_def SeriesBuffer_new_def SeriesBuffer_SetCapacity_def vector_reserve_def sb_rel_def)

lemma sb_rel_full_iff:
  assumes "sb_rel b s"
  shows "sb_capacity b \<le> sb_head b - sb_tail b \<longleftrightarrow> length (spec_unsent s) = sp_cap s"
proof -
  from assms have "unat (sb_head b - sb_tail b) = length (spec_unsent s)"
    by (simp add: sb_rel_def spec_unsent_def wordarith)
  moreover have "length (spec_unsent s) \<le> sp_cap s"
    using assms [THEN sb_relD] by (auto simp: spec_unsent_def)
  ultimately show ?thesis using assms by (auto simp: word_le_nat_alt sb_rel_def)
qed

lemma SeriesBuffer_Push_rel:
  assumes rel: "sb_rel b s" and room: "length (sp_hist s) + 1 < 2 ^ 64"
  shows "\<exists>b'. SeriesBuffer_Push x b = Inr b' \<and> sb_rel b' (spec_push x s)"
proof (cases "sp_cap s = 0")
  case True
  with rel have "sb_capacity b = 0" by (simp add: sb_rel_def unat_eq_zero)
  with True rel show ?thesis by (simp add: SeriesBuffer_Push_def spec_push_def)
next
  case False
  note r = rel [THEN sb_relD]
  let ?h = "length (sp_hist s)" and ?c = "sp_cap s"
  let ?slot = "?h mod ?c"
  have cap: "sb_capacity b \<noteq> 0" using r False by auto
  have slot: "unat (sb_head b mod sb_capacity b) = ?slot" using r by (simp add: wordarith)
  have "?slot < length (sb_samples b)" using r False by simp
  then have b': "SeriesBuffer_Push x b = Inr (b\<lparr>sb_tail :=
       if sb_capacity b \<le> sb_head b - sb_tail b then sb_tail b + 1 else sb_tail b,
       sb_samples := (sb_samples b)[?slot := x], sb_head := sb_head b + 1\<rparr>)" (is "_ = Inr ?b'")
    using cap slot by (simp add: SeriesBuffer_Push_def Let_def)
  have head: "unat (sb_head b + 1) = ?h + 1" using r room by (simp add: wordarith)
  have "sp_gone s + 1 < 2 ^ 64" using r room by simp
  then have tail: "unat (sb_tail b + 1) = sp_gone s + 1" using r by (simp add: wordarith)
  have slots: "(sb_samples b)[?slot := x] ! (i mod ?c) = (sp_hist s @ [x]) ! i"
    if "i < ?h + 1" "?h + 1 \<le> i + ?c" for i
  proof (cases "i = ?h")
    case True
    with \<open>?slot < length (sb_samples b)\<close> show ?thesis by simp
  next
    case False
    with that have "i < ?h" "?h < i + ?c" by simp_all
    with mod_distinct [of i ?h ?c] r show ?thesis by (simp add: nth_append)
  qed
  have "sb_rel ?b' (spec_push x s)"
    unfolding sb_rel_def spec_push_def
    using r False slots head tail sb_rel_full_iff [OF rel]
    by (auto simp: spec_unsent_def)
  with b' show ?thesis by blast
qed

lemma SeriesBuffer_Latest_rel:
  assumes rel: "sb_rel b s"
  shows "SeriesBuffer_Latest b = Inr (spec_latest s)"
proof (cases "sp_hist s = []")
  case True
  with rel have "sb_head b = 0" by (simp add: sb_rel_def unat_eq_zero)
  with True show ?thesis by (simp add: SeriesBuffer_Latest_def spec_latest_def)
next
  case False
  note r = rel [THEN sb_relD]
  let ?h = "length (sp_hist s)" and ?c = "sp_cap s"
  have nz: "sb_head b \<noteq> 0" "sb_capacity b \<noteq> 0" "?c \<noteq> 0" "0 < ?h" using r False by auto
  then have slot: "unat ((sb_head b - 1) mod sb_capacity b) = (?h - 1) mod ?c"
    using r by (simp add: wordarith)
  have "sb_samples b ! ((?h - 1) mod ?c) = sp_hist s ! (?h - 1)" using r nz by simp
  with r nz slot False show ?thesis
    by (simp add: SeriesBuffer_Latest_def word_rem_def vector_at_def spec_latest_def last_conv_nth)
qed

text \<open>The copy loop reads the slots of the samples it counts through.\<close>

lemma snapshot_loop_rel:
  assumes "sb_rel b s" "sp_gone s \<le> unat i" "unat i \<le> length (sp_hist s)"
  shows "snapshot_loop b i acc = Inr (acc @ drop (unat i) (sp_hist s))"
  using assms
proof (induction b i acc rule: snapshot_loop.induct)
  case (1 b i acc)
  note r = "1.prems"(1) [THEN sb_relD]
  show ?case
  proof (cases "i < sb_head b")
    case False
    with "1.prems" r have "unat i = length (sp_hist s)" by (simp add: word_less_nat_alt)
    with False show ?thesis by (simp add: snapshot_loop.simps [of b i])
  next
    case True
    let ?c = "sp_cap s" and ?x = "sp_hist s ! unat i"
    have lt: "unat i < length (sp_hist s)" using True r by (simp add: word_less_nat_alt)
    then have nz: "sb_capacity b \<noteq> 0" "?c \<noteq> 0" using r by auto
    have rem: "word_rem i (sb_capacity b) = Inr (i mod sb_capacity b)" using nz by (simp add: word_rem_def)
    have "sb_samples b ! (unat i mod ?c) = ?x" using r lt "1.prems"(2) by simp
    then have at: "vector_at (sb_samples b) (i mod sb_capacity b) = Inr ?x"
      using r nz by (simp add: vector_at_def wordarith)
    have succ: "unat (i + 1) = unat i + 1"
      using lt r unat64_bound [of "sb_head b"] by (intro unat_succ) simp
    have "snapshot_loop b (i + 1) (acc @ [?x]) = Inr ((acc @ [?x]) @ drop (unat (i + 1)) (sp_hist s))"
      using succ lt "1.prems" by (intro "1.IH" [OF True]) simp_all
    with True rem at succ lt show ?thesis
      by (simp add: snapshot_loop.simps [of b i] Cons_nth_drop_Suc)
  qed
qed

lemma SeriesBuffer_GetSnapshot_rel:
  assumes "sb_rel b s"
  shows "SeriesBuffer_GetSnapshot b = Inr (spec_snapshot s)"
proof -
  note r = assms [THEN sb_relD]
  have "unat (sb_head b - sb_tail b) \<le> vector_max_size" using r by (auto simp: wordarith)
  then have "vector_reserve (sb_head b - sb_tail b) = Inr ()" by (simp add: vector_reserve_def)
  moreover have "sb_head b = of_nat (length (sp_hist s))" using r by (metis of_nat_unat ucast_id)
  ultimately show ?thesis
    using snapshot_loop_rel [OF assms, of "sb_tail b" "[]"] r
    by (simp add: SeriesBuffer_GetSnapshot_def spec_snapshot_def spec_unsent_def)
qed

lemma SeriesBuffer_AckSnapshot_rel:
  assumes "sb_rel b s" "unat (snap_end p) \<le> length (sp_hist s)"
  shows "sb_rel (SeriesBuffer_AckSnapshot p b) (spec_ack (unat (snap_end p)) s)"
  using assms by (auto simp: SeriesBuffer_AckSnapshot_def sb_rel_def spec_ack_def word_less_nat_alt max_def)

section \<open>The contract and its clients\<close>

lemma spec_push_simps [simp]:
  "sp_cap (spec_push x s) = sp_cap s"
  "sp_cap s \<noteq> 0 \<Longrightarrow> sp_hist (spec_push x s) = sp_hist s @ [x]"
  "length (sp_hist (spec_push x s)) \<le> Suc (length (sp_hist s))"
  by (simp_all add: spec_push_def)

lemma spec_ack_simps [simp]:
  "sp_cap (spec_ack e s) = sp_cap s" "sp_hist (spec_ack e s) = sp_hist s"
  "sp_gone (spec_ack e s) = max (sp_gone s) e"
  by (simp_all add: spec_ack_def)

lemma spec_init_simps [simp]:
  "sp_cap (spec_init c) = c" "sp_hist (spec_init c) = []" "sp_gone (spec_init c) = 0"
  by (simp_all add: spec_init_def)

locale series_log =
  fixes new :: "size_t \<Rightarrow> 'b result"
    and push :: "Sample \<Rightarrow> 'b \<Rightarrow> 'b result"
    and snapshot :: "'b \<Rightarrow> Snapshot result"
    and ack :: "Snapshot \<Rightarrow> 'b \<Rightarrow> 'b"
    and latest :: "'b \<Rightarrow> Sample option result"
    and rel :: "'b \<Rightarrow> series_spec \<Rightarrow> bool"
  assumes new_rel: "unat c \<le> vector_max_size \<Longrightarrow> \<exists>b. new c = Inr b \<and> rel b (spec_init (unat c))"
    and push_rel: "rel b s \<Longrightarrow> length (sp_hist s) + 1 < 2 ^ 64 \<Longrightarrow>
      \<exists>b'. push x b = Inr b' \<and> rel b' (spec_push x s)"
    and snapshot_rel: "rel b s \<Longrightarrow> snapshot b = Inr (spec_snapshot s)"
    and ack_rel: "rel b s \<Longrightarrow> unat (snap_end p) \<le> length (sp_hist s) \<Longrightarrow>
      rel (ack p b) (spec_ack (unat (snap_end p)) s)"
    and latest_rel: "rel b s \<Longrightarrow> latest b = Inr (spec_latest s)"
    and rel_bounds: "rel b s \<Longrightarrow> sp_gone s \<le> length (sp_hist s) \<and>
      length (sp_hist s) \<le> sp_gone s + sp_cap s \<and> length (sp_hist s) < 2 ^ 64"
begin

lemma push_all_rel:
  assumes "rel b s" "length (sp_hist s) + length xs < 2 ^ 64"
  shows "\<exists>b'. res_fold push xs b = Inr b' \<and> rel b' (fold spec_push xs s)"
  using assms
proof (induction xs arbitrary: b s)
  case (Cons x xs)
  from push_rel [OF Cons.prems(1), of x] Cons.prems(2)
  obtain b1 where "push x b = Inr b1" "rel b1 (spec_push x s)" by auto
  moreover have "length (sp_hist (spec_push x s)) + length xs < 2 ^ 64"
    using Cons.prems(2) spec_push_simps(3) [of x s] by (simp del: spec_push_simps(3))
  ultimately show ?case using Cons.IH [of b1 "spec_push x s"] by simp
qed simp

text \<open>The end mark of a snapshot is the number of samples it has seen.\<close>

lemma snapshot_end: "rel b s \<Longrightarrow> unat (snap_end (spec_snapshot s)) = length (sp_hist s)"
  using rel_bounds [of b s] by (simp add: spec_snapshot_def unat_of_nat)

end

interpretation ring: series_log SeriesBuffer_new SeriesBuffer_Push SeriesBuffer_GetSnapshot
  SeriesBuffer_AckSnapshot SeriesBuffer_Latest sb_rel
proof
  fix b s
  assume "sb_rel b s"
  then show "sp_gone s \<le> length (sp_hist s) \<and> length (sp_hist s) \<le> sp_gone s + sp_cap s \<and>
      length (sp_hist s) < 2 ^ 64"
    using unat64_bound [of "sb_head b"] by (simp add: sb_rel_def)
qed (simp_all add: SeriesBuffer_new_rel SeriesBuffer_Push_rel SeriesBuffer_GetSnapshot_rel
    SeriesBuffer_AckSnapshot_rel SeriesBuffer_Latest_rel)

section \<open>Runs of the ring buffer\<close>

definition run_rel :: "SeriesBuffer sb_run \<Rightarrow> series_spec sb_run \<Rightarrow> bool" where
  "run_rel st sst \<longleftrightarrow> sb_rel (fst st) (fst sst) \<and> snd st = snd sst \<and>
     (\<forall>p \<in> set (snd sst). unat (snap_end p) \<le> length (sp_hist (fst sst)))"

lemma sb_step_rel:
  assumes "run_rel st sst" "length (sp_hist (fst sst)) + length (pushes [op]) < 2 ^ 64"
  shows "\<exists>st'. sb_step op st = Inr st' \<and> run_rel st' (spec_step op sst)"
proof -
  obtain b s ps where st: "st = (b, ps)" "sst = (s, ps)" and rel: "sb_rel b s"
    and ends: "\<forall>p \<in> set ps. unat (snap_end p) \<le> length (sp_hist s)"
    using assms(1) by (cases st; cases sst) (auto simp: run_rel_def)
  show ?thesis
  proof (cases op)
    case (OpPush x)
    with assms(2) st have "length (sp_hist s) + 1 < 2 ^ 64" by simp
    from ring.push_rel [OF rel this] obtain b' where "SeriesBuffer_Push x b = Inr b'" "sb_rel b' (spec_push x s)"
      by blast
    moreover have "length (sp_hist s) \<le> length (sp_hist (spec_push x s))" by (simp add: spec_push_def)
    ultimately show ?thesis
      using OpPush st ends by (auto simp: sb_step_def spec_step_def run_rel_def intro: order_trans)
  next
    case OpSnapshot
    with ring.snapshot_rel [OF rel] ring.snapshot_end [OF rel] st ends rel show ?thesis
      by (simp add: sb_step_def spec_step_def run_rel_def)
  next
    case (OpAck n)
    with ring.ack_rel [OF rel] st ends rel show ?thesis
      by (auto simp: sb_step_def spec_step_def run_rel_def)
  qed
qed

lemma spec_step_hist: "length (sp_hist (fst (spec_step op sst))) \<le> length (sp_hist (fst sst)) + length (pushes [op])"
  by (cases sst; cases op) (simp_all add: spec_step_def)

lemma length_pushes_Cons: "length (pushes (op # ops)) = length (pushes [op]) + length (pushes ops)"
  by (cases op) simp_all

lemma sb_run_rel:
  assumes "run_rel st sst" "length (sp_hist (fst sst)) + length (pushes ops) < 2 ^ 64"
  shows "\<exists>st'. res_fold sb_step ops st = Inr st' \<and> run_rel st' (fold spec_step ops sst)"
  using assms
proof (induction ops arbitrary: st sst)
  case (Cons op ops)
  have "length (sp_hist (fst sst)) + length (pushes [op]) < 2 ^ 64"
    using Cons.prems(2) length_pushes_Cons [of op ops] by linarith
  from sb_step_rel [OF Cons.prems(1) this] obtain st1
    where st1: "sb_step op st = Inr st1" "run_rel st1 (spec_step op sst)" by blast
  have "length (sp_hist (fst (spec_step op sst))) + length (pushes ops) < 2 ^ 64"
    using Cons.prems(2) length_pushes_Cons [of op ops] spec_step_hist [of op sst] by linarith
  from Cons.IH [OF st1(2) this] st1(1) show ?case by simp
qed simp

text \<open>Closed forms of the specification.\<close>

lemma fold_spec_push_hist:
  "sp_cap s \<noteq> 0 \<Longrightarrow> sp_hist (fold spec_push xs s) = sp_hist s @ xs"
  by (induction xs arbitrary: s) simp_all

lemma fold_spec_push_gone:
  assumes "sp_cap s \<noteq> 0" "sp_gone s \<le> length (sp_hist s)" "length (sp_hist s) \<le> sp_gone s + sp_cap s"
  shows "sp_gone (fold spec_push xs s) = max (sp_gone s) (length (sp_hist s) + length xs - sp_cap s)"
  using assms
proof (induction xs arbitrary: s)
  case (Cons x xs)
  let ?s = "spec_push x s"
  have g: "sp_gone ?s = (if length (sp_hist s) - sp_gone s = sp_cap s then sp_gone s + 1 else sp_gone s)"
    using Cons.prems(1) by (simp add: spec_push_def spec_unsent_def)
  have "sp_gone (fold spec_push xs ?s) = max (sp_gone ?s) (length (sp_hist ?s) + length xs - sp_cap ?s)"
    using Cons.prems g by (intro Cons.IH) (auto split: if_splits)
  with Cons.prems g show ?case by (auto split: if_splits simp: max_def)
qed (auto simp: max_def)

lemma fold_spec_push_unsent:
  assumes "sp_cap s \<noteq> 0" "sp_gone s \<le> length (sp_hist s)" "length (sp_hist s) \<le> sp_gone s + sp_cap s"
  shows "spec_unsent (fold spec_push xs s)
    = drop (length (spec_unsent s @ xs) - sp_cap s) (spec_unsent s @ xs)"
proof -
  have "max (sp_gone s) (length (sp_hist s) + length xs - sp_cap s)
      = sp_gone s + (length (spec_unsent s @ xs) - sp_cap s)"
    using assms(2,3) by (auto simp: spec_unsent_def max_def)
  moreover have "spec_unsent s @ xs = drop (sp_gone s) (sp_hist s @ xs)"
    using assms(2) by (simp add: spec_unsent_def)
  moreover have "spec_unsent (fold spec_push xs s)
      = drop (max (sp_gone s) (length (sp_hist s) + length xs - sp_cap s)) (sp_hist s @ xs)"
    using assms by (simp add: spec_unsent_def fold_spec_push_hist fold_spec_push_gone)
  ultimately show ?thesis by (simp del: drop_append length_append add: add.commute)
qed

section \<open>Properties\<close>

text \<open>
  C1.  Whatever the collector and the streaming client do to one series, in whatever
  order (fewer than \<open>2 ^ 64\<close> pushes), no operation of the ring buffer fails, the snapshots it
  returns are exactly those of the unbounded-history specification, and so are the sample
  \<^verbatim>\<open>Latest()\<close> returns and the snapshot that would be taken next.
\<close>

theorem ring_buffer_refines_history:
  assumes "unat c \<le> vector_max_size" "length (pushes ops) < 2 ^ 64"
  shows "\<exists>b. sb_exec c ops = Inr (b, snd (fold spec_step ops (spec_init (unat c), []))) \<and>
     SeriesBuffer_Latest b = Inr (spec_latest (fst (fold spec_step ops (spec_init (unat c), [])))) \<and>
     SeriesBuffer_GetSnapshot b = Inr (spec_snapshot (fst (fold spec_step ops (spec_init (unat c), []))))"
proof -
  from ring.new_rel [OF assms(1)] obtain b0 where b0: "SeriesBuffer_new c = Inr b0" "sb_rel b0 (spec_init (unat c))"
    by blast
  have "run_rel (b0, []) (spec_init (unat c), [])" using b0(2) by (simp add: run_rel_def)
  from sb_run_rel [OF this, of ops] assms(2) obtain st
    where st: "res_fold sb_step ops (b0, []) = Inr st" "run_rel st (fold spec_step ops (spec_init (unat c), []))"
    by auto
  have "SeriesBuffer_Latest (fst st) = Inr (spec_latest (fst (fold spec_step ops (spec_init (unat c), []))))"
    "SeriesBuffer_GetSnapshot (fst st) = Inr (spec_snapshot (fst (fold spec_step ops (spec_init (unat c), []))))"
    using st(2) ring.latest_rel ring.snapshot_rel by (auto simp: run_rel_def)
  moreover have "sb_exec c ops = Inr (fst st, snd (fold spec_step ops (spec_init (unat c), [])))"
    using b0(1) st by (simp add: sb_exec_def run_rel_def prod_eq_iff)
  ultimately show ?thesis by blast
qed

theorem ring_buffer_refines_history_witness:
  "\<exists>b. sb_exec 2 [OpPush default_Sample, OpSnapshot, OpAck 0, OpPush default_Sample]
      = Inr (b, [\<lparr>snap_samples = [default_Sample], snap_end = 1\<rparr>])"
  using ring_buffer_refines_history
    [of 2 "[OpPush default_Sample, OpSnapshot, OpAck 0, OpPush default_Sample]"]
  by (auto simp: vector_max_size_def spec_step_def spec_snapshot_def spec_push_def spec_unsent_def
      spec_init_def spec_ack_def)

text \<open>
  Pushing samples into a fresh series and taking a snapshot returns the newest
  \<open>capacity\<close> of them, oldest first: the ring drops the oldest unsent sample when it is full,
  and nothing else.
\<close>

lemma snapshot_returns_newest:
  assumes "0 < unat c" "unat c \<le> vector_max_size" "length xs < 2 ^ 64"
  shows "\<exists>b p. res_bind (SeriesBuffer_new c) (res_fold SeriesBuffer_Push xs) = Inr b \<and>
     SeriesBuffer_GetSnapshot b = Inr p \<and> snap_samples p = drop (length xs - unat c) xs"
proof -
  from ring.new_rel [OF assms(2)] obtain b0 where b0: "SeriesBuffer_new c = Inr b0" "sb_rel b0 (spec_init (unat c))"
    by blast
  from ring.push_all_rel [OF b0(2), of xs] assms(3) obtain b
    where b: "res_fold SeriesBuffer_Push xs b0 = Inr b" "sb_rel b (fold spec_push xs (spec_init (unat c)))"
    by auto
  have "spec_unsent (fold spec_push xs (spec_init (unat c))) = drop (length xs - unat c) xs"
    using fold_spec_push_unsent [of "spec_init (unat c)" xs] assms(1)
    by (simp add: spec_unsent_def)
  with b0 b ring.snapshot_rel [OF b(2)] show ?thesis by (simp add: spec_snapshot_def)
qed

lemma snapshot_returns_newest_example:
  "\<exists>b p. res_bind (SeriesBuffer_new 1) (res_fold SeriesBuffer_Push [default_Sample, \<lparr>timestamp_ns = 7, sample_value = Fin 1\<rparr>]) = Inr b \<and>
     SeriesBuffer_GetSnapshot b = Inr p \<and> snap_samples p = [\<lparr>timestamp_ns = 7, sample_value = Fin 1\<rparr>]"
  using snapshot_returns_newest [of 1 "[default_Sample, \<lparr>timestamp_ns = 7, sample_value = Fin 1\<rparr>]"]
  by (simp add: vector_max_size_def)

text \<open>
  Acknowledging a snapshot forgets what it contained and nothing newer: samples
  pushed between the snapshot and its acknowledgement are all in the next snapshot (up to
  the capacity), and none of the acknowledged ones is.
\<close>

lemma acknowledged_snapshot_leaves_newer:
  assumes "sb_rel b s" "sp_cap s \<noteq> 0" "length (sp_hist s) + length xs < 2 ^ 64"
    "SeriesBuffer_GetSnapshot b = Inr p"
  shows "\<exists>b' p'. res_fold SeriesBuffer_Push xs b = Inr b' \<and>
     SeriesBuffer_GetSnapshot (SeriesBuffer_AckSnapshot p b') = Inr p' \<and>
     snap_samples p' = drop (length xs - sp_cap s) xs"
proof -
  from ring.push_all_rel [OF assms(1,3)] obtain b'
    where b': "res_fold SeriesBuffer_Push xs b = Inr b'" "sb_rel b' (fold spec_push xs s)" by blast
  have e: "unat (snap_end p) = length (sp_hist s)"
    using assms(4) ring.snapshot_rel [OF assms(1)] ring.snapshot_end [OF assms(1)] by simp
  let ?s = "spec_ack (unat (snap_end p)) (fold spec_push xs s)"
  have "sb_rel (SeriesBuffer_AckSnapshot p b') ?s"
    using b'(2) assms(2) by (intro ring.ack_rel) (simp_all add: e fold_spec_push_hist)
  from ring.snapshot_rel [OF this]
  have "SeriesBuffer_GetSnapshot (SeriesBuffer_AckSnapshot p b') = Inr (spec_snapshot ?s)" .
  moreover have "spec_unsent ?s = drop (length xs - sp_cap s) xs"
    using assms(2) ring.rel_bounds [OF assms(1)]
    by (auto simp: spec_unsent_def e fold_spec_push_hist fold_spec_push_gone max_def)
  ultimately show ?thesis using b'(1) by (simp add: spec_snapshot_def)
qed

lemma acknowledged_snapshot_leaves_newer_example:
  "\<exists>b' p'. res_fold SeriesBuffer_Push [\<lparr>timestamp_ns = 7, sample_value = Fin 1\<rparr>]
       \<lparr>sb_capacity = 2, sb_samples = [default_Sample, default_Sample], sb_head = 1, sb_tail = 0\<rparr> = Inr b' \<and>
     SeriesBuffer_GetSnapshot (SeriesBuffer_AckSnapshot \<lparr>snap_samples = [default_Sample], snap_end = 1\<rparr> b') = Inr p' \<and>
     snap_samples p' = [\<lparr>timestamp_ns = 7, sample_value = Fin 1\<rparr>]"
proof -
  let ?b = "\<lparr>sb_capacity = 2, sb_samples = [default_Sample, default_Sample], sb_head = 1, sb_tail = 0\<rparr>"
  let ?s = "\<lparr>sp_cap = 2, sp_hist = [default_Sample], sp_gone = 0\<rparr>"
  have rel: "sb_rel ?b ?s" by (simp add: sb_rel_def vector_max_size_def)
  have "SeriesBuffer_GetSnapshot ?b = Inr \<lparr>snap_samples = [default_Sample], snap_end = 1\<rparr>"
    using ring.snapshot_rel [OF rel] by (simp add: spec_snapshot_def spec_unsent_def)
  from acknowledged_snapshot_leaves_newer [OF rel _ _ this, of "[\<lparr>timestamp_ns = 7, sample_value = Fin 1\<rparr>]"]
  show ?thesis by simp
qed

text \<open>
  \<^verbatim>\<open>SetCapacity\<close> resets \<open>head\<close> and leaves \<open>tail\<close>: on a buffer from which samples were sent or
  dropped, the unsent count wraps around and the next \<^verbatim>\<open>GetSnapshot\<close> throws
  \<^verbatim>\<open>std::length_error\<close> from \<^verbatim>\<open>reserve\<close>.
\<close>

lemma SetCapacity_leaves_stale_tail:
  assumes "0 < unat (sb_tail b)" "unat (sb_tail b) < 2 ^ 63" "unat c \<le> vector_max_size"
  shows "\<exists>b'. SeriesBuffer_SetCapacity c b = Inr b' \<and>
     unat (SeriesBuffer_GetNextSnapshotSize b') = 2 ^ 64 - unat (sb_tail b) \<and>
     SeriesBuffer_GetSnapshot b' = Inl LengthError"
proof -
  have neg: "unat (- sb_tail b) = 2 ^ 64 - unat (sb_tail b)"
    using assms(1) unat_sub_if' [of 0 "sb_tail b"] by simp
  with assms(2) have "vector_max_size < unat (- sb_tail b)" by (simp add: vector_max_size_def)
  with neg assms(3) show ?thesis
    by (simp add: SeriesBuffer_SetCapacity_def vector_reserve_def SeriesBuffer_GetSnapshot_def
        SeriesBuffer_GetNextSnapshotSize_def)
qed

lemma SetCapacity_leaves_stale_tail_example:
  "\<exists>b'. SeriesBuffer_SetCapacity 4
        \<lparr>sb_capacity = 1, sb_samples = [default_Sample], sb_head = 1, sb_tail = 1\<rparr> = Inr b' \<and>
     SeriesBuffer_GetSnapshot b' = Inl LengthError"
  using SetCapacity_leaves_stale_tail
    [of "\<lparr>sb_capacity = 1, sb_samples = [default_Sample], sb_head = 1, sb_tail = 1\<rparr>" 4]
  by (auto simp: vector_max_size_def)

end
