(* ===== verification/Text_IO.thy ===== *)
theory Text_IO
  imports Prelude
begin

text \<open>
  The text facilities of the C and C++ standard libraries that the agent uses: decimal and
  hexadecimal output of integers, \<^verbatim>\<open>std::getline\<close>, formatted extraction (\<^verbatim>\<open>operator>>\<close>) of words
  and unsigned integers, \<^verbatim>\<open>sscanf\<close> with the directive \<^verbatim>\<open>%u\<close>, and the \<^verbatim>\<open>std::string\<close> searches.
  Characters are bytes, strings lists of bytes.
\<close>

section \<open>Characters\<close>

definition is_digit :: "char \<Rightarrow> bool" where
  "is_digit c = (48 \<le> (of_char c :: nat) \<and> (of_char c :: nat) \<le> 57)"

definition is_space :: "char \<Rightarrow> bool" where
  "is_space c = ((of_char c :: nat) = 32 \<or> 9 \<le> (of_char c :: nat) \<and> (of_char c :: nat) \<le> 13)"

definition digit_char :: "nat \<Rightarrow> char" where
  "digit_char n = char_of (48 + n)"

definition digit_val :: "char \<Rightarrow> nat" where
  "digit_val c = of_char c - 48"

definition hex_char :: "nat \<Rightarrow> char" where
  "hex_char n = char_of (if n < 10 then 48 + n else 87 + n)"

section \<open>Output of integers\<close>

fun show_nat :: "nat \<Rightarrow> string" where
  "show_nat n = (if n < 10 then [digit_char n] else show_nat (n div 10) @ [digit_char (n mod 10)])"

declare show_nat.simps [simp del]

definition show_int :: "int \<Rightarrow> string" where
  "show_int i = (if i < 0 then CHR ''-'' # show_nat (nat (- i)) else show_nat (nat i))"

text \<open>\<^verbatim>\<open>std::hex << std::setfill('0') << std::setw(w)\<close> of a number below \<open>16 ^ w\<close>; a larger
  number is not truncated.\<close>

fun hex_digits :: "nat \<Rightarrow> string" where
  "hex_digits n = (if n < 16 then [hex_char n] else hex_digits (n div 16) @ [hex_char (n mod 16)])"

declare hex_digits.simps [simp del]

definition show_hex :: "nat \<Rightarrow> nat \<Rightarrow> string" where
  "show_hex w n = replicate (w - length (hex_digits n)) CHR ''0'' @ hex_digits n"

section \<open>Lines\<close>

text \<open>The lines successive calls of \<^verbatim>\<open>std::getline\<close> deliver.\<close>

function getlines :: "string \<Rightarrow> string list" where
  "getlines s = (if s = [] then [] else
     takeWhile (\<lambda>c. c \<noteq> CHR 0x0A) s # getlines (drop 1 (dropWhile (\<lambda>c. c \<noteq> CHR 0x0A) s)))"
  by pat_completeness auto
termination
proof (relation "measure length")
  fix s :: string
  assume "s \<noteq> []"
  then have "length (drop 1 (dropWhile (\<lambda>c. c \<noteq> CHR 0x0A) s)) < length s"
    using length_dropWhile_le [of "\<lambda>c. c \<noteq> CHR 0x0A" s] by (cases s) (auto intro: le_less_trans)
  then show "(drop 1 (dropWhile (\<lambda>c. c \<noteq> CHR 0x0A) s), s) \<in> measure length" by simp
qed simp

declare getlines.simps [simp del]

section \<open>Formatted extraction\<close>

record istream =
  is_rest :: string
  is_fail :: bool

definition istream_of :: "string \<Rightarrow> istream" where
  "istream_of s = \<lparr>is_rest = s, is_fail = False\<rparr>"

text \<open>The largest decimal number at the front: its value, and what follows it.\<close>

definition scan_digits :: "string \<Rightarrow> (nat \<times> string) option" where
  "scan_digits s = (let ds = takeWhile is_digit s in
     if ds = [] then None
     else Some (foldl (\<lambda>n c. 10 * n + digit_val c) 0 ds, dropWhile is_digit s))"

text \<open>An optionally signed decimal number, as \<^verbatim>\<open>strtoull\<close> reads it: the sign, the magnitude and
  what follows.\<close>

definition scan_signed :: "string \<Rightarrow> (bool \<times> nat \<times> string) option" where
  "scan_signed s = (let neg = (take 1 s = ''-'');
       t = (if take 1 s = ''-'' \<or> take 1 s = ''+'' then drop 1 s else s)
     in map_option (\<lambda>(n, r). (neg, n, r)) (scan_digits t))"

text \<open>\<^verbatim>\<open>is >> str\<close>: when only white space is left the string keeps its old value.\<close>

definition read_string :: "string \<Rightarrow> istream \<Rightarrow> string \<times> istream" where
  "read_string old s =
     (if is_fail s then (old, s)
      else let r = dropWhile is_space (is_rest s) in
        if r = [] then (old, \<lparr>is_rest = [], is_fail = True\<rparr>)
        else (takeWhile (\<lambda>c. \<not> is_space c) r,
              \<lparr>is_rest = dropWhile (\<lambda>c. \<not> is_space c) r, is_fail = False\<rparr>))"

text \<open>\<^verbatim>\<open>is >> n\<close> for a \<^verbatim>\<open>uint64_t\<close>: the variable (\<open>None\<close> while it has never been written) keeps its value
  when the stream has failed or is at its end, becomes 0 when there is no number, and
  \<^verbatim>\<open>UINT64_MAX\<close> when the number is too large.\<close>

definition read_u64 :: "u64 option \<Rightarrow> istream \<Rightarrow> u64 option \<times> istream" where
  "read_u64 old s =
     (if is_fail s then (old, s)
      else let r = dropWhile is_space (is_rest s) in
        if r = [] then (old, \<lparr>is_rest = [], is_fail = True\<rparr>)
        else case scan_signed r of
          None \<Rightarrow> (Some 0, \<lparr>is_rest = r, is_fail = True\<rparr>)
        | Some (neg, n, rest) \<Rightarrow>
            if 2 ^ 64 \<le> n then (Some (- 1), \<lparr>is_rest = rest, is_fail = True\<rparr>)
            else (Some (if neg then - of_nat n else of_nat n), \<lparr>is_rest = rest, is_fail = False\<rparr>))"

text \<open>\<^verbatim>\<open>sscanf(s, "%u-%u", &from, &to) == 2\<close>.  A magnitude that does not fit \<^verbatim>\<open>unsigned int\<close> is taken
  modulo \<open>2 ^ 32\<close>, as \<^verbatim>\<open>strtoul\<close> followed by the store does on LP64 (with saturation at
  \<^verbatim>\<open>ULONG_MAX\<close>).\<close>

definition scan_u32 :: "string \<Rightarrow> (u32 \<times> string) option" where
  "scan_u32 s = map_option (\<lambda>(neg, n, rest).
       (if 2 ^ 64 \<le> n then - 1 else if neg then - of_nat n else of_nat n, rest))
     (scan_signed (dropWhile is_space s))"

definition sscanf_range :: "string \<Rightarrow> (u32 \<times> u32) option" where
  "sscanf_range s = (case scan_u32 s of
     None \<Rightarrow> None
   | Some (from, r) \<Rightarrow>
       if take 1 r = ''-'' then map_option (\<lambda>(to', _). (from, to')) (scan_u32 (drop 1 r)) else None)"

section \<open>Searches\<close>

definition starts_with :: "string \<Rightarrow> string \<Rightarrow> bool" where
  "starts_with s p = prefix p s"

definition ends_with :: "string \<Rightarrow> string \<Rightarrow> bool" where
  "ends_with s p = suffix p s"

text \<open>\<^verbatim>\<open>s.find(p)\<close>: the first position, \<open>None\<close> for \<^verbatim>\<open>npos\<close>.\<close>

fun str_find :: "string \<Rightarrow> string \<Rightarrow> nat option" where
  "str_find [] p = (if p = [] then Some 0 else None)"
| "str_find (c # s) p = (if prefix p (c # s) then Some 0 else map_option Suc (str_find s p))"

text \<open>\<^verbatim>\<open>s.substr(pos)\<close> throws \<^verbatim>\<open>std::out_of_range\<close> when \<open>pos\<close> is past the end.\<close>

definition substr_from :: "string \<Rightarrow> nat \<Rightarrow> string result" where
  "substr_from s pos = (if length s < pos then Inl OutOfRange else Inr (drop pos s))"

section \<open>Round trips\<close>

lemma of_char_digit [simp]: "n < 10 \<Longrightarrow> (of_char (digit_char n) :: nat) = 48 + n"
  by (simp add: digit_char_def)

lemma is_digit_digit_char [simp]: "n < 10 \<Longrightarrow> is_digit (digit_char n)"
  by (simp add: is_digit_def)

lemma digit_val_digit_char [simp]: "n < 10 \<Longrightarrow> digit_val (digit_char n) = n"
  by (simp add: digit_val_def)

lemma show_nat_digits: "\<forall>c \<in> set (show_nat n). is_digit c"
proof (induction n rule: show_nat.induct)
  case (1 n)
  then show ?case by (subst show_nat.simps) auto
qed

lemma show_nat_nonempty [simp]: "show_nat n \<noteq> []"
  by (subst show_nat.simps) simp

lemma show_nat_value: "foldl (\<lambda>k c. 10 * k + digit_val c) 0 (show_nat n) = n"
proof (induction n rule: show_nat.induct)
  case (1 n)
  then show ?case by (subst show_nat.simps) auto
qed

text \<open>A number that was printed is read back, whatever non-digit follows.\<close>

lemma scan_digits_show:
  assumes "rest = [] \<or> \<not> is_digit (hd rest)"
  shows "scan_digits (show_nat n @ rest) = Some (n, rest)"
proof -
  have "takeWhile is_digit (show_nat n @ rest) = show_nat n" "dropWhile is_digit (show_nat n @ rest) = rest"
    using assms show_nat_digits [of n] by (cases rest; simp add: takeWhile_append dropWhile_append)+
  then show ?thesis by (simp add: scan_digits_def show_nat_value)
qed

lemma show_nat_hd: "\<exists>c cs. show_nat n = c # cs \<and> is_digit c"
  using show_nat_digits [of n] by (cases "show_nat n") auto

lemma digit_not_sign: "is_digit c \<Longrightarrow> c \<noteq> CHR ''-'' \<and> c \<noteq> CHR ''+'' \<and> \<not> is_space c"
  by (auto simp: is_digit_def is_space_def)

lemma scan_signed_show:
  assumes "rest = [] \<or> \<not> is_digit (hd rest)"
  shows "scan_signed (show_nat n @ rest) = Some (False, n, rest)"
proof -
  obtain c cs where c: "show_nat n = c # cs" "is_digit c" using show_nat_hd by blast
  then show ?thesis
    using scan_digits_show [OF assms, of n] digit_not_sign [of c] by (simp add: scan_signed_def)
qed

lemma show_nat_no_space: "dropWhile is_space (show_nat n @ rest) = show_nat n @ rest"
  using show_nat_hd [of n] digit_not_sign by auto

lemma scan_u32_show:
  assumes "rest = [] \<or> \<not> is_digit (hd rest)" "n < 2 ^ 64"
  shows "scan_u32 (show_nat n @ rest) = Some (of_nat n, rest)"
  using assms by (simp add: scan_u32_def show_nat_no_space scan_signed_show)

lemma sscanf_range_show:
  assumes "a < 2 ^ 64" "b < 2 ^ 64"
  shows "sscanf_range (show_nat a @ ''-'' @ show_nat b) = Some (of_nat a, of_nat b)"
proof -
  have "scan_u32 (show_nat a @ ''-'' @ show_nat b) = Some (of_nat a, ''-'' @ show_nat b)"
    using assms(1) by (intro scan_u32_show) (simp_all add: is_digit_def)
  moreover have "scan_u32 (show_nat b) = Some (of_nat b, [])"
    using scan_u32_show [of "[]" b] assms(2) by simp
  ultimately show ?thesis by (simp add: sscanf_range_def)
qed

lemma read_u64_show:
  assumes "rest = [] \<or> \<not> is_digit (hd rest)" "n < 2 ^ 64" "\<forall>c \<in> set sp. is_space c"
  shows "read_u64 old \<lparr>is_rest = sp @ show_nat n @ rest, is_fail = False\<rparr>
    = (Some (of_nat n), \<lparr>is_rest = rest, is_fail = False\<rparr>)"
proof -
  have dw: "dropWhile is_space (sp @ show_nat n @ rest) = show_nat n @ rest"
    using assms(3) by (simp only: dropWhile_append2 show_nat_no_space)
  show ?thesis
    using assms(2) scan_signed_show [OF assms(1), of n]
    by (simp add: read_u64_def dw Let_def del: dropWhile_append dropWhile_eq_Nil_conv)
qed

lemma length_show_hex: "length (hex_digits n) \<le> w \<Longrightarrow> length (show_hex w n) = w"
  by (simp add: show_hex_def)

lemma length_hex_digits: "n < 16 ^ w \<Longrightarrow> 0 < w \<Longrightarrow> length (hex_digits n) \<le> w"
proof (induction n arbitrary: w rule: hex_digits.induct)
  case (1 n)
  show ?case
  proof (cases "n < 16")
    case True
    with "1.prems" show ?thesis by (subst hex_digits.simps) simp
  next
    case False
    with "1.prems" obtain v where v: "w = Suc v" "0 < v" by (cases w; cases "w - 1") auto
    then have "n div 16 < 16 ^ v" using "1.prems" by (simp add: less_mult_imp_div_less mult.commute)
    with "1.IH" [OF False, of v] v show ?thesis by (subst hex_digits.simps) (use False in simp)
  qed
qed

lemma getlines_line:
  assumes "CHR 0x0A \<notin> set line"
  shows "getlines (line @ [CHR 0x0A] @ rest) = line # getlines rest"
proof -
  have w: "\<And>x. x \<in> set line \<Longrightarrow> x \<noteq> CHR 0x0A" using assms by blast
  have "takeWhile (\<lambda>c. c \<noteq> CHR 0x0A) (line @ [CHR 0x0A] @ rest) = line"
    "dropWhile (\<lambda>c. c \<noteq> CHR 0x0A) (line @ [CHR 0x0A] @ rest) = [CHR 0x0A] @ rest"
    using w by (simp_all add: takeWhile_append2 dropWhile_append2)
  then show ?thesis by (subst getlines.simps) simp
qed

definition unlines :: "string list \<Rightarrow> string" where
  "unlines ls = concat (map (\<lambda>l. l @ [CHR 0x0A]) ls)"

lemma getlines_unlines:
  "\<forall>l \<in> set ls. CHR 0x0A \<notin> set l \<Longrightarrow> getlines (unlines ls @ rest) = ls @ getlines rest"
proof (induction ls)
  case (Cons l ls)
  then show ?case using getlines_line [of l "unlines ls @ rest"] by (simp add: unlines_def)
qed (simp add: unlines_def)

lemma str_find_hit: "str_find s p = Some i \<Longrightarrow> prefix p (drop i s)"
  by (induction s p arbitrary: i rule: str_find.induct) (auto split: if_splits)

lemma str_find_first:
  assumes "\<forall>x \<in> set a. x \<noteq> c"
  shows "str_find (a @ c # b) [c] = Some (length a)"
  using assms by (induction a) auto

end
