(* ===== verification/Agent_Config.thy ===== *)
theory Agent_Config
  imports Metric_Types Text_IO
begin

text \<open>
  \<^verbatim>\<open>struct Config\<close> of config/config.h: the settings of the agent and their defaults.  Durations
  are counts of milliseconds.  \<^verbatim>\<open>cpu_set_t\<close> is the set of CPU numbers in the mask; the glibc
  macro \<^verbatim>\<open>CPU_SET\<close> ignores a number that does not fit the mask.  What \<^verbatim>\<open>sysconf\<close> and
  \<^verbatim>\<open>sched_getaffinity\<close> return is an argument.
\<close>

definition CPU_SETSIZE :: nat where
  "CPU_SETSIZE = 1024"

type_synonym cpu_set = "nat set"

definition CPU_SET :: "nat \<Rightarrow> cpu_set \<Rightarrow> cpu_set" where
  "CPU_SET cpu s = (if cpu < CPU_SETSIZE then insert cpu s else s)"

record Config =
  collection_interval :: int
  core_affinity :: cpu_set
  server_address :: string
  server_port :: u16
  requestedMetrics :: "MetricType list"
  buffered_time_window :: int
  dump_dir :: string

definition kDefaultIntervalMs :: int where "kDefaultIntervalMs = 500"
definition kDefaultTimeWindowMs :: int where "kDefaultTimeWindowMs = 2000"
definition kDefaultServerAddress :: string where "kDefaultServerAddress = ''localhost''"
definition kDefaultDumpPath :: string where "kDefaultDumpPath = ''/var/lib/volta/dumps''"
definition kDefaultServerPort :: u16 where "kDefaultServerPort = 5000"

text \<open>The loop \<^verbatim>\<open>for (long i = 0; i < n_cpus; ++i)\<close> over the online CPUs, at most the size of the
  mask; \<open>sysconf\<close> reports an error as -1, and then no CPU is set.\<close>

definition kDefaultAffinity :: "int \<Rightarrow> cpu_set" where
  "kDefaultAffinity nprocessors_onln =
     fold CPU_SET [0..<nat (min nprocessors_onln (int CPU_SETSIZE))] {}"

definition default_Config :: "int \<Rightarrow> Config" where
  "default_Config nprocessors_onln =
     \<lparr>collection_interval = kDefaultIntervalMs,
      core_affinity = kDefaultAffinity nprocessors_onln,
      server_address = kDefaultServerAddress,
      server_port = kDefaultServerPort,
      requestedMetrics = [],
      buffered_time_window = kDefaultTimeWindowMs,
      dump_dir = kDefaultDumpPath\<rparr>"

text \<open>What \<^verbatim>\<open>PrintCurrentAffinity\<close> writes to standard output (nothing when \<open>sched_getaffinity\<close>
  fails).\<close>

definition PrintCurrentAffinity :: "cpu_set option \<Rightarrow> int \<Rightarrow> string" where
  "PrintCurrentAffinity affinity max_cpus = (case affinity of
     None \<Rightarrow> ''''
   | Some s \<Rightarrow> ''Current CPU affinity: '' @
       concat (map (\<lambda>i. show_nat i @ '' '') (filter (\<lambda>i. i \<in> s \<and> i < CPU_SETSIZE) [0..<nat max_cpus]))
       @ [CHR 0x0A])"

lemma fold_CPU_SET: "fold CPU_SET is s = s \<union> {i \<in> set is. i < CPU_SETSIZE}"
  by (induction "is" arbitrary: s) (auto simp: CPU_SET_def)

lemma kDefaultAffinity_eq: "kDefaultAffinity n = {i. int i < n \<and> i < CPU_SETSIZE}"
  by (auto simp: kDefaultAffinity_def fold_CPU_SET)

end
