(* ===== verification/Metrics_Buffer.thy ===== *)
theory Metrics_Buffer
  imports Series_Buffer Agent_Config "HOL-Library.Signed_Division"
begin

text \<open>
  \<^verbatim>\<open>class MetricsBuffer\<close> of buffer.h / buffer.cc: one ring buffer per series, found by a
  \<^verbatim>\<open>BufferKey\<close> made from the metric's type and device, in an \<^verbatim>\<open>unordered_map\<close> hashed with FNV-1a.

  The map is a partial function; the order in which \<^verbatim>\<open>unordered_map\<close> enumerates its entries is
  not specified, so \<^verbatim>\<open>LatestSamples\<close> takes it as an argument.  A series is created once and never
  replaced, so its key stands for the \<^verbatim>\<open>shared_ptr\<close> that \<^verbatim>\<open>GetBuffer\<close> hands out.  Every public
  operation holds the lock for its whole duration and is one atomic step.
\<close>

section \<open>Keys (buffer.h, buffer.cc)\<close>

record BufferKey =
  bk_metric_type :: i32
  bk_pci_domain :: u16
  bk_pci_bus :: u8
  bk_pci_device :: u8
  bk_pci_function :: u8
  bk_socket_index :: u8
  bk_core_index :: u16
  bk_ifindex :: u32
  bk_disk_major :: u32
  bk_disk_minor :: u32

definition default_BufferKey :: BufferKey where
  "default_BufferKey = \<lparr>bk_metric_type = 0, bk_pci_domain = 0, bk_pci_bus = 0, bk_pci_device = 0,
     bk_pci_function = 0, bk_socket_index = 0, bk_core_index = 0, bk_ifindex = 0,
     bk_disk_major = 0, bk_disk_minor = 0\<rparr>"

definition MakeBufferKey :: "Metric \<Rightarrow> BufferKey" where
  "MakeBufferKey metric =
     (let key = default_BufferKey\<lparr>bk_metric_type := MetricType_value (metric_type metric)\<rparr>
      in case devId metric of
           None \<Rightarrow> key
         | Some (Gpu dev) \<Rightarrow> key\<lparr>bk_pci_domain := ucast (pci_domain dev), bk_pci_bus := ucast (pci_bus dev),
             bk_pci_device := ucast (pci_device dev), bk_pci_function := ucast (pci_function dev)\<rparr>
         | Some (Cpu dev) \<Rightarrow> key\<lparr>bk_socket_index := ucast (socket_index dev),
             bk_core_index := ucast (core_index dev)\<rparr>
         | Some (Net dev) \<Rightarrow> key\<lparr>bk_ifindex := ifindex dev\<rparr>
         | Some (Disk dev) \<Rightarrow> key\<lparr>bk_disk_major := disk_major dev, bk_disk_minor := disk_minor dev\<rparr>)"

section \<open>The hash (buffer.cc)\<close>

definition kFnvOffset :: u64 where "kFnvOffset = 1469598103934665603"
definition kFnvPrime :: u64 where "kFnvPrime = 1099511628211"

text \<open>The bytes of an integer in memory, lowest address first, on a little-endian target.\<close>

definition le_bytes :: "nat \<Rightarrow> 'a::len word \<Rightarrow> u8 list" where
  "le_bytes n w = map (\<lambda>i. ucast (drop_bit (8 * i) w)) [0..<n]"

fun HashCombineBytes :: "u64 \<Rightarrow> u8 list \<Rightarrow> u64" where
  "HashCombineBytes hash [] = hash"
| "HashCombineBytes hash (b # bytes) = HashCombineBytes ((hash XOR ucast b) * kFnvPrime) bytes"

definition BufferKeyHash :: "BufferKey \<Rightarrow> size_t" where
  "BufferKeyHash key =
     (let hash = kFnvOffset;
          hash = HashCombineBytes hash (le_bytes 4 (bk_metric_type key));
          hash = HashCombineBytes hash (le_bytes 2 (bk_pci_domain key));
          hash = HashCombineBytes hash (le_bytes 1 (bk_pci_bus key));
          hash = HashCombineBytes hash (le_bytes 1 (bk_pci_device key));
          hash = HashCombineBytes hash (le_bytes 1 (bk_pci_function key));
          hash = HashCombineBytes hash (le_bytes 1 (bk_socket_index key));
          hash = HashCombineBytes hash (le_bytes 2 (bk_core_index key));
          hash = HashCombineBytes hash (le_bytes 4 (bk_ifindex key));
          hash = HashCombineBytes hash (le_bytes 4 (bk_disk_major key));
          hash = HashCombineBytes hash (le_bytes 4 (bk_disk_minor key))
      in hash)"

section \<open>The buffer (buffer.h, buffer.cc)\<close>

record MetricsBuffer =
  mb_capacity_per_series :: size_t
  mb_series :: "BufferKey \<rightharpoonup> SeriesBuffer"
  mb_keys :: "BufferKey list"

text \<open>The capacity is a quotient of two \<^verbatim>\<open>std::chrono::milliseconds\<close>: a signed integer division,
  converted to \<^verbatim>\<open>size_t\<close>.\<close>

definition MetricsBuffer_new :: "Config \<Rightarrow> MetricsBuffer result" where
  "MetricsBuffer_new cfg =
     (if collection_interval cfg = 0 then Inl DivideByZero
      else Inr \<lparr>mb_capacity_per_series =
                  of_int (buffered_time_window cfg sdiv collection_interval cfg),
                mb_series = Map.empty, mb_keys = []\<rparr>)"

text \<open>The loop over the map; its order does not matter to the result.\<close>

definition MetricsBuffer_SetCapacityPerSeries :: "size_t \<Rightarrow> MetricsBuffer \<Rightarrow> MetricsBuffer result" where
  "MetricsBuffer_SetCapacityPerSeries capacity mb =
     (if vector_max_size < unat capacity \<and> mb_series mb \<noteq> Map.empty then Inl LengthError
      else Inr (mb\<lparr>mb_capacity_per_series := capacity,
        mb_series := (\<lambda>key. case mb_series mb key of
           None \<Rightarrow> None
         | Some b \<Rightarrow> (case SeriesBuffer_SetCapacity capacity b of Inl _ \<Rightarrow> None | Inr b' \<Rightarrow> Some b'))\<rparr>))"

definition GetBuffer :: "BufferKey \<Rightarrow> MetricsBuffer \<Rightarrow> SeriesBuffer option" where
  "GetBuffer key mb = mb_series mb key"

definition AddSample :: "BufferKey \<Rightarrow> Sample \<Rightarrow> MetricsBuffer \<Rightarrow> MetricsBuffer result" where
  "AddSample key sample mb =
     res_bind (case mb_series mb key of
         Some b \<Rightarrow> Inr (b, mb_keys mb)
       | None \<Rightarrow> res_map (\<lambda>b. (b, mb_keys mb @ [key])) (SeriesBuffer_new (mb_capacity_per_series mb)))
       (\<lambda>(b, keys). res_map (\<lambda>b'. mb\<lparr>mb_series := (mb_series mb)(key \<mapsto> b'), mb_keys := keys\<rparr>)
         (SeriesBuffer_Push sample b))"

definition sample_of :: "Metric \<Rightarrow> Sample" where
  "sample_of metric = \<lparr>timestamp_ns = timestamp metric, sample_value = metric_value metric\<rparr>"

definition AddMetric :: "Metric \<Rightarrow> MetricsBuffer \<Rightarrow> MetricsBuffer result" where
  "AddMetric metric mb =
     (if metric_type metric = METRIC_TYPE_UNSPECIFIED then Inr mb
      else AddSample (MakeBufferKey metric) (sample_of metric) mb)"

definition AddMetrics :: "Metric list \<Rightarrow> MetricsBuffer \<Rightarrow> MetricsBuffer result" where
  "AddMetrics metrics mb = res_fold AddMetric metrics mb"

definition MetricsBuffer_Latest :: "BufferKey \<Rightarrow> MetricsBuffer \<Rightarrow> Sample option result" where
  "MetricsBuffer_Latest key mb = (case mb_series mb key of
     None \<Rightarrow> Inr None
   | Some b \<Rightarrow> SeriesBuffer_Latest b)"

text \<open>The loop over the map, in the order \<open>order\<close> in which it enumerates its keys.\<close>

fun LatestSamples :: "BufferKey list \<Rightarrow> MetricsBuffer \<Rightarrow> (BufferKey \<times> Sample) list result" where
  "LatestSamples [] mb = Inr []"
| "LatestSamples (key # order) mb = (case mb_series mb key of
     None \<Rightarrow> Inl NullDeref
   | Some series \<Rightarrow> res_bind (SeriesBuffer_Latest series) (\<lambda>latest.
       res_map (\<lambda>rest. case latest of None \<Rightarrow> rest | Some x \<Rightarrow> (key, x) # rest) (LatestSamples order mb)))"

definition GetAllKeys :: "MetricsBuffer \<Rightarrow> BufferKey list" where
  "GetAllKeys mb = mb_keys mb"

section \<open>Specification: a history per key\<close>

type_synonym mb_spec = "BufferKey \<rightharpoonup> series_spec"

definition spec_AddMetric :: "nat \<Rightarrow> Metric \<Rightarrow> mb_spec \<Rightarrow> mb_spec" where
  "spec_AddMetric cap m S =
     (if metric_type m = METRIC_TYPE_UNSPECIFIED then S
      else let s = (case S (MakeBufferKey m) of None \<Rightarrow> spec_init cap | Some s \<Rightarrow> s)
           in S(MakeBufferKey m \<mapsto> spec_push (sample_of m) s))"

text \<open>The samples a list of metrics contributes to one series.\<close>

definition samples_for :: "BufferKey \<Rightarrow> Metric list \<Rightarrow> Sample list" where
  "samples_for k ms = map sample_of
     (filter (\<lambda>m. metric_type m \<noteq> METRIC_TYPE_UNSPECIFIED \<and> MakeBufferKey m = k) ms)"

definition mb_rel :: "MetricsBuffer \<Rightarrow> mb_spec \<Rightarrow> bool" where
  "mb_rel mb S \<longleftrightarrow>
     (\<forall>k. rel_option sb_rel (mb_series mb k) (S k)) \<and>
     (\<forall>k s. S k = Some s \<longrightarrow> sp_cap s = unat (mb_capacity_per_series mb)) \<and>
     unat (mb_capacity_per_series mb) \<le> vector_max_size \<and>
     distinct (mb_keys mb) \<and> set (mb_keys mb) = dom S"

definition mb_size :: "mb_spec \<Rightarrow> BufferKey \<Rightarrow> nat" where
  "mb_size S k = (case S k of None \<Rightarrow> 0 | Some s \<Rightarrow> length (sp_hist s))"

lemma mb_relD:
  assumes "mb_rel mb S"
  shows "\<And>k. rel_option sb_rel (mb_series mb k) (S k)"
    "\<And>k s. S k = Some s \<Longrightarrow> sp_cap s = unat (mb_capacity_per_series mb)"
    "unat (mb_capacity_per_series mb) \<le> vector_max_size"
    "distinct (mb_keys mb)" "set (mb_keys mb) = dom S"
  using assms by (auto simp: mb_rel_def)

lemma mb_rel_series:
  assumes "mb_rel mb S" "S k = Some s"
  obtains b where "mb_series mb k = Some b" "sb_rel b s"
  using mb_relD(1) [OF assms(1), of k] assms(2) by (cases "mb_series mb k") auto

lemma mb_rel_none: "mb_rel mb S \<Longrightarrow> mb_series mb k = None \<longleftrightarrow> S k = None"
  using mb_relD(1) [of mb S k] by (cases "mb_series mb k"; cases "S k") auto

text \<open>Replacing or adding one series keeps the relation.\<close>

lemma mb_rel_upd:
  assumes rel: "mb_rel mb S" and b: "sb_rel b s" "sp_cap s = unat (mb_capacity_per_series mb)"
    and keys: "keys = (if S k = None then mb_keys mb @ [k] else mb_keys mb)"
  shows "mb_rel (mb\<lparr>mb_series := (mb_series mb)(k \<mapsto> b), mb_keys := keys\<rparr>) (S(k \<mapsto> s))"
  unfolding mb_rel_def
proof (intro conjI allI impI)
  note r = mb_relD [OF rel]
  show "rel_option sb_rel (mb_series (mb\<lparr>mb_series := (mb_series mb)(k \<mapsto> b), mb_keys := keys\<rparr>) k')
      ((S(k \<mapsto> s)) k')" for k'
    using r(1) [of k'] b by simp
  show "distinct (mb_keys (mb\<lparr>mb_series := (mb_series mb)(k \<mapsto> b), mb_keys := keys\<rparr>))"
    using r(4,5) keys by (auto simp: domIff)
  show "set (mb_keys (mb\<lparr>mb_series := (mb_series mb)(k \<mapsto> b), mb_keys := keys\<rparr>)) = dom (S(k \<mapsto> s))"
    using r(5) keys by (auto split: if_splits)
qed (use mb_relD [OF rel] b in \<open>simp_all split: if_splits\<close>)

definition series_at :: "nat \<Rightarrow> mb_spec \<Rightarrow> BufferKey \<Rightarrow> series_spec" where
  "series_at cap S k = (case S k of None \<Rightarrow> spec_init cap | Some s \<Rightarrow> s)"

lemma length_series_at [simp]: "length (sp_hist (series_at c S k)) = mb_size S k"
  by (simp add: series_at_def mb_size_def split: option.split)

lemma AddSample_rel:
  assumes rel: "mb_rel mb S" and room: "mb_size S k + 1 < 2 ^ 64"
  shows "\<exists>mb'. AddSample k x mb = Inr mb' \<and>
     mb_rel mb' (S(k \<mapsto> spec_push x (series_at (unat (mb_capacity_per_series mb)) S k))) \<and>
     mb_capacity_per_series mb' = mb_capacity_per_series mb"
proof -
  let ?c = "mb_capacity_per_series mb"
  let ?s = "series_at (unat ?c) S k"
  define keys where "keys = (if S k = None then mb_keys mb @ [k] else mb_keys mb)"
  obtain b where b: "(case mb_series mb k of Some b \<Rightarrow> Inr (b, mb_keys mb)
      | None \<Rightarrow> res_map (\<lambda>b. (b, mb_keys mb @ [k])) (SeriesBuffer_new ?c)) = Inr (b, keys)" "sb_rel b ?s"
  proof (cases "S k")
    case None
    with mb_rel_none [OF rel, of k] have "mb_series mb k = None" by simp
    moreover obtain b where "SeriesBuffer_new ?c = Inr b" "sb_rel b (spec_init (unat ?c))"
      using ring.new_rel [OF mb_relD(3) [OF rel]] by blast
    ultimately show ?thesis using None that [of b] by (simp add: keys_def series_at_def)
  next
    case (Some s)
    then obtain b where "mb_series mb k = Some b" "sb_rel b s" using mb_rel_series [OF rel] by blast
    with Some that [of b] show ?thesis by (simp add: keys_def series_at_def)
  qed
  from room have "length (sp_hist ?s) + 1 < 2 ^ 64" by simp
  from ring.push_rel [OF b(2) this, of x] obtain b'
    where b': "SeriesBuffer_Push x b = Inr b'" "sb_rel b' (spec_push x ?s)" by blast
  have "sp_cap (spec_push x ?s) = unat ?c"
    using mb_relD(2) [OF rel, of k] by (simp add: series_at_def split: option.split)
  from mb_rel_upd [OF rel b'(2) this keys_def]
  have "mb_rel (mb\<lparr>mb_series := (mb_series mb)(k \<mapsto> b'), mb_keys := keys\<rparr>) (S(k \<mapsto> spec_push x ?s))" .
  moreover have "AddSample k x mb = Inr (mb\<lparr>mb_series := (mb_series mb)(k \<mapsto> b'), mb_keys := keys\<rparr>)"
    unfolding AddSample_def b(1) by (simp add: b'(1))
  ultimately show ?thesis by simp
qed

lemma AddMetric_rel:
  assumes "mb_rel mb S" "mb_size S (MakeBufferKey m) + 1 < 2 ^ 64"
  shows "\<exists>mb'. AddMetric m mb = Inr mb' \<and>
     mb_rel mb' (spec_AddMetric (unat (mb_capacity_per_series mb)) m S) \<and>
     mb_capacity_per_series mb' = mb_capacity_per_series mb"
  using assms AddSample_rel [OF assms, of "sample_of m"]
  by (simp add: AddMetric_def spec_AddMetric_def series_at_def Let_def)

lemma samples_for_simps [simp]:
  "samples_for k [] = []"
  "samples_for k (m # ms) =
     (if metric_type m \<noteq> METRIC_TYPE_UNSPECIFIED \<and> MakeBufferKey m = k then [sample_of m] else [])
       @ samples_for k ms"
  by (simp_all add: samples_for_def)

lemma mb_size_spec_AddMetric: "mb_size (spec_AddMetric c m S) k \<le> mb_size S k + length (samples_for k [m])"
  by (auto simp: mb_size_def spec_AddMetric_def Let_def spec_push_def split: option.splits)

lemma AddMetrics_rel:
  assumes "mb_rel mb S" "\<And>k. mb_size S k + length ms < 2 ^ 64"
  shows "\<exists>mb'. AddMetrics ms mb = Inr mb' \<and>
     mb_rel mb' (fold (spec_AddMetric (unat (mb_capacity_per_series mb))) ms S) \<and>
     mb_capacity_per_series mb' = mb_capacity_per_series mb"
  using assms
proof (induction ms arbitrary: mb S)
  case (Cons m ms)
  have "mb_size S (MakeBufferKey m) + 1 < 2 ^ 64" using Cons.prems(2) [of "MakeBufferKey m"] by simp
  from AddMetric_rel [OF Cons.prems(1) this] obtain mb1 where mb1: "AddMetric m mb = Inr mb1"
    "mb_rel mb1 (spec_AddMetric (unat (mb_capacity_per_series mb)) m S)"
    "mb_capacity_per_series mb1 = mb_capacity_per_series mb" by blast
  have "mb_size (spec_AddMetric (unat (mb_capacity_per_series mb)) m S) k + length ms < 2 ^ 64" for k
    using Cons.prems(2) [of k] mb_size_spec_AddMetric [of "unat (mb_capacity_per_series mb)" m S k]
    by (auto split: if_splits)
  from Cons.IH [OF mb1(2) this] mb1 show ?case by (simp add: AddMetrics_def)
qed (simp add: AddMetrics_def)

text \<open>Per key the specification is a fold of pushes.\<close>

lemma fold_spec_AddMetric:
  "fold (spec_AddMetric c) ms S k =
     (if samples_for k ms = [] then S k
      else Some (fold spec_push (samples_for k ms) (case S k of None \<Rightarrow> spec_init c | Some s \<Rightarrow> s)))"
  by (induction ms arbitrary: S) (auto simp: spec_AddMetric_def Let_def split: option.splits)

section \<open>The hash\<close>

definition key_bytes :: "BufferKey \<Rightarrow> u8 list" where
  "key_bytes k = le_bytes 4 (bk_metric_type k) @ le_bytes 2 (bk_pci_domain k) @ le_bytes 1 (bk_pci_bus k) @
     le_bytes 1 (bk_pci_device k) @ le_bytes 1 (bk_pci_function k) @ le_bytes 1 (bk_socket_index k) @
     le_bytes 2 (bk_core_index k) @ le_bytes 4 (bk_ifindex k) @ le_bytes 4 (bk_disk_major k) @
     le_bytes 4 (bk_disk_minor k)"

lemma HashCombineBytes_append:
  "HashCombineBytes h (xs @ ys) = HashCombineBytes (HashCombineBytes h xs) ys"
  by (induction xs arbitrary: h) simp_all

lemma BufferKeyHash_bytes: "BufferKeyHash k = HashCombineBytes kFnvOffset (key_bytes k)"
  by (simp add: BufferKeyHash_def key_bytes_def HashCombineBytes_append)

text \<open>The prime is odd, so a step of the hash can be undone.\<close>

lemma kFnvPrime_inverse: "kFnvPrime * 14886173955864302971 = 1"
  by (simp add: kFnvPrime_def)

lemma fnv_step_inj:
  "(h XOR a) * kFnvPrime = (h' XOR a') * kFnvPrime \<longleftrightarrow> h XOR a = h' XOR (a' :: u64)"
proof
  assume "(h XOR a) * kFnvPrime = (h' XOR a') * kFnvPrime"
  then have "((h XOR a) * kFnvPrime) * 14886173955864302971 = ((h' XOR a') * kFnvPrime) * 14886173955864302971"
    by simp
  then show "h XOR a = h' XOR a'" by (simp only: mult.assoc kFnvPrime_inverse mult_1_right)
qed simp

lemma xor_cancel: "h XOR a = h' XOR a \<longleftrightarrow> h = (h' :: u64)" "h XOR a = h XOR a' \<longleftrightarrow> a = (a' :: u64)"
  by (auto simp: bit_eq_iff bit_xor_iff)

lemma HashCombineBytes_inj: "HashCombineBytes h xs = HashCombineBytes h' xs \<longleftrightarrow> h = h'"
  by (induction xs arbitrary: h h') (simp_all add: fnv_step_inj xor_cancel)

lemma HashCombineBytes_one_byte:
  assumes "a \<noteq> b"
  shows "HashCombineBytes h (xs @ a # ys) \<noteq> HashCombineBytes h (xs @ b # ys)"
proof -
  have "unat (ucast x :: u64) = unat x" for x :: u8
  proof -
    have "unat x < 2 ^ 8" using unsigned_less [of x] by simp
    then show ?thesis by (simp add: unsigned_ucast_eq take_bit_nat_eq_self)
  qed
  then have "(ucast a :: u64) \<noteq> ucast b" using assms by (metis word_unat_eq_iff)
  then show ?thesis
    by (simp add: HashCombineBytes_append HashCombineBytes_inj fnv_step_inj xor_cancel)
qed

section \<open>Keys\<close>

text \<open>The devices whose numbers fit the fields of a key.\<close>

fun dev_in_range :: "DeviceId \<Rightarrow> bool" where
  "dev_in_range (Gpu g) = (unat (pci_domain g) < 2 ^ 16 \<and> unat (pci_bus g) < 2 ^ 8 \<and>
     unat (pci_device g) < 2 ^ 8 \<and> unat (pci_function g) < 2 ^ 8)"
| "dev_in_range (Cpu c) = (unat (socket_index c) < 2 ^ 8 \<and> unat (core_index c) < 2 ^ 16)"
| "dev_in_range (Net n) = True"
| "dev_in_range (Disk d) = True"

fun same_kind :: "DeviceId \<Rightarrow> DeviceId \<Rightarrow> bool" where
  "same_kind (Gpu _) (Gpu _) = True"
| "same_kind (Cpu _) (Cpu _) = True"
| "same_kind (Net _) (Net _) = True"
| "same_kind (Disk _) (Disk _) = True"
| "same_kind _ _ = False"

text \<open>Narrowing a word that fits loses nothing.\<close>

lemma ucast_narrow:
  assumes "unat (w :: u32) < 2 ^ LENGTH('a)"
  shows "unat (ucast w :: 'a::len word) = unat w"
  using assms by (simp add: unsigned_ucast_eq take_bit_nat_eq_self)

lemma ucast16_eq: "unat (a :: u32) < 2 ^ 16 \<Longrightarrow> unat b < 2 ^ 16 \<Longrightarrow> (ucast a :: u16) = ucast b \<longleftrightarrow> a = b"
  using ucast_narrow [of a, where 'a = 16] ucast_narrow [of b, where 'a = 16]
  by (auto simp: word_unat_eq_iff)

lemma ucast8_eq: "unat (a :: u32) < 2 ^ 8 \<Longrightarrow> unat b < 2 ^ 8 \<Longrightarrow> (ucast a :: u8) = ucast b \<longleftrightarrow> a = b"
  using ucast_narrow [of a, where 'a = 8] ucast_narrow [of b, where 'a = 8]
  by (auto simp: word_unat_eq_iff)

lemma MakeBufferKey_type [simp]: "bk_metric_type (MakeBufferKey m) = MetricType_value (metric_type m)"
  by (simp add: MakeBufferKey_def Let_def split: option.split DeviceId.split)

text \<open>What one series holds after metrics were added to a fresh buffer.\<close>

lemma fresh_series:
  assumes "mb_rel mb (fold (spec_AddMetric c) ms Map.empty)" "0 < c"
  shows "(GetBuffer k mb = None) = (samples_for k ms = []) \<and>
    (\<forall>b. GetBuffer k mb = Some b \<longrightarrow> (\<exists>p. SeriesBuffer_GetSnapshot b = Inr p \<and> snap_samples p =
       drop (length (samples_for k ms) - c) (samples_for k ms)))"
proof (cases "samples_for k ms = []")
  case True
  with mb_rel_none [OF assms(1), of k] show ?thesis by (simp add: GetBuffer_def fold_spec_AddMetric)
next
  case False
  then obtain b where b: "mb_series mb k = Some b" "sb_rel b (fold spec_push (samples_for k ms) (spec_init c))"
    using mb_rel_series [OF assms(1), of k] by (auto simp: fold_spec_AddMetric)
  have "spec_unsent (fold spec_push (samples_for k ms) (spec_init c)) = drop (length (samples_for k ms) - c) (samples_for k ms)"
    using fold_spec_push_unsent [of "spec_init c" "samples_for k ms"] assms(2) by (simp add: spec_unsent_def)
  with False b ring.snapshot_rel [OF b(2)] show ?thesis by (simp add: GetBuffer_def spec_snapshot_def)
qed

lemma fresh_AddMetrics:
  assumes "MetricsBuffer_new cfg = Inr mb0" "unat (mb_capacity_per_series mb0) \<le> vector_max_size" "length ms < 2 ^ 64"
  obtains mb where "AddMetrics ms mb0 = Inr mb"
    "mb_rel mb (fold (spec_AddMetric (unat (mb_capacity_per_series mb0))) ms Map.empty)"
proof -
  have "mb_rel mb0 Map.empty" using assms(1,2) by (auto simp: MetricsBuffer_new_def mb_rel_def split: if_splits)
  from AddMetrics_rel [OF this, of ms] assms(3) that show ?thesis by (auto simp: mb_size_def)
qed

section \<open>Properties\<close>

text \<open>
  C26.  Adding metrics to a fresh buffer never fails, and sorts them into one series per
  key: a series exists for a key exactly when a metric with that key was added (metrics of
  unspecified type are dropped), its next snapshot is the newest \<open>capacity\<close> of that key's
  samples in the order they were added, and \<^verbatim>\<open>GetAllKeys\<close> lists every such key once.
\<close>

theorem AddMetrics_sorts_by_key:
  assumes "MetricsBuffer_new cfg = Inr mb0" "0 < unat (mb_capacity_per_series mb0)"
    "unat (mb_capacity_per_series mb0) \<le> vector_max_size" "length ms < 2 ^ 64"
  shows "\<exists>mb. AddMetrics ms mb0 = Inr mb \<and> distinct (GetAllKeys mb) \<and>
     (\<forall>k. (k \<in> set (GetAllKeys mb)) = (samples_for k ms \<noteq> []) \<and>
          (GetBuffer k mb = None) = (samples_for k ms = []) \<and>
          (\<forall>b. GetBuffer k mb = Some b \<longrightarrow> (\<exists>p. SeriesBuffer_GetSnapshot b = Inr p \<and> snap_samples p =
             drop (length (samples_for k ms) - unat (mb_capacity_per_series mb0)) (samples_for k ms))))"
proof -
  let ?c = "unat (mb_capacity_per_series mb0)"
  from fresh_AddMetrics [OF assms(1,3,4)] obtain mb where mb: "AddMetrics ms mb0 = Inr mb"
    "mb_rel mb (fold (spec_AddMetric ?c) ms Map.empty)" .
  have "k \<in> set (GetAllKeys mb) \<longleftrightarrow> samples_for k ms \<noteq> []" for k
    using mb_relD(5) [OF mb(2)] by (auto simp: GetAllKeys_def domIff fold_spec_AddMetric)
  with fresh_series [OF mb(2) assms(2)] mb(1) mb_relD(4) [OF mb(2)] show ?thesis by (auto simp: GetAllKeys_def)
qed

definition example_config :: Config where
  "example_config = default_Config 4"

definition gpu_metric :: "u32 \<Rightarrow> Metric" where
  "gpu_metric d = \<lparr>metric_type = METRIC_TYPE_GPU_POWER,
     devId = Some (Gpu \<lparr>pci_domain = d, pci_bus = 1, pci_device = 0, pci_function = 0\<rparr>),
     metric_value = Fin 42, timestamp = 1\<rparr>"

theorem AddMetrics_sorts_by_key_witness:
  "\<exists>mb0 mb b. MetricsBuffer_new example_config = Inr mb0 \<and> AddMetrics [gpu_metric 0] mb0 = Inr mb \<and>
     GetBuffer (MakeBufferKey (gpu_metric 0)) mb = Some b"
proof -
  obtain mb0 where mb0: "MetricsBuffer_new example_config = Inr mb0" "mb_capacity_per_series mb0 = 4"
    by (simp add: MetricsBuffer_new_def example_config_def default_Config_def kDefaultIntervalMs_def
        kDefaultTimeWindowMs_def signed_divide_int_def)
  let ?k = "MakeBufferKey (gpu_metric 0)"
  have "0 < unat (mb_capacity_per_series mb0)" "unat (mb_capacity_per_series mb0) \<le> vector_max_size"
    "length [gpu_metric 0] < 2 ^ 64" by (simp_all add: mb0(2) vector_max_size_def)
  from AddMetrics_sorts_by_key [OF mb0(1) this] obtain mb where mb: "AddMetrics [gpu_metric 0] mb0 = Inr mb"
    "(GetBuffer ?k mb = None) = (samples_for ?k [gpu_metric 0] = [])"
    by blast
  moreover have "samples_for ?k [gpu_metric 0] \<noteq> []" by (simp add: gpu_metric_def)
  ultimately show ?thesis using mb0(1) by auto
qed

text \<open>
  Two metrics whose devices are of the same kind and have numbers that fit the key
  get the same key only when they have the same type and the same device.
\<close>

lemma MakeBufferKey_separates_devices:
  assumes "devId m = Some d" "devId m' = Some d'" "same_kind d d'" "dev_in_range d" "dev_in_range d'"
  shows "MakeBufferKey m = MakeBufferKey m' \<longleftrightarrow> metric_type m = metric_type m' \<and> d = d'"
  using assms
  by (cases d; cases d')
    (auto simp: MakeBufferKey_def default_BufferKey_def MetricType_value_inj ucast16_eq ucast8_eq)

lemma MakeBufferKey_separates_devices_example:
  "MakeBufferKey (gpu_metric 0) \<noteq> MakeBufferKey (gpu_metric 1)"
  using MakeBufferKey_separates_devices [of "gpu_metric 0" _ "gpu_metric 1"] by (simp add: gpu_metric_def)

text \<open>
  The numbers are narrowed, so devices that agree modulo the width of the key's field
  share a series: two GPUs whose PCI domains differ by a multiple of \<open>2 ^ 16\<close> (the domain of
  NVML and of the protocol has 32 bits) get the same key.
\<close>

lemma MakeBufferKey_confuses_wide_domains:
  "MakeBufferKey (gpu_metric d) = MakeBufferKey (gpu_metric (d + 2 ^ 16 * n))"
proof -
  have "65536 * uint n mod (65536 * 65536) = 65536 * (uint n mod 65536)" by (simp only: mult_mod_right)
  then have "(ucast (d + 2 ^ 16 * n) :: u16) = ucast d"
    by (intro word_uint_eqI) (simp add: unsigned_ucast_eq take_bit_eq_mod uint_word_ariths mod_mod_cancel)
  then show ?thesis by (simp add: MakeBufferKey_def gpu_metric_def)
qed

text \<open>
  Keys whose bytes differ in exactly one place never collide in the hash: each step
  of the FNV loop can be undone, so a difference introduced once cannot disappear.
\<close>

lemma BufferKeyHash_one_byte:
  assumes "i < length (key_bytes k)" "key_bytes k' = (key_bytes k)[i := b]" "b \<noteq> key_bytes k ! i"
  shows "BufferKeyHash k \<noteq> BufferKeyHash k'"
proof -
  have "key_bytes k = take i (key_bytes k) @ key_bytes k ! i # drop (Suc i) (key_bytes k)"
    using assms(1) by (rule id_take_nth_drop)
  moreover have "key_bytes k' = take i (key_bytes k) @ b # drop (Suc i) (key_bytes k)"
    unfolding assms(2) using assms(1) by (rule upd_conv_take_nth_drop)
  ultimately show ?thesis
    unfolding BufferKeyHash_bytes using HashCombineBytes_one_byte [OF assms(3) [symmetric]] by metis
qed

lemma BufferKeyHash_one_byte_example:
  "BufferKeyHash default_BufferKey \<noteq> BufferKeyHash (default_BufferKey\<lparr>bk_pci_bus := 5\<rparr>)"
  using BufferKeyHash_one_byte [of 6 default_BufferKey "default_BufferKey\<lparr>bk_pci_bus := 5\<rparr>" 5]
  by (simp add: key_bytes_def le_bytes_def default_BufferKey_def upt_rec)

end
