(* ===== verification/Writer.thy ===== *)
theory Writer
  imports Prelude
begin

text \<open>
  The writing discipline both gRPC reactors of the agent follow (client/iwriter.h): messages
  wait in a queue, at most one write is outstanding (\<open>writing_\<close>), and the message handed to
  \<^verbatim>\<open>StartWrite\<close> stays at the head of the queue until \<^verbatim>\<open>OnWriteDone\<close> pops it.

  The locale \<open>message_writer\<close> is the contract of the three operations involved; its lemmas show
  once, for both reactors, that the messages started are a prefix of the messages enqueued:
  nothing is lost, duplicated or reordered.  \<^verbatim>\<open>StartWrite\<close> belongs to gRPC; what the model keeps
  of it is the list of messages it was called with.
\<close>

text \<open>The state a writer keeps: after \<open>d\<close> completed writes, the accepted messages are \<open>d\<close> and the
  queue, and the started ones are \<open>d\<close> and, while a write is outstanding, the head of the queue.\<close>

definition fifo_inv :: "'m list \<Rightarrow> 'm list \<Rightarrow> bool \<Rightarrow> 'm list \<Rightarrow> bool" where
  "fifo_inv accepted queue busy started \<longleftrightarrow>
     (\<exists>d. accepted = d @ queue \<and> started = d @ (if busy then [hd queue] else []) \<and> (busy \<longrightarrow> queue \<noteq> []))"

text \<open>client/ireaderwriter.h: the reader side keeps messages by key.\<close>

definition GetMessage :: "'k \<Rightarrow> ('k \<rightharpoonup> 'v) \<Rightarrow> 'v option" where
  "GetMessage key readermap = readermap key"

lemma fifo_inv_empty: "fifo_inv [] [] False []"
  by (simp add: fifo_inv_def)

lemma fifo_inv_prefix:
  assumes "fifo_inv accepted queue busy started"
  shows "prefix started accepted" "length accepted \<le> length started + length queue"
proof -
  obtain d where d: "accepted = d @ queue" "started = d @ (if busy then [hd queue] else [])" "busy \<longrightarrow> queue \<noteq> []"
    using assms by (auto simp: fifo_inv_def)
  then show "prefix started accepted" by (cases queue) auto
  from d show "length accepted \<le> length started + length queue" by simp
qed

locale message_writer =
  fixes queue :: "'s \<Rightarrow> 'm list" and busy :: "'s \<Rightarrow> bool" and started :: "'s \<Rightarrow> 'm list"
    and push :: "'m \<Rightarrow> 's \<Rightarrow> 's" and start :: "'s \<Rightarrow> 's" and pop :: "'s \<Rightarrow> 's result"
  assumes push_queue: "queue (push m s) = queue s @ [m]"
    and push_busy: "busy (push m s) = busy s" and push_started: "started (push m s) = started s"
    and start_skip: "busy s \<or> queue s = [] \<Longrightarrow> start s = s"
    and start_queue: "queue (start s) = queue s"
    and start_busy: "\<not> busy s \<Longrightarrow> queue s \<noteq> [] \<Longrightarrow> busy (start s)"
    and start_started: "\<not> busy s \<Longrightarrow> queue s \<noteq> [] \<Longrightarrow> started (start s) = started s @ [hd (queue s)]"
    and pop_ok: "queue s \<noteq> [] \<Longrightarrow>
      \<exists>s'. pop s = Inr s' \<and> queue s' = tl (queue s) \<and> \<not> busy s' \<and> started s' = started s"
begin

lemma fifo_push: "fifo_inv acc (queue s) (busy s) (started s) \<Longrightarrow>
    fifo_inv (acc @ [m]) (queue (push m s)) (busy (push m s)) (started (push m s))"
  by (auto simp: fifo_inv_def push_queue push_busy push_started)

lemma fifo_start: "fifo_inv acc (queue s) (busy s) (started s) \<Longrightarrow>
    fifo_inv acc (queue (start s)) (busy (start s)) (started (start s))"
  by (cases "busy s \<or> queue s = []")
    (auto simp: fifo_inv_def start_skip start_queue start_busy start_started)

text \<open>A completed write: the queue is not empty, so the pop is defined.\<close>

lemma fifo_pop:
  assumes "fifo_inv acc (queue s) (busy s) (started s)" "busy s"
  shows "\<exists>s'. pop s = Inr s' \<and> \<not> busy s' \<and> fifo_inv acc (queue s') (busy s') (started s')"
proof -
  obtain d where d: "acc = d @ queue s" "started s = d @ [hd (queue s)]" "queue s \<noteq> []"
    using assms by (auto simp: fifo_inv_def)
  from pop_ok [OF d(3)] obtain s' where s': "pop s = Inr s'" "queue s' = tl (queue s)" "\<not> busy s'" "started s' = started s"
    by blast
  moreover have "fifo_inv acc (queue s') (busy s') (started s')"
    unfolding fifo_inv_def using d s' by (intro exI [of _ "d @ [hd (queue s)]"]) (simp add: append_assoc)
  ultimately show ?thesis by blast
qed

lemma start_progress: "queue s \<noteq> [] \<Longrightarrow> busy (start s)"
  by (cases "busy s") (simp_all add: start_skip start_busy)

end

end
