(* ===== verification/Stream_Reactor.thy ===== *)
theory Stream_Reactor
  imports Metrics_Buffer Writer
begin

text \<open>
  \<^verbatim>\<open>class StreamMetricsReactor\<close> (client/stream_metrics_reactor.h / .cc): a polling thread turns the
  unsent samples of every series into one batch each, the gRPC callbacks write the batches
  and acknowledge them.

  The operations are functions on the reactor's state and the shared \<^verbatim>\<open>MetricsBuffer\<close>.  The
  polling thread, the gRPC callbacks and the collector thread run concurrently: \<open>stream_step\<close>
  interleaves them, one locked region (or one access to an atomic) per step, with the place of
  the polling thread as an explicit program counter.  gRPC's promise that \<^verbatim>\<open>OnWriteDone\<close> follows
  a \<^verbatim>\<open>StartWrite\<close> is a guard; acknowledgements may arrive at any time with any batch id.
\<close>

section \<open>State\<close>

datatype poll_pc =
    PollTop                                        \<comment> \<open>at the head of the loop\<close>
  | PollKeys                                       \<comment> \<open>nothing pending: about to call \<open>GetAllKeys\<close>\<close>
  | Enqueue "BufferKey list"                       \<comment> \<open>keys still to visit\<close>
  | Register BufferKey Snapshot "BufferKey list"   \<comment> \<open>has a snapshot, not yet in \<open>pending_snapshots_\<close>\<close>
  | PushBatch MetricBatch "BufferKey list"         \<comment> \<open>registered, not yet in the write queue\<close>
  | AfterEnqueue                                   \<comment> \<open>all keys visited\<close>
  | CallWrite                                      \<comment> \<open>something is pending: about to call \<open>Write\<close>\<close>

record StreamMetricsReactor =
  sr_pending :: "u64 \<rightharpoonup> BufferKey \<times> Snapshot"
  sr_writerqu :: "MetricBatch list"
  sr_writing :: bool
  sr_started :: "MetricBatch list"
  sr_counter :: u64
  sr_poll :: poll_pc
  sr_done_writes :: nat  \<comment> \<open>\<open>OnWriteDone\<close> callbacks that have popped and not yet called \<open>Write\<close>\<close>

definition StreamMetricsReactor_new :: StreamMetricsReactor where
  "StreamMetricsReactor_new = \<lparr>sr_pending = Map.empty, sr_writerqu = [], sr_writing = False,
     sr_started = [], sr_counter = 0, sr_poll = PollTop, sr_done_writes = 0\<rparr>"

section \<open>Operations\<close>

definition type_between :: "int \<Rightarrow> int \<Rightarrow> BufferKey \<Rightarrow> bool" where
  "type_between lo hi key = (lo \<le> sint (bk_metric_type key) \<and> sint (bk_metric_type key) < hi)"

definition device_of_key :: "BufferKey \<Rightarrow> DeviceID" where
  "device_of_key key =
     (if type_between 100 200 key then
        Some (Cpu \<lparr>socket_index = ucast (bk_socket_index key), core_index = ucast (bk_core_index key)\<rparr>)
      else if type_between 200 300 key then
        Some (Gpu \<lparr>pci_domain = ucast (bk_pci_domain key), pci_bus = ucast (bk_pci_bus key),
                   pci_device = ucast (bk_pci_device key), pci_function = ucast (bk_pci_function key)\<rparr>)
      else if type_between 400 500 key then
        Some (Disk \<lparr>disk_major = bk_disk_major key, disk_minor = bk_disk_minor key\<rparr>)
      else if type_between 500 600 key then
        Some (Net \<lparr>ifindex = bk_ifindex key\<rparr>)
      else None)"

text \<open>\<^verbatim>\<open>add_timestamps_ns\<close> takes a \<^verbatim>\<open>uint64\<close>: the \<^verbatim>\<open>int64_t\<close> is reinterpreted.\<close>

definition make_batch :: "u64 \<Rightarrow> BufferKey \<Rightarrow> Snapshot \<Rightarrow> MetricBatch" where
  "make_batch n key snapshot =
     \<lparr>batch_id = n,
      batch_header = \<lparr>header_metric_type = bk_metric_type key, header_device_id = Some (device_of_key key)\<rparr>,
      batch_timestamps_ns = map timestamp_ns (snap_samples snapshot),
      batch_values = map sample_value (snap_samples snapshot)\<rparr>"

definition take_snapshot :: "BufferKey \<Rightarrow> MetricsBuffer \<Rightarrow> Snapshot result" where
  "take_snapshot key mb = (case GetBuffer key mb of
     None \<Rightarrow> Inl NullDeref
   | Some b \<Rightarrow> SeriesBuffer_GetSnapshot b)"

text \<open>\<^verbatim>\<open>fetch_add\<close> on the counter, and \<^verbatim>\<open>pending_snapshots_.emplace\<close>, which keeps an existing
  entry.\<close>

definition register_batch :: "BufferKey \<Rightarrow> Snapshot \<Rightarrow> StreamMetricsReactor \<Rightarrow> StreamMetricsReactor" where
  "register_batch key snapshot sr =
     sr\<lparr>sr_counter := sr_counter sr + 1,
        sr_pending := (if sr_pending sr (sr_counter sr) = None
                       then (sr_pending sr)(sr_counter sr \<mapsto> (key, snapshot)) else sr_pending sr)\<rparr>"

definition push_batch :: "MetricBatch \<Rightarrow> StreamMetricsReactor \<Rightarrow> StreamMetricsReactor" where
  "push_batch b sr = sr\<lparr>sr_writerqu := sr_writerqu sr @ [b]\<rparr>"

text \<open>\<^verbatim>\<open>EnqueueMetrics(key)\<close> and \<^verbatim>\<open>EnqueueMetrics()\<close> when no other thread runs in between.\<close>

definition EnqueueMetrics_key :: "MetricsBuffer \<Rightarrow> BufferKey \<Rightarrow> StreamMetricsReactor \<Rightarrow> StreamMetricsReactor result" where
  "EnqueueMetrics_key mb key sr =
     res_bind (take_snapshot key mb) (\<lambda>snapshot.
       if snap_samples snapshot = [] then Inr sr
       else Inr (push_batch (make_batch (sr_counter sr) key snapshot) (register_batch key snapshot sr)))"

definition EnqueueMetrics :: "MetricsBuffer \<Rightarrow> StreamMetricsReactor \<Rightarrow> StreamMetricsReactor result" where
  "EnqueueMetrics mb sr = res_fold (EnqueueMetrics_key mb) (GetAllKeys mb) sr"

definition StreamMetricsReactor_Write :: "StreamMetricsReactor \<Rightarrow> StreamMetricsReactor" where
  "StreamMetricsReactor_Write sr =
     (if sr_writing sr \<or> sr_writerqu sr = [] then sr
      else sr\<lparr>sr_writing := True, sr_started := sr_started sr @ [hd (sr_writerqu sr)]\<rparr>)"

text \<open>The locked region of \<^verbatim>\<open>OnWriteDone(true)\<close>; \<^verbatim>\<open>pop\<close> of an empty queue is undefined.\<close>

definition pop_written :: "StreamMetricsReactor \<Rightarrow> StreamMetricsReactor result" where
  "pop_written sr = (case sr_writerqu sr of
     [] \<Rightarrow> Inl OutOfBounds
   | _ # q \<Rightarrow> Inr (sr\<lparr>sr_writerqu := q, sr_writing := False\<rparr>))"

definition StreamMetricsReactor_OnWriteDone :: "bool \<Rightarrow> StreamMetricsReactor \<Rightarrow> StreamMetricsReactor result" where
  "StreamMetricsReactor_OnWriteDone ok sr =
     (if \<not> ok then Inr sr else res_map StreamMetricsReactor_Write (pop_written sr))"

text \<open>\<^verbatim>\<open>OnReadDone\<close>: the new buffer and reactor, and whether the reactor reads on.\<close>

definition StreamMetricsReactor_OnReadDone ::
  "bool \<Rightarrow> BatchAck \<Rightarrow> MetricsBuffer \<times> StreamMetricsReactor \<Rightarrow> ((MetricsBuffer \<times> StreamMetricsReactor) \<times> bool) result" where
  "StreamMetricsReactor_OnReadDone ok ack st = (let (mb, sr) = st in
     if \<not> ok then Inr (st, False)
     else case sr_pending sr (ack_batch_id ack) of
       None \<Rightarrow> Inr (st, True)
     | Some (key, snapshot) \<Rightarrow>
         (case GetBuffer key mb of
            None \<Rightarrow> Inl NullDeref
          | Some b \<Rightarrow> Inr ((mb\<lparr>mb_series := (mb_series mb)(key \<mapsto> SeriesBuffer_AckSnapshot snapshot b)\<rparr>,
                            sr\<lparr>sr_pending := (sr_pending sr)(ack_batch_id ack := None)\<rparr>), True)))"

text \<open>One locked region of the polling thread.\<close>

definition poll_step :: "MetricsBuffer \<Rightarrow> StreamMetricsReactor \<Rightarrow> StreamMetricsReactor result" where
  "poll_step mb sr = (case sr_poll sr of
     PollTop \<Rightarrow> Inr (if sr_pending sr = Map.empty then sr\<lparr>sr_poll := PollKeys\<rparr> else sr)
   | PollKeys \<Rightarrow> Inr (sr\<lparr>sr_poll := Enqueue (GetAllKeys mb)\<rparr>)
   | Enqueue [] \<Rightarrow> Inr (sr\<lparr>sr_poll := AfterEnqueue\<rparr>)
   | Enqueue (key # keys) \<Rightarrow> res_map (\<lambda>snapshot. sr\<lparr>sr_poll :=
         if snap_samples snapshot = [] then Enqueue keys else Register key snapshot keys\<rparr>) (take_snapshot key mb)
   | Register key snapshot keys \<Rightarrow>
       Inr ((register_batch key snapshot sr)\<lparr>sr_poll := PushBatch (make_batch (sr_counter sr) key snapshot) keys\<rparr>)
   | PushBatch b keys \<Rightarrow> Inr ((push_batch b sr)\<lparr>sr_poll := Enqueue keys\<rparr>)
   | AfterEnqueue \<Rightarrow> Inr (sr\<lparr>sr_poll := if sr_pending sr = Map.empty then PollTop else CallWrite\<rparr>)
   | CallWrite \<Rightarrow> Inr ((StreamMetricsReactor_Write sr)\<lparr>sr_poll := PollTop\<rparr>))"

section \<open>The interleaved system\<close>

text \<open>
  Beside the two objects the system keeps what an observer has seen: the metrics collected,
  the batches registered (id, key, snapshot), in order, and the ids whose acknowledgement was
  matched.
\<close>

record stream_sys =
  ss_mb :: MetricsBuffer
  ss_sr :: StreamMetricsReactor
  ss_metrics :: "Metric list"
  ss_log :: "(u64 \<times> BufferKey \<times> Snapshot) list"
  ss_acked :: "u64 set"

definition stream_init :: "MetricsBuffer \<Rightarrow> stream_sys" where
  "stream_init mb = \<lparr>ss_mb = mb, ss_sr = StreamMetricsReactor_new, ss_metrics = [], ss_log = [], ss_acked = {}\<rparr>"

inductive stream_step :: "stream_sys \<Rightarrow> stream_sys \<Rightarrow> bool" where
  collect: "AddMetrics ms (ss_mb s) = Inr mb' \<Longrightarrow>
    stream_step s (s\<lparr>ss_mb := mb', ss_metrics := ss_metrics s @ ms\<rparr>)"
| poll: "poll_step (ss_mb s) (ss_sr s) = Inr sr' \<Longrightarrow>
    stream_step s (s\<lparr>ss_sr := sr', ss_log := ss_log s @ (case sr_poll (ss_sr s) of
      Register key snapshot keys \<Rightarrow> [(sr_counter (ss_sr s), key, snapshot)] | _ \<Rightarrow> [])\<rparr>)"
| write_done: "sr_writing (ss_sr s) \<Longrightarrow> pop_written (ss_sr s) = Inr sr' \<Longrightarrow>
    stream_step s (s\<lparr>ss_sr := sr'\<lparr>sr_done_writes := Suc (sr_done_writes sr')\<rparr>\<rparr>)"
| write_next: "sr_done_writes (ss_sr s) = Suc n \<Longrightarrow>
    stream_step s (s\<lparr>ss_sr := (StreamMetricsReactor_Write (ss_sr s))\<lparr>sr_done_writes := n\<rparr>\<rparr>)"
| read_done: "StreamMetricsReactor_OnReadDone True ack (ss_mb s, ss_sr s) = Inr ((mb', sr'), r) \<Longrightarrow>
    stream_step s (s\<lparr>ss_mb := mb', ss_sr := sr',
      ss_acked := (if sr_pending (ss_sr s) (ack_batch_id ack) = None then ss_acked s
                   else insert (ack_batch_id ack) (ss_acked s))\<rparr>)"

inductive stream_reachable :: "Config \<Rightarrow> stream_sys \<Rightarrow> bool" for cfg where
  start: "MetricsBuffer_new cfg = Inr mb \<Longrightarrow> unat (mb_capacity_per_series mb) \<le> vector_max_size \<Longrightarrow>
    stream_reachable cfg (stream_init mb)"
| step: "stream_reachable cfg s \<Longrightarrow> stream_step s t \<Longrightarrow> stream_reachable cfg t"

section \<open>The write queue follows the common discipline\<close>

interpretation stream_writer: message_writer sr_writerqu sr_writing sr_started push_batch
  StreamMetricsReactor_Write pop_written
proof
  fix s :: StreamMetricsReactor
  assume "sr_writerqu s \<noteq> []"
  then show "\<exists>s'. pop_written s = Inr s' \<and> sr_writerqu s' = tl (sr_writerqu s) \<and> \<not> sr_writing s' \<and>
      sr_started s' = sr_started s"
    by (cases "sr_writerqu s") (simp_all add: pop_written_def)
qed (auto simp: push_batch_def StreamMetricsReactor_Write_def)

section \<open>The invariant\<close>

definition gone_of :: "mb_spec \<Rightarrow> BufferKey \<Rightarrow> nat" where
  "gone_of S k = (case S k of None \<Rightarrow> 0 | Some sp \<Rightarrow> sp_gone sp)"

definition hist_of :: "mb_spec \<Rightarrow> BufferKey \<Rightarrow> Sample list" where
  "hist_of S k = (case S k of None \<Rightarrow> [] | Some sp \<Rightarrow> sp_hist sp)"

definition snap_from :: "Snapshot \<Rightarrow> nat" where
  "snap_from sn = unat (snap_end sn) - length (snap_samples sn)"

text \<open>A snapshot of a series is the stretch of its history before the end mark.\<close>

definition snap_ok :: "mb_spec \<Rightarrow> BufferKey \<Rightarrow> Snapshot \<Rightarrow> bool" where
  "snap_ok S k sn \<longleftrightarrow> k \<in> dom S \<and> unat (snap_end sn) \<le> length (hist_of S k) \<and>
     length (snap_samples sn) \<le> unat (snap_end sn) \<and>
     snap_samples sn = drop (snap_from sn) (take (unat (snap_end sn)) (hist_of S k))"

text \<open>The specification only grows: histories get longer, more samples are gone.\<close>

definition spec_le :: "mb_spec \<Rightarrow> mb_spec \<Rightarrow> bool" where
  "spec_le S S' \<longleftrightarrow> dom S \<subseteq> dom S' \<and>
     (\<forall>k. prefix (hist_of S k) (hist_of S' k) \<and> gone_of S k \<le> gone_of S' k)"

definition no_overlap :: "u64 \<times> BufferKey \<times> Snapshot \<Rightarrow> u64 \<times> BufferKey \<times> Snapshot \<Rightarrow> bool" where
  "no_overlap e f \<longleftrightarrow> fst (snd e) = fst (snd f) \<longrightarrow> unat (snap_end (snd (snd e))) \<le> snap_from (snd (snd f))"

definition settled :: "mb_spec \<Rightarrow> (u64 \<times> BufferKey \<times> Snapshot) list \<Rightarrow> BufferKey set \<Rightarrow> bool" where
  "settled S lg K \<longleftrightarrow> (\<forall>n k sn. (n, k, sn) \<in> set lg \<longrightarrow> k \<in> K \<longrightarrow> unat (snap_end sn) \<le> gone_of S k)"

definition batch_of :: "u64 \<times> BufferKey \<times> Snapshot \<Rightarrow> MetricBatch" where
  "batch_of e = make_batch (fst e) (fst (snd e)) (snd (snd e))"

definition log_inv :: "mb_spec \<Rightarrow> StreamMetricsReactor \<Rightarrow> (u64 \<times> BufferKey \<times> Snapshot) list \<Rightarrow> u64 set \<Rightarrow> bool" where
  "log_inv S sr lg acked \<longleftrightarrow>
     map fst lg = map of_nat [0..<length lg] \<and> sr_counter sr = of_nat (length lg) \<and>
     (\<forall>n k sn. (n, k, sn) \<in> set lg \<longrightarrow> snap_ok S k sn) \<and>
     (\<forall>n k sn. sr_pending sr n = Some (k, sn) \<longrightarrow> (n, k, sn) \<in> set lg) \<and>
     (\<forall>n k sn. (n, k, sn) \<in> set lg \<longrightarrow> sr_pending sr n = Some (k, sn) \<or>
        (n \<in> acked \<and> unat (snap_end sn) \<le> gone_of S k)) \<and>
     sorted_wrt no_overlap lg"

fun pc_inv :: "mb_spec \<Rightarrow> (u64 \<times> BufferKey \<times> Snapshot) list \<Rightarrow> poll_pc \<Rightarrow> bool" where
  "pc_inv S lg PollTop = True"
| "pc_inv S lg PollKeys = settled S lg UNIV"
| "pc_inv S lg (Enqueue ks) = (distinct ks \<and> set ks \<subseteq> dom S \<and> settled S lg (set ks))"
| "pc_inv S lg (Register k sn ks) = (distinct (k # ks) \<and> set ks \<subseteq> dom S \<and> settled S lg (set ks) \<and>
     snap_ok S k sn \<and> (\<forall>n sn'. (n, k, sn') \<in> set lg \<longrightarrow> unat (snap_end sn') \<le> snap_from sn))"
| "pc_inv S lg (PushBatch b ks) = (distinct ks \<and> set ks \<subseteq> dom S \<and> settled S lg (set ks) \<and>
     lg \<noteq> [] \<and> b = batch_of (last lg))"
| "pc_inv S lg AfterEnqueue = True"
| "pc_inv S lg CallWrite = True"

definition queued :: "poll_pc \<Rightarrow> (u64 \<times> BufferKey \<times> Snapshot) list \<Rightarrow> (u64 \<times> BufferKey \<times> Snapshot) list" where
  "queued pc lg = (case pc of PushBatch _ _ \<Rightarrow> butlast lg | _ \<Rightarrow> lg)"

definition data_inv :: "MetricsBuffer \<Rightarrow> Metric list \<Rightarrow> mb_spec \<Rightarrow> bool" where
  "data_inv mb ms S \<longleftrightarrow> mb_rel mb S \<and>
     (\<forall>k \<in> dom S. hist_of S k = (if mb_capacity_per_series mb = 0 then [] else samples_for k ms)) \<and>
     (\<forall>k. k \<notin> dom S \<longrightarrow> samples_for k ms = [])"

definition stream_inv :: "stream_sys \<Rightarrow> mb_spec \<Rightarrow> bool" where
  "stream_inv s S \<longleftrightarrow> data_inv (ss_mb s) (ss_metrics s) S \<and>
     log_inv S (ss_sr s) (ss_log s) (ss_acked s) \<and> pc_inv S (ss_log s) (sr_poll (ss_sr s)) \<and>
     fifo_inv (map batch_of (queued (sr_poll (ss_sr s)) (ss_log s)))
       (sr_writerqu (ss_sr s)) (sr_writing (ss_sr s)) (sr_started (ss_sr s))"

definition bounded :: "stream_sys \<Rightarrow> bool" where
  "bounded s \<longleftrightarrow> length (ss_metrics s) < 2 ^ 64 \<and> length (ss_log s) < 2 ^ 64"

subsection \<open>Growth of the specification\<close>

lemma spec_le_refl [simp]: "spec_le S S"
  by (simp add: spec_le_def)

lemma spec_le_trans: "spec_le S T \<Longrightarrow> spec_le T U \<Longrightarrow> spec_le S U"
  unfolding spec_le_def by (meson order_trans prefix_order.order_trans)

lemma spec_le_AddMetric: "spec_le S (spec_AddMetric c m S)"
  by (auto simp: spec_le_def spec_AddMetric_def Let_def gone_of_def hist_of_def spec_push_def
      split: option.splits)

lemma spec_le_AddMetrics: "spec_le S (fold (spec_AddMetric c) ms S)"
  by (induction ms arbitrary: S) (auto intro: spec_le_trans [OF spec_le_AddMetric])

lemma spec_le_ack: "S k = Some sp \<Longrightarrow> spec_le S (S(k \<mapsto> spec_ack e sp))"
  by (auto simp: spec_le_def gone_of_def hist_of_def)

lemma spec_leD:
  assumes "spec_le S S'"
  shows "dom S \<subseteq> dom S'" "prefix (hist_of S k) (hist_of S' k)" "gone_of S k \<le> gone_of S' k"
  using assms by (simp_all add: spec_le_def)

lemma snap_ok_mono:
  assumes "snap_ok S k sn" "spec_le S S'"
  shows "snap_ok S' k sn"
proof -
  from spec_leD(2) [OF assms(2), of k] obtain xs where xs: "hist_of S' k = hist_of S k @ xs"
    by (auto elim: prefixE)
  from spec_leD(1) [OF assms(2)] assms(1) have "k \<in> dom S'" by (auto simp: snap_ok_def)
  with assms(1) show ?thesis by (simp add: snap_ok_def xs)
qed

lemma settled_mono: "settled S lg K \<Longrightarrow> spec_le S S' \<Longrightarrow> settled S' lg K"
  unfolding settled_def by (meson spec_leD(3) order_trans)

lemma log_inv_mono: "log_inv S sr lg acked \<Longrightarrow> spec_le S S' \<Longrightarrow> log_inv S' sr lg acked"
  unfolding log_inv_def by (meson snap_ok_mono spec_leD(3) order_trans)

lemma pc_inv_mono:
  assumes "pc_inv S lg pc" "spec_le S S'"
  shows "pc_inv S' lg pc"
proof -
  have d: "A \<subseteq> dom S \<Longrightarrow> A \<subseteq> dom S'" for A
    using spec_leD(1) [OF assms(2)] by blast
  have m: "settled S lg K \<Longrightarrow> settled S' lg K" for K using settled_mono assms(2) by blast
  have n: "snap_ok S k sn \<Longrightarrow> snap_ok S' k sn" for k sn using snap_ok_mono assms(2) by blast
  show ?thesis using assms(1) by (cases pc) (simp_all add: d m n)
qed

subsection \<open>Every step keeps the invariant\<close>

lemma fold_spec_push_cap0: "sp_cap sp = 0 \<Longrightarrow> fold spec_push xs sp = sp"
  by (induction xs) (simp_all add: spec_push_def)

lemma length_samples_for: "length (samples_for k ms) \<le> length ms"
  by (simp add: samples_for_def)

lemma samples_for_append: "samples_for k (ms @ ns) = samples_for k ms @ samples_for k ns"
  by (simp add: samples_for_def)

lemma mb_size_hist: "mb_size S k = length (hist_of S k)"
  by (simp add: mb_size_def hist_of_def split: option.split)

lemma data_invD:
  assumes "data_inv mb ms S"
  shows "mb_rel mb S" "k \<in> dom S \<Longrightarrow> hist_of S k = (if mb_capacity_per_series mb = 0 then [] else samples_for k ms)"
    "k \<notin> dom S \<Longrightarrow> samples_for k ms = []"
  using assms by (simp_all add: data_inv_def)

lemma data_inv_size: "data_inv mb ms S \<Longrightarrow> mb_size S k \<le> length ms"
  using length_samples_for [of k ms] data_invD(2) [of mb ms S k]
  by (cases "k \<in> dom S") (simp_all add: mb_size_hist, simp add: hist_of_def domIff)

lemma hist_AddMetrics:
  assumes "data_inv mb old S" "c = unat (mb_capacity_per_series mb)" "k \<in> dom (fold (spec_AddMetric c) ms S)"
  shows "hist_of (fold (spec_AddMetric c) ms S) k = (if c = 0 then [] else samples_for k (old @ ms))"
proof (cases "S k")
  case None
  with assms(1) have "samples_for k old = []" by (auto simp: data_inv_def dom_def)
  with None assms(3) show ?thesis
    by (auto simp: hist_of_def fold_spec_AddMetric samples_for_append fold_spec_push_hist fold_spec_push_cap0
        split: if_splits)
next
  case (Some sp)
  with assms(1,2) have "sp_hist sp = (if c = 0 then [] else samples_for k old)" "sp_cap sp = c"
    by (auto simp: data_inv_def hist_of_def dom_def mb_rel_def unat_eq_zero split: option.splits if_splits)
  with Some show ?thesis
    by (auto simp: hist_of_def fold_spec_AddMetric samples_for_append fold_spec_push_hist fold_spec_push_cap0)
qed

lemma data_inv_AddMetrics:
  assumes inv: "data_inv mb old S" and bound: "length (old @ ms) < 2 ^ 64"
  shows "\<exists>mb'. AddMetrics ms mb = Inr mb' \<and>
    data_inv mb' (old @ ms) (fold (spec_AddMetric (unat (mb_capacity_per_series mb))) ms S)"
proof -
  let ?c = "unat (mb_capacity_per_series mb)"
  let ?S = "fold (spec_AddMetric ?c) ms S"
  have rel: "mb_rel mb S" using inv by (simp add: data_inv_def)
  have "mb_size S k + length ms < 2 ^ 64" for k using data_inv_size [OF inv, of k] bound by simp
  from AddMetrics_rel [OF rel this] obtain mb' where mb': "AddMetrics ms mb = Inr mb'" "mb_rel mb' ?S"
    "mb_capacity_per_series mb' = mb_capacity_per_series mb" by blast
  have "samples_for k (old @ ms) = []" if "k \<notin> dom ?S" for k
    using that inv by (auto simp: samples_for_append data_inv_def domIff fold_spec_AddMetric split: if_splits)
  moreover have "hist_of ?S k = (if mb_capacity_per_series mb' = 0 then [] else samples_for k (old @ ms))"
    if "k \<in> dom ?S" for k
    using hist_AddMetrics [OF inv refl that] mb'(3) by (simp add: unat_eq_zero)
  ultimately show ?thesis using mb' by (auto simp: data_inv_def)
qed

text \<open>A snapshot taken now ends at the end of the history and starts at the first unsent sample.\<close>

lemma take_snapshot_ok:
  assumes "mb_rel mb S" "k \<in> dom S"
  shows "\<exists>sn. take_snapshot k mb = Inr sn \<and> snap_ok S k sn \<and> snap_from sn = gone_of S k \<and>
    snap_samples sn = drop (gone_of S k) (hist_of S k)"
proof -
  from assms(2) obtain sp where sp: "S k = Some sp" by blast
  from mb_rel_series [OF assms(1) sp] obtain b where b: "mb_series mb k = Some b" "sb_rel b sp" .
  have "length (spec_unsent sp) = length (sp_hist sp) - sp_gone sp" by (simp add: spec_unsent_def)
  moreover have "unat (snap_end (spec_snapshot sp)) = length (sp_hist sp)" "sp_gone sp \<le> length (sp_hist sp)"
    using ring.snapshot_end [OF b(2)] ring.rel_bounds [OF b(2)] by simp_all
  moreover have "snap_samples (spec_snapshot sp) = spec_unsent sp" by (simp add: spec_snapshot_def)
  ultimately show ?thesis using assms(2) sp b ring.snapshot_rel [OF b(2)]
    by (simp add: take_snapshot_def GetBuffer_def snap_ok_def snap_from_def gone_of_def hist_of_def spec_unsent_def)
qed

lemma log_invD:
  assumes "log_inv S sr lg acked"
  shows "map fst lg = map of_nat [0..<length lg]" "sr_counter sr = of_nat (length lg)"
    "(n, k, sn) \<in> set lg \<Longrightarrow> snap_ok S k sn"
    "sr_pending sr n = Some (k, sn) \<Longrightarrow> (n, k, sn) \<in> set lg"
    "(n, k, sn) \<in> set lg \<Longrightarrow> sr_pending sr n = Some (k, sn) \<or> (n \<in> acked \<and> unat (snap_end sn) \<le> gone_of S k)"
    "sorted_wrt no_overlap lg"
  using assms by (simp_all add: log_inv_def)

lemma of_nat_u64_inj: "i < 2 ^ 64 \<Longrightarrow> j < 2 ^ 64 \<Longrightarrow> (of_nat i :: u64) = of_nat j \<longleftrightarrow> i = j"
  by (simp add: word_of_nat_eq_iff take_bit_nat_eq_self)

lemma log_inv_fresh:
  assumes "log_inv S sr lg acked" "length lg < 2 ^ 64"
  shows "(sr_counter sr, k, sn) \<notin> set lg" "sr_pending sr (sr_counter sr) = None"
proof -
  have "sr_counter sr \<notin> fst ` set lg"
  proof
    assume "sr_counter sr \<in> fst ` set lg"
    then have "sr_counter sr \<in> set (map fst lg)" by simp
    then obtain i where i: "i < length lg" "(of_nat i :: u64) = of_nat (length lg)"
      unfolding log_invD(1) [OF assms(1)] log_invD(2) [OF assms(1)] by auto
    with assms(2) show False by (simp add: of_nat_u64_inj)
  qed
  then show "(sr_counter sr, k, sn) \<notin> set lg" for k sn by force
  then show "sr_pending sr (sr_counter sr) = None"
    using log_invD(4) [OF assms(1), of "sr_counter sr"] by (cases "sr_pending sr (sr_counter sr)") auto
qed

lemma log_inv_settled: "log_inv S sr lg acked \<Longrightarrow> sr_pending sr = Map.empty \<Longrightarrow> settled S lg K"
  by (auto simp: log_inv_def settled_def)

lemma log_inv_register:
  assumes inv: "log_inv S sr lg acked" and room: "length lg < 2 ^ 64" and sn: "snap_ok S k sn"
    and new: "\<forall>n sn'. (n, k, sn') \<in> set lg \<longrightarrow> unat (snap_end sn') \<le> snap_from sn"
  shows "log_inv S (register_batch k sn sr) (lg @ [(sr_counter sr, k, sn)]) acked"
proof -
  note i = log_invD [OF inv] and fresh = log_inv_fresh [OF inv room]
  have p: "sr_pending (register_batch k sn sr) = (sr_pending sr)(sr_counter sr \<mapsto> (k, sn))"
    by (simp add: register_batch_def fresh(2))
  have "sorted_wrt no_overlap (lg @ [(sr_counter sr, k, sn)])"
    using i(6) new by (auto simp: sorted_wrt_append no_overlap_def)
  moreover have "sr_counter (register_batch k sn sr) = sr_counter sr + 1" by (simp add: register_batch_def)
  ultimately show ?thesis unfolding log_inv_def p
    using i sn fresh(1) by (auto simp: i(1,2) split: if_splits)
qed

lemma log_inv_ack:
  assumes inv: "log_inv S sr lg acked" and p: "sr_pending sr n = Some (k, sn)" and sp: "S k = Some sp"
  shows "log_inv (S(k \<mapsto> spec_ack (unat (snap_end sn)) sp)) (sr\<lparr>sr_pending := (sr_pending sr)(n := None)\<rparr>)
    lg (insert n acked)" (is "log_inv ?S _ _ _")
proof -
  have le: "spec_le S ?S" using spec_le_ack [of S k sp] sp by simp
  have gone: "unat (snap_end sn) \<le> gone_of ?S k" by (simp add: gone_of_def)
  note i = log_invD [OF log_inv_mono [OF inv le]]
  have "sr_pending (sr\<lparr>sr_pending := (sr_pending sr)(n := None)\<rparr>) n' = Some (k', sn') \<or>
      (n' \<in> insert n acked \<and> unat (snap_end sn') \<le> gone_of ?S k')" if "(n', k', sn') \<in> set lg" for n' k' sn'
    using i(5) [OF that] p gone by auto
  with i show ?thesis unfolding log_inv_def by (auto split: if_splits)
qed

lemma log_inv_frame [simp]:
  "log_inv S (sr\<lparr>sr_poll := pc\<rparr>) lg acked = log_inv S sr lg acked"
  "log_inv S (sr\<lparr>sr_done_writes := m\<rparr>) lg acked = log_inv S sr lg acked"
  "log_inv S (push_batch b sr) lg acked = log_inv S sr lg acked"
  "log_inv S (StreamMetricsReactor_Write sr) lg acked = log_inv S sr lg acked"
  by (simp_all add: log_inv_def push_batch_def StreamMetricsReactor_Write_def)

lemma stream_invD:
  assumes "stream_inv s S"
  shows "data_inv (ss_mb s) (ss_metrics s) S" "log_inv S (ss_sr s) (ss_log s) (ss_acked s)"
    "pc_inv S (ss_log s) (sr_poll (ss_sr s))"
    "fifo_inv (map batch_of (queued (sr_poll (ss_sr s)) (ss_log s)))
       (sr_writerqu (ss_sr s)) (sr_writing (ss_sr s)) (sr_started (ss_sr s))"
  using assms by (simp_all add: stream_inv_def)

definition spec_collect :: "stream_sys \<Rightarrow> Metric list \<Rightarrow> mb_spec \<Rightarrow> mb_spec" where
  "spec_collect s ms S = fold (spec_AddMetric (unat (mb_capacity_per_series (ss_mb s)))) ms S"

lemma inv_collect:
  assumes inv: "stream_inv s S" and bound: "length (ss_metrics s @ ms) < 2 ^ 64"
  shows "\<exists>mb'. AddMetrics ms (ss_mb s) = Inr mb' \<and>
    stream_inv (s\<lparr>ss_mb := mb', ss_metrics := ss_metrics s @ ms\<rparr>) (spec_collect s ms S)"
proof -
  note i = stream_invD [OF inv]
  obtain mb' where "AddMetrics ms (ss_mb s) = Inr mb'" "data_inv mb' (ss_metrics s @ ms) (spec_collect s ms S)"
    using data_inv_AddMetrics [OF i(1) bound] unfolding spec_collect_def by blast
  moreover have "spec_le S (spec_collect s ms S)" unfolding spec_collect_def by (rule spec_le_AddMetrics)
  ultimately show ?thesis
    using log_inv_mono [OF i(2)] pc_inv_mono [OF i(3)] i(4) by (auto simp: stream_inv_def)
qed

lemma inv_poll_enqueue:
  assumes inv: "stream_inv s S" and pc: "sr_poll (ss_sr s) = Enqueue (k # ks)"
  shows "\<exists>sr'. poll_step (ss_mb s) (ss_sr s) = Inr sr' \<and> stream_inv (s\<lparr>ss_sr := sr'\<rparr>) S"
proof -
  note i = stream_invD [OF inv]
  have pci: "distinct (k # ks)" "k \<in> dom S" "set ks \<subseteq> dom S" "settled S (ss_log s) (set (k # ks))"
    using i(3) by (simp_all add: pc)
  then have st: "settled S (ss_log s) (set ks)" by (simp add: settled_def)
  obtain sn where sn: "take_snapshot k (ss_mb s) = Inr sn" "snap_ok S k sn" "snap_from sn = gone_of S k"
    using take_snapshot_ok [OF data_invD(1) [OF i(1)] pci(2)] by blast
  have new: "\<forall>n sn'. (n, k, sn') \<in> set (ss_log s) \<longrightarrow> unat (snap_end sn') \<le> snap_from sn"
    using pci(4) by (auto simp: settled_def sn(3))
  let ?sr = "ss_sr s\<lparr>sr_poll := if snap_samples sn = [] then Enqueue ks else Register k sn ks\<rparr>"
  have "poll_step (ss_mb s) (ss_sr s) = Inr ?sr" by (simp add: poll_step_def pc sn(1))
  moreover have "stream_inv (s\<lparr>ss_sr := ?sr\<rparr>) S"
    using i(1,2,4) pci(1,3) st new sn(2) by (auto simp: stream_inv_def pc queued_def log_inv_def)
  ultimately show ?thesis by blast
qed

lemma inv_poll_register:
  assumes inv: "stream_inv s S" and pc: "sr_poll (ss_sr s) = Register k sn ks"
    and bound: "length (ss_log s) < 2 ^ 64"
  shows "\<exists>sr'. poll_step (ss_mb s) (ss_sr s) = Inr sr' \<and>
    stream_inv (s\<lparr>ss_sr := sr', ss_log := ss_log s @ [(sr_counter (ss_sr s), k, sn)]\<rparr>) S"
proof -
  note i = stream_invD [OF inv]
  let ?b = "make_batch (sr_counter (ss_sr s)) k sn"
  let ?sr = "(register_batch k sn (ss_sr s))\<lparr>sr_poll := PushBatch ?b ks\<rparr>"
  let ?log = "ss_log s @ [(sr_counter (ss_sr s), k, sn)]"
  have pci: "distinct (k # ks)" "set ks \<subseteq> dom S" "settled S (ss_log s) (set ks)" "snap_ok S k sn"
    "\<forall>n sn'. (n, k, sn') \<in> set (ss_log s) \<longrightarrow> unat (snap_end sn') \<le> snap_from sn"
    using i(3) by (simp_all add: pc)
  have "log_inv S ?sr ?log (ss_acked s)"
    using log_inv_register [OF i(2) bound pci(4,5)] by simp
  moreover have "pc_inv S ?log (sr_poll ?sr)" using pci by (auto simp: batch_of_def settled_def)
  moreover have "fifo_inv (map batch_of (queued (sr_poll ?sr) ?log)) (sr_writerqu ?sr) (sr_writing ?sr) (sr_started ?sr)"
    using i(4) by (simp add: pc queued_def register_batch_def)
  moreover have "poll_step (ss_mb s) (ss_sr s) = Inr ?sr" by (simp add: poll_step_def pc)
  ultimately show ?thesis using i(1) unfolding stream_inv_def by auto
qed

lemma inv_poll_push:
  assumes inv: "stream_inv s S" and pc: "sr_poll (ss_sr s) = PushBatch b ks"
  shows "\<exists>sr'. poll_step (ss_mb s) (ss_sr s) = Inr sr' \<and> stream_inv (s\<lparr>ss_sr := sr'\<rparr>) S"
proof -
  note i = stream_invD [OF inv]
  let ?sr = "(push_batch b (ss_sr s))\<lparr>sr_poll := Enqueue ks\<rparr>"
  have lg: "ss_log s \<noteq> []" "b = batch_of (last (ss_log s))" using i(3) by (simp_all add: pc)
  then have "map batch_of (ss_log s) = map batch_of (butlast (ss_log s)) @ [b]"
    by (cases "ss_log s" rule: rev_cases) simp_all
  then have "fifo_inv (map batch_of (queued (sr_poll ?sr) (ss_log s))) (sr_writerqu ?sr) (sr_writing ?sr) (sr_started ?sr)"
    using stream_writer.fifo_push [OF i(4), of b] by (simp add: pc queued_def)
  moreover have "poll_step (ss_mb s) (ss_sr s) = Inr ?sr" by (simp add: poll_step_def pc)
  ultimately show ?thesis using i(1-3) by (auto simp: stream_inv_def pc)
qed

text \<open>The other places of the polling thread change only its program counter, or start a write.\<close>

lemma Write_keeps [simp]:
  "sr_pending (StreamMetricsReactor_Write sr) = sr_pending sr"
  "sr_counter (StreamMetricsReactor_Write sr) = sr_counter sr"
  "sr_poll (StreamMetricsReactor_Write sr) = sr_poll sr"
  "sr_done_writes (StreamMetricsReactor_Write sr) = sr_done_writes sr"
  by (simp_all add: StreamMetricsReactor_Write_def)

lemma stream_inv_pc:
  "stream_inv s S \<Longrightarrow> pc_inv S (ss_log s) pc \<Longrightarrow> queued pc (ss_log s) = queued (sr_poll (ss_sr s)) (ss_log s) \<Longrightarrow>
   stream_inv (s\<lparr>ss_sr := ss_sr s\<lparr>sr_poll := pc\<rparr>\<rparr>) S"
  by (simp add: stream_inv_def)

lemma stream_inv_Write: "stream_inv s S \<Longrightarrow> stream_inv (s\<lparr>ss_sr := StreamMetricsReactor_Write (ss_sr s)\<rparr>) S"
  by (simp add: stream_inv_def stream_writer.fifo_start)

lemma inv_poll_other:
  assumes inv: "stream_inv s S" and pc: "sr_poll (ss_sr s) \<in> {PollTop, PollKeys, Enqueue [], AfterEnqueue, CallWrite}"
  shows "\<exists>sr'. poll_step (ss_mb s) (ss_sr s) = Inr sr' \<and> stream_inv (s\<lparr>ss_sr := sr'\<rparr>) S"
proof -
  note i = stream_invD [OF inv]
  have keys: "distinct (GetAllKeys (ss_mb s))" "set (GetAllKeys (ss_mb s)) = dom S"
    using mb_relD(4,5) [OF data_invD(1) [OF i(1)]] by (simp_all add: GetAllKeys_def)
  consider "sr_poll (ss_sr s) = PollTop" | "sr_poll (ss_sr s) = PollKeys" | "sr_poll (ss_sr s) = Enqueue []"
    | "sr_poll (ss_sr s) = AfterEnqueue" | "sr_poll (ss_sr s) = CallWrite" using pc by blast
  then show ?thesis
  proof cases
    case 1
    with stream_inv_pc [OF inv, of PollKeys] log_inv_settled [OF i(2)] inv show ?thesis
      by (simp add: poll_step_def queued_def)
  next
    case 2
    with i(3) have "settled S (ss_log s) (dom S)" by (simp add: settled_def)
    with 2 stream_inv_pc [OF inv, of "Enqueue (GetAllKeys (ss_mb s))"] keys show ?thesis
      by (simp add: poll_step_def queued_def)
  next
    case 3
    with stream_inv_pc [OF inv, of AfterEnqueue] show ?thesis by (simp add: poll_step_def queued_def)
  next
    case 4
    with stream_inv_pc [OF inv, of PollTop] stream_inv_pc [OF inv, of CallWrite] show ?thesis
      by (simp add: poll_step_def queued_def)
  next
    case 5
    with stream_inv_pc [OF stream_inv_Write [OF inv], of PollTop] show ?thesis by (simp add: poll_step_def queued_def)
  qed
qed

text \<open>The entry a step of the polling thread adds to the log.\<close>

definition log_entry :: "stream_sys \<Rightarrow> (u64 \<times> BufferKey \<times> Snapshot) list" where
  "log_entry s = (case sr_poll (ss_sr s) of
     Register key snapshot keys \<Rightarrow> [(sr_counter (ss_sr s), key, snapshot)] | _ \<Rightarrow> [])"

lemma inv_poll:
  assumes inv: "stream_inv s S" and bound: "length (ss_log s) < 2 ^ 64"
  shows "\<exists>sr'. poll_step (ss_mb s) (ss_sr s) = Inr sr' \<and>
    stream_inv (s\<lparr>ss_sr := sr', ss_log := ss_log s @ log_entry s\<rparr>) S"
proof -
  have same: "s\<lparr>ss_sr := sr', ss_log := ss_log s\<rparr> = s\<lparr>ss_sr := sr'\<rparr>" for sr' by simp
  consider "sr_poll (ss_sr s) \<in> {PollTop, PollKeys, Enqueue [], AfterEnqueue, CallWrite}"
    | k ks where "sr_poll (ss_sr s) = Enqueue (k # ks)" | k sn ks where "sr_poll (ss_sr s) = Register k sn ks"
    | b ks where "sr_poll (ss_sr s) = PushBatch b ks"
    by (metis insertCI poll_pc.exhaust list.exhaust)
  then show ?thesis
  proof cases
    case 1
    with inv_poll_other [OF inv 1] show ?thesis by (auto simp: log_entry_def same)
  next
    case 2
    with inv_poll_enqueue [OF inv 2] show ?thesis by (simp add: log_entry_def same)
  next
    case 3
    with inv_poll_register [OF inv 3 bound] show ?thesis by (simp add: log_entry_def)
  next
    case 4
    with inv_poll_push [OF inv 4] show ?thesis by (simp add: log_entry_def same)
  qed
qed

lemma inv_write_done:
  assumes inv: "stream_inv s S" and busy: "sr_writing (ss_sr s)"
  shows "\<exists>sr'. pop_written (ss_sr s) = Inr sr' \<and>
    stream_inv (s\<lparr>ss_sr := sr'\<lparr>sr_done_writes := Suc (sr_done_writes sr')\<rparr>\<rparr>) S"
proof -
  note i = stream_invD [OF inv]
  obtain sr' where sr': "pop_written (ss_sr s) = Inr sr'"
    "fifo_inv (map batch_of (queued (sr_poll (ss_sr s)) (ss_log s))) (sr_writerqu sr') (sr_writing sr') (sr_started sr')"
    using stream_writer.fifo_pop [OF i(4) busy] by blast
  then have "sr_pending sr' = sr_pending (ss_sr s)" "sr_counter sr' = sr_counter (ss_sr s)"
    "sr_poll sr' = sr_poll (ss_sr s)" by (auto simp: pop_written_def split: list.splits)
  with sr' i show ?thesis by (simp add: stream_inv_def log_inv_def)
qed

lemma inv_write_next:
  "stream_inv s S \<Longrightarrow> stream_inv (s\<lparr>ss_sr := (StreamMetricsReactor_Write (ss_sr s))\<lparr>sr_done_writes := n\<rparr>\<rparr>) S"
  using stream_inv_Write [of s S] by (simp add: stream_inv_def)

lemma mb_rel_ack:
  assumes rel: "mb_rel mb S" and sn: "snap_ok S k sn"
  shows "\<exists>b sp. GetBuffer k mb = Some b \<and> S k = Some sp \<and>
    mb_rel (mb\<lparr>mb_series := (mb_series mb)(k \<mapsto> SeriesBuffer_AckSnapshot sn b)\<rparr>)
      (S(k \<mapsto> spec_ack (unat (snap_end sn)) sp))"
proof -
  from sn obtain sp where sp: "S k = Some sp" "unat (snap_end sn) \<le> length (sp_hist sp)"
    by (auto simp: snap_ok_def hist_of_def)
  from mb_rel_series [OF rel sp(1)] obtain b where b: "mb_series mb k = Some b" "sb_rel b sp" .
  have "mb_rel (mb\<lparr>mb_series := (mb_series mb)(k \<mapsto> SeriesBuffer_AckSnapshot sn b), mb_keys := mb_keys mb\<rparr>)
      (S(k \<mapsto> spec_ack (unat (snap_end sn)) sp))"
    by (rule mb_rel_upd [OF rel ring.ack_rel [OF b(2) sp(2)]]) (use mb_relD(2) [OF rel sp(1)] sp(1) in simp_all)
  with b(1) sp(1) show ?thesis by (simp add: GetBuffer_def)
qed

text \<open>An acknowledgement, known or not.\<close>

lemma inv_read_done:
  assumes inv: "stream_inv s S" and p: "sr_pending (ss_sr s) n = Some (k, sn)"
  shows "\<exists>b sp. GetBuffer k (ss_mb s) = Some b \<and> S k = Some sp \<and>
    stream_inv (s\<lparr>ss_mb := (ss_mb s)\<lparr>mb_series := (mb_series (ss_mb s))(k \<mapsto> SeriesBuffer_AckSnapshot sn b)\<rparr>,
      ss_sr := (ss_sr s)\<lparr>sr_pending := (sr_pending (ss_sr s))(n := None)\<rparr>,
      ss_acked := insert n (ss_acked s)\<rparr>) (S(k \<mapsto> spec_ack (unat (snap_end sn)) sp))"
proof -
  note i = stream_invD [OF inv]
  have "snap_ok S k sn" using log_invD(3,4) [OF i(2)] p by blast
  from mb_rel_ack [OF data_invD(1) [OF i(1)] this] obtain b sp where b: "GetBuffer k (ss_mb s) = Some b"
    and sp: "S k = Some sp" and rel: "mb_rel ((ss_mb s)\<lparr>mb_series := (mb_series (ss_mb s))(k \<mapsto> SeriesBuffer_AckSnapshot sn b)\<rparr>)
      (S(k \<mapsto> spec_ack (unat (snap_end sn)) sp))" (is "mb_rel ?mb ?S") by blast
  have "hist_of ?S k' = hist_of S k'" "dom ?S = dom S" for k' using sp by (auto simp: hist_of_def)
  then have "data_inv ?mb (ss_metrics s) ?S" using rel i(1) unfolding data_inv_def by simp
  moreover have "spec_le S ?S" using spec_le_ack [of S k sp] sp by simp
  ultimately show ?thesis using b sp log_inv_ack [OF i(2) p sp] pc_inv_mono [OF i(3)] i(4)
    by (auto simp: stream_inv_def)
qed

section \<open>Nothing is lost\<close>

text \<open>The samples of one series whose batches have been acknowledged, in the order registered.\<close>

definition acked_samples :: "StreamMetricsReactor \<Rightarrow> (u64 \<times> BufferKey \<times> Snapshot) list \<Rightarrow> BufferKey \<Rightarrow> Sample list" where
  "acked_samples sr lg k = concat (map (\<lambda>e. snap_samples (snd (snd e)))
     (filter (\<lambda>e. fst (snd e) = k \<and> sr_pending sr (fst e) = None) lg))"

text \<open>The series the polling thread may still turn into a batch.\<close>

fun pc_keys :: "poll_pc \<Rightarrow> BufferKey set" where
  "pc_keys PollTop = {}"
| "pc_keys PollKeys = UNIV"
| "pc_keys (Enqueue ks) = set ks"
| "pc_keys (Register k sn ks) = set (k # ks)"
| "pc_keys (PushBatch b ks) = set ks"
| "pc_keys AfterEnqueue = {}"
| "pc_keys CallWrite = {}"

text \<open>A series that has never overflowed: what is acknowledged is what is gone, and a batch under
  way starts there and is the last one of its series.\<close>

definition last_of_key :: "u64 \<times> BufferKey \<times> Snapshot \<Rightarrow> (u64 \<times> BufferKey \<times> Snapshot) list \<Rightarrow> bool" where
  "last_of_key e lg \<longleftrightarrow> (\<exists>xs ys. lg = xs @ e # ys \<and> (\<forall>f \<in> set ys. fst (snd f) \<noteq> fst (snd e)))"

definition loss_inv :: "mb_spec \<Rightarrow> nat \<Rightarrow> StreamMetricsReactor \<Rightarrow> (u64 \<times> BufferKey \<times> Snapshot) list \<Rightarrow> bool" where
  "loss_inv S c sr lg \<longleftrightarrow>
     (\<forall>k. length (hist_of S k) \<le> c \<longrightarrow> acked_samples sr lg k = take (gone_of S k) (hist_of S k)) \<and>
     (\<forall>n k sn. sr_pending sr n = Some (k, sn) \<longrightarrow>
        (length (hist_of S k) \<le> c \<longrightarrow> snap_from sn = gone_of S k) \<and> last_of_key (n, k, sn) lg \<and>
        k \<notin> pc_keys (sr_poll sr)) \<and>
     (\<forall>k sn ks. sr_poll sr = Register k sn ks \<longrightarrow> length (hist_of S k) \<le> c \<longrightarrow> snap_from sn = gone_of S k)"

lemma loss_invD:
  assumes "loss_inv S c sr lg"
  shows "length (hist_of S k) \<le> c \<Longrightarrow> acked_samples sr lg k = take (gone_of S k) (hist_of S k)"
    "sr_pending sr n = Some (k, sn) \<Longrightarrow> length (hist_of S k) \<le> c \<Longrightarrow> snap_from sn = gone_of S k"
    "sr_pending sr n = Some (k, sn) \<Longrightarrow> last_of_key (n, k, sn) lg"
    "sr_pending sr n = Some (k, sn) \<Longrightarrow> k \<notin> pc_keys (sr_poll sr)"
    "sr_poll sr = Register k sn ks \<Longrightarrow> length (hist_of S k) \<le> c \<Longrightarrow> snap_from sn = gone_of S k"
  using assms by (simp_all add: loss_inv_def)

lemma loss_inv_frame:
  "sr_pending sr' = sr_pending sr \<Longrightarrow> sr_poll sr' = sr_poll sr \<Longrightarrow> loss_inv S c sr' lg = loss_inv S c sr lg"
  by (simp add: loss_inv_def acked_samples_def)

text \<open>A collection that does not overflow a series leaves its unsent samples alone.\<close>

lemma spec_collect_gone:
  assumes "mb_rel (ss_mb s) S" "c = unat (mb_capacity_per_series (ss_mb s))"
    "length (hist_of (spec_collect s ms S) k) \<le> c"
  shows "gone_of (spec_collect s ms S) k = gone_of S k" "length (hist_of S k) \<le> c"
    "take (gone_of S k) (hist_of (spec_collect s ms S) k) = take (gone_of S k) (hist_of S k)"
proof -
  let ?sp = "series_at c S k"
  have sp: "sp_cap ?sp = c" "sp_gone ?sp = gone_of S k" "sp_hist ?sp = hist_of S k"
    using mb_relD(2) [OF assms(1), of k] assms(2)
    by (simp_all add: series_at_def gone_of_def hist_of_def split: option.split)
  have b: "gone_of S k \<le> length (hist_of S k)" "length (hist_of S k) \<le> gone_of S k + c"
  proof -
    have "gone_of S k \<le> length (hist_of S k) \<and> length (hist_of S k) \<le> gone_of S k + c"
    proof (cases "S k")
      case (Some s')
      from mb_rel_series [OF assms(1) Some] obtain b where "sb_rel b s'" .
      from ring.rel_bounds [OF this] mb_relD(2) [OF assms(1) Some] Some assms(2) show ?thesis
        by (simp add: gone_of_def hist_of_def)
    qed (simp add: gone_of_def hist_of_def)
    then show "gone_of S k \<le> length (hist_of S k)" "length (hist_of S k) \<le> gone_of S k + c" by simp_all
  qed
  have S': "spec_collect s ms S k = (if samples_for k ms = [] then S k else Some (fold spec_push (samples_for k ms) ?sp))"
    by (simp add: spec_collect_def fold_spec_AddMetric series_at_def assms(2))
  have h: "\<exists>xs. hist_of (spec_collect s ms S) k = hist_of S k @ xs"
    using spec_leD(2) [OF spec_le_AddMetrics] unfolding spec_collect_def by (metis prefixE)
  then show "length (hist_of S k) \<le> c" using assms(3) by auto
  show "take (gone_of S k) (hist_of (spec_collect s ms S) k) = take (gone_of S k) (hist_of S k)" using h b by auto
  show "gone_of (spec_collect s ms S) k = gone_of S k"
  proof (cases "samples_for k ms = [] \<or> c = 0")
    case True
    then have "samples_for k ms = [] \<or> fold spec_push (samples_for k ms) ?sp = ?sp"
      using sp(1) by (auto intro: fold_spec_push_cap0)
    with S' sp(2) show ?thesis by (auto simp: gone_of_def)
  next
    case False
    have "hist_of (spec_collect s ms S) k = hist_of S k @ samples_for k ms"
      using False S' sp by (simp add: hist_of_def fold_spec_push_hist)
    with assms(3) have "length (sp_hist ?sp) + length (samples_for k ms) \<le> c" by (simp add: sp)
    moreover have "gone_of (spec_collect s ms S) k = sp_gone (fold spec_push (samples_for k ms) ?sp)"
      using False S' by (simp add: gone_of_def)
    ultimately show ?thesis using fold_spec_push_gone [of ?sp "samples_for k ms"] False b sp by simp
  qed
qed

lemma loss_collect:
  assumes "mb_rel (ss_mb s) S" "c = unat (mb_capacity_per_series (ss_mb s))" "loss_inv S c sr lg"
  shows "loss_inv (spec_collect s ms S) c sr lg"
  using spec_collect_gone [OF assms(1,2)] loss_invD [OF assms(3)]
  unfolding loss_inv_def by auto

lemma acked_samples_register:
  assumes "sr_pending sr' = (sr_pending sr)(n \<mapsto> x)" "n \<notin> fst ` set lg"
  shows "acked_samples sr' (lg @ [(n, k, sn)]) k' = acked_samples sr lg k'"
proof -
  have "filter (\<lambda>e. fst (snd e) = k' \<and> sr_pending sr' (fst e) = None) lg
      = filter (\<lambda>e. fst (snd e) = k' \<and> sr_pending sr (fst e) = None) lg"
    using assms by (intro filter_cong) auto
  then show ?thesis using assms(1) by (simp add: acked_samples_def)
qed

lemma last_of_key_snoc: "last_of_key e (lg @ [e])"
  unfolding last_of_key_def by (intro exI [of _ lg] exI [of _ "[]"]) simp

lemma last_of_key_other:
  assumes "last_of_key e lg" "fst (snd f) \<noteq> fst (snd e)"
  shows "last_of_key e (lg @ [f])"
proof -
  from assms(1) obtain xs ys where "lg = xs @ e # ys" "\<forall>f \<in> set ys. fst (snd f) \<noteq> fst (snd e)"
    by (auto simp: last_of_key_def)
  with assms(2) show ?thesis unfolding last_of_key_def by (intro exI [of _ xs] exI [of _ "ys @ [f]"]) simp
qed

lemma loss_register:
  assumes inv: "log_inv S sr lg acked" and room: "length lg < 2 ^ 64" and loss: "loss_inv S c sr lg"
    and pc: "sr_poll sr = Register k sn ks" and ks: "k \<notin> set ks"
  shows "loss_inv S c ((register_batch k sn sr)\<lparr>sr_poll := PushBatch b ks\<rparr>) (lg @ [(sr_counter sr, k, sn)])"
    (is "loss_inv S c ?sr ?lg")
proof -
  note l = loss_invD [OF loss] and fresh = log_inv_fresh [OF inv room]
  have p: "sr_pending ?sr = (sr_pending sr)(sr_counter sr \<mapsto> (k, sn))" by (simp add: register_batch_def fresh(2))
  have "sr_counter sr \<notin> fst ` set lg" using fresh(1) by force
  then have a: "acked_samples ?sr ?lg k' = acked_samples sr lg k'" for k'
    using acked_samples_register [of ?sr sr "sr_counter sr" "(k, sn)" lg] p by simp
  have o: "last_of_key (n, k', sn') ?lg" if "sr_pending sr n = Some (k', sn')" for n k' sn'
    using l(3,4) [OF that] pc by (intro last_of_key_other) auto
  have "(length (hist_of S k') \<le> c \<longrightarrow> snap_from sn' = gone_of S k') \<and> last_of_key (n, k', sn') ?lg \<and> k' \<notin> set ks"
    if "sr_pending ?sr n = Some (k', sn')" for n k' sn'
  proof (cases "n = sr_counter sr")
    case True
    with that p l(5) [OF pc] ks show ?thesis by (auto simp: last_of_key_snoc)
  next
    case False
    with that p have "sr_pending sr n = Some (k', sn')" by simp
    with l(2,4) o pc show ?thesis by fastforce
  qed
  with l(1) a show ?thesis by (simp add: loss_inv_def)
qed

lemma acked_samples_ack:
  assumes "last_of_key (n, k, sn) lg" "distinct (map fst lg)" "sr_pending sr n = Some (k, sn)"
  shows "acked_samples (sr\<lparr>sr_pending := (sr_pending sr)(n := None)\<rparr>) lg k'
    = acked_samples sr lg k' @ (if k' = k then snap_samples sn else [])"
proof -
  obtain xs ys where lg: "lg = xs @ (n, k, sn) # ys" and last: "\<forall>f \<in> set ys. fst (snd f) \<noteq> k"
    using assms(1) by (auto simp: last_of_key_def)
  let ?f = "\<lambda>sr zs. filter (\<lambda>e. fst (snd e) = k' \<and> sr_pending sr (fst e) = None) zs"
  let ?sr = "sr\<lparr>sr_pending := (sr_pending sr)(n := None)\<rparr>"
  have "n \<notin> fst ` set xs" "n \<notin> fst ` set ys" using assms(2) by (auto simp: lg)
  then have "?f ?sr xs = ?f sr xs" "?f ?sr ys = ?f sr ys" by (auto intro!: filter_cong)
  moreover have "k' = k \<Longrightarrow> ?f sr ys = []" using last by (auto simp: filter_empty_conv)
  ultimately show ?thesis using assms(3) by (cases "k' = k") (simp_all add: acked_samples_def lg del: fun_upd_apply, simp_all)
qed

lemma log_inv_distinct:
  assumes "log_inv S sr lg acked" "length lg < 2 ^ 64"
  shows "distinct (map fst lg)"
proof -
  have "inj_on (of_nat :: nat \<Rightarrow> u64) {0..<length lg}"
    using assms(2) by (intro inj_onI) (simp add: of_nat_u64_inj)
  then show ?thesis unfolding log_invD(1) [OF assms(1)] by (simp add: distinct_map)
qed

lemma loss_ack:
  assumes loss: "loss_inv S c sr lg" and inv: "log_inv S sr lg acked" and room: "length lg < 2 ^ 64"
    and p: "sr_pending sr n = Some (k, sn)" and sp: "S k = Some sp"
  shows "loss_inv (S(k \<mapsto> spec_ack (unat (snap_end sn)) sp)) c (sr\<lparr>sr_pending := (sr_pending sr)(n := None)\<rparr>) lg"
    (is "loss_inv ?S c ?sr lg")
proof -
  note l = loss_invD [OF loss]
  have h: "hist_of ?S k' = hist_of S k'" for k' using sp by (simp add: hist_of_def)
  have g: "gone_of ?S k' = (if k' = k then max (gone_of S k) (unat (snap_end sn)) else gone_of S k')" for k'
    using sp by (simp add: gone_of_def)
  have sn: "unat (snap_end sn) \<le> length (hist_of S k)" "length (snap_samples sn) \<le> unat (snap_end sn)"
    "snap_samples sn = drop (snap_from sn) (take (unat (snap_end sn)) (hist_of S k))"
    using log_invD(3) [OF inv log_invD(4) [OF inv p]] by (simp_all add: snap_ok_def)
  have a: "acked_samples ?sr lg k' = acked_samples sr lg k' @ (if k' = k then snap_samples sn else [])" for k'
    by (rule acked_samples_ack [OF l(3) [OF p] log_inv_distinct [OF inv room] p])
  have "acked_samples ?sr lg k = take (gone_of ?S k) (hist_of S k)" if "length (hist_of S k) \<le> c"
  proof -
    have from_gone: "snap_from sn = gone_of S k" using l(2) [OF p that] .
    then have le: "gone_of S k \<le> unat (snap_end sn)" using sn(2) by (simp add: snap_from_def)
    have "acked_samples ?sr lg k = take (gone_of S k) (hist_of S k) @
        drop (gone_of S k) (take (unat (snap_end sn)) (hist_of S k))"
      using a [of k] l(1) [OF that] sn(3) from_gone by simp
    also have "\<dots> = take (unat (snap_end sn)) (hist_of S k)"
      using le by (metis append_take_drop_id min.absorb1 take_take)
    finally show ?thesis using le by (simp add: g max_def)
  qed
  moreover have "sr_pending ?sr n' = Some (k', sn') \<Longrightarrow> k' \<noteq> k" for n' k' sn'
  proof
    assume q: "sr_pending ?sr n' = Some (k', sn')" and "k' = k"
    then have "last_of_key (n', k, sn') lg" "n' \<noteq> n" using l(3) by (auto split: if_splits)
    with l(3) [OF p] show False
      by (auto simp: last_of_key_def append_eq_append_conv2 Cons_eq_append_conv append_eq_Cons_conv)
  qed
  moreover have "k \<notin> pc_keys (sr_poll sr)" using l(4) [OF p] .
  ultimately show ?thesis using l a unfolding loss_inv_def by (auto simp: h g split: if_splits)
qed

definition full_inv :: "stream_sys \<Rightarrow> mb_spec \<Rightarrow> bool" where
  "full_inv s S \<longleftrightarrow> stream_inv s S \<and>
     loss_inv S (unat (mb_capacity_per_series (ss_mb s))) (ss_sr s) (ss_log s)"

lemma loss_inv_pc:
  assumes "loss_inv S c sr lg" "pc_keys pc \<subseteq> pc_keys (sr_poll sr)" "\<forall>k sn ks. pc \<noteq> Register k sn ks"
  shows "loss_inv S c (sr\<lparr>sr_poll := pc\<rparr>) lg"
  using assms unfolding loss_inv_def acked_samples_def by auto

lemma loss_inv_top:
  assumes "loss_inv S c sr lg" "sr_pending sr = Map.empty"
  shows "loss_inv S c (sr\<lparr>sr_poll := PollKeys\<rparr>) lg"
  using assms unfolding loss_inv_def acked_samples_def by auto

text \<open>The shared capacity does not change.\<close>

lemma AddMetrics_capacity:
  assumes "data_inv mb old S" "length (old @ ms) < 2 ^ 64" "AddMetrics ms mb = Inr mb'"
  shows "mb_capacity_per_series mb' = mb_capacity_per_series mb"
proof -
  have "mb_size S k + length ms < 2 ^ 64" for k using data_inv_size [OF assms(1), of k] assms(2) by simp
  from AddMetrics_rel [OF data_invD(1) [OF assms(1)] this] assms(3) show ?thesis by auto
qed

lemma loss_poll:
  assumes full: "full_inv s S" and room: "length (ss_log s) < 2 ^ 64"
    and step: "poll_step (ss_mb s) (ss_sr s) = Inr sr'"
  shows "loss_inv S (unat (mb_capacity_per_series (ss_mb s))) sr' (ss_log s @ log_entry s)"
proof -
  let ?c = "unat (mb_capacity_per_series (ss_mb s))"
  have inv: "stream_inv s S" and loss: "loss_inv S ?c (ss_sr s) (ss_log s)" using full by (simp_all add: full_inv_def)
  note i = stream_invD [OF inv]
  consider "sr_poll (ss_sr s) = PollTop" | "sr_poll (ss_sr s) = PollKeys" | "sr_poll (ss_sr s) = Enqueue []"
    | k ks where "sr_poll (ss_sr s) = Enqueue (k # ks)" | k sn ks where "sr_poll (ss_sr s) = Register k sn ks"
    | b ks where "sr_poll (ss_sr s) = PushBatch b ks" | "sr_poll (ss_sr s) = AfterEnqueue"
    | "sr_poll (ss_sr s) = CallWrite"
    by (metis poll_pc.exhaust list.exhaust)
  then show ?thesis
  proof cases
    case 1
    with step loss loss_inv_top [OF loss] show ?thesis
      by (auto simp: poll_step_def log_entry_def split: if_splits)
  next
    case 2
    with step loss_inv_pc [OF loss, of "Enqueue (GetAllKeys (ss_mb s))"] show ?thesis
      by (auto simp: poll_step_def log_entry_def)
  next
    case 3
    with step loss_inv_pc [OF loss, of AfterEnqueue] show ?thesis by (auto simp: poll_step_def log_entry_def)
  next
    case (4 k ks)
    then have "k \<in> dom S" using i(3) by simp
    from take_snapshot_ok [OF data_invD(1) [OF i(1)] this] obtain sn
      where sn: "take_snapshot k (ss_mb s) = Inr sn" "snap_from sn = gone_of S k" by blast
    have "loss_inv S ?c (ss_sr s\<lparr>sr_poll := Register k sn ks\<rparr>) (ss_log s)"
      using loss sn(2) 4 unfolding loss_inv_def acked_samples_def by auto
    moreover have "loss_inv S ?c (ss_sr s\<lparr>sr_poll := Enqueue ks\<rparr>) (ss_log s)"
      using 4 by (intro loss_inv_pc [OF loss]) auto
    ultimately show ?thesis using 4 step sn(1) by (auto simp: poll_step_def log_entry_def)
  next
    case (5 k sn ks)
    then have "k \<notin> set ks" using i(3) by simp
    with 5 step loss_register [OF i(2) room loss 5] show ?thesis by (auto simp: poll_step_def log_entry_def)
  next
    case (6 b ks)
    have "loss_inv S ?c (push_batch b (ss_sr s)) (ss_log s)"
      using loss loss_inv_frame [of "push_batch b (ss_sr s)" "ss_sr s"] by (simp add: push_batch_def)
    from loss_inv_pc [OF this, of "Enqueue ks"] 6 step show ?thesis
      by (auto simp: poll_step_def log_entry_def push_batch_def)
  next
    case 7
    with step loss_inv_pc [OF loss, of PollTop] loss_inv_pc [OF loss, of CallWrite] show ?thesis
      by (auto simp: poll_step_def log_entry_def split: if_splits)
  next
    case 8
    have "loss_inv S ?c (StreamMetricsReactor_Write (ss_sr s)) (ss_log s)"
      using loss loss_inv_frame [of "StreamMetricsReactor_Write (ss_sr s)" "ss_sr s"] by simp
    from loss_inv_pc [OF this, of PollTop] 8 step show ?thesis by (auto simp: poll_step_def log_entry_def)
  qed
qed

lemma full_step:
  assumes full: "full_inv s S" and bound: "bounded t" and step: "stream_step s t"
  shows "\<exists>S'. full_inv t S' \<and> spec_le S S'"
proof -
  let ?c = "unat (mb_capacity_per_series (ss_mb s))"
  have inv: "stream_inv s S" and loss: "loss_inv S ?c (ss_sr s) (ss_log s)" using full by (simp_all add: full_inv_def)
  note i = stream_invD [OF inv]
  from step show ?thesis
  proof cases
    case (collect ms mb')
    then have b: "length (ss_metrics s @ ms) < 2 ^ 64" using bound by (simp add: bounded_def)
    from inv_collect [OF inv b] collect have "stream_inv t (spec_collect s ms S)" by auto
    moreover have "loss_inv (spec_collect s ms S) ?c (ss_sr s) (ss_log s)"
      using loss_collect [OF data_invD(1) [OF i(1)] refl loss] .
    moreover have "mb_capacity_per_series mb' = mb_capacity_per_series (ss_mb s)"
      using AddMetrics_capacity [OF i(1) b] collect by simp
    moreover have "spec_le S (spec_collect s ms S)" unfolding spec_collect_def by (rule spec_le_AddMetrics)
    ultimately show ?thesis using collect by (auto simp: full_inv_def)
  next
    case (poll sr')
    then have room: "length (ss_log s) < 2 ^ 64" using bound by (simp add: bounded_def)
    from inv_poll [OF inv room] loss_poll [OF full room] poll have "full_inv t S"
      by (auto simp: full_inv_def log_entry_def)
    then show ?thesis using spec_le_refl by blast
  next
    case (write_done sr')
    have "stream_inv t S" using inv_write_done [OF inv write_done(2)] write_done by auto
    moreover have "loss_inv S ?c (ss_sr t) (ss_log s)"
      using loss loss_inv_frame [of "ss_sr t" "ss_sr s"] write_done
      by (auto simp: pop_written_def split: list.splits)
    ultimately have "full_inv t S" using write_done by (simp add: full_inv_def)
    then show ?thesis using spec_le_refl by blast
  next
    case (write_next n)
    have "loss_inv S ?c (ss_sr t) (ss_log s)" using loss loss_inv_frame [of "ss_sr t" "ss_sr s"] write_next by simp
    with inv_write_next [OF inv, of n] write_next have "full_inv t S" by (simp add: full_inv_def)
    then show ?thesis using spec_le_refl by blast
  next
    case (read_done ack mb' sr' r)
    let ?n = "ack_batch_id ack"
    show ?thesis
    proof (cases "sr_pending (ss_sr s) ?n")
      case None
      with read_done have "t = s" by (simp add: StreamMetricsReactor_OnReadDone_def)
      with full spec_le_refl show ?thesis by blast
    next
      case (Some e)
      then obtain k sn where p: "sr_pending (ss_sr s) ?n = Some (k, sn)" by (cases e) simp
      from inv_read_done [OF inv p] obtain b sp where b: "GetBuffer k (ss_mb s) = Some b" and sp: "S k = Some sp"
        and inv': "stream_inv (s\<lparr>ss_mb := (ss_mb s)\<lparr>mb_series := (mb_series (ss_mb s))(k \<mapsto> SeriesBuffer_AckSnapshot sn b)\<rparr>,
          ss_sr := (ss_sr s)\<lparr>sr_pending := (sr_pending (ss_sr s))(?n := None)\<rparr>,
          ss_acked := insert ?n (ss_acked s)\<rparr>) (S(k \<mapsto> spec_ack (unat (snap_end sn)) sp))"
        by blast
      have room: "length (ss_log s) < 2 ^ 64" using bound read_done by (simp add: bounded_def)
      from read_done p b inv' loss_ack [OF loss i(2) room p sp]
      have "full_inv t (S(k \<mapsto> spec_ack (unat (snap_end sn)) sp))"
        by (auto simp: StreamMetricsReactor_OnReadDone_def full_inv_def)
      with spec_le_ack [of S k sp] sp show ?thesis by blast
    qed
  qed
qed

lemma stream_step_grows:
  "stream_step s t \<Longrightarrow> bounded t \<Longrightarrow> bounded s"
  by (induction rule: stream_step.induct) (auto simp: bounded_def)

lemma reachable_full:
  "stream_reachable cfg s \<Longrightarrow> bounded s \<Longrightarrow> \<exists>S. full_inv s S"
proof (induction rule: stream_reachable.induct)
  case (start mb)
  then have mb: "mb_series mb = Map.empty" "mb_keys mb = []"
    by (auto simp: MetricsBuffer_new_def split: if_splits)
  with start have "full_inv (stream_init mb) Map.empty"
    by (simp add: full_inv_def stream_inv_def stream_init_def StreamMetricsReactor_new_def data_inv_def mb_rel_def
        log_inv_def queued_def fifo_inv_empty loss_inv_def acked_samples_def hist_of_def gone_of_def)
  then show ?case by blast
next
  case (step s t)
  then show ?case using stream_step_grows full_step by metis
qed

lemma stream_step_capacity:
  assumes "stream_step v v'" "stream_reachable cfg v" "bounded v'"
  shows "mb_capacity_per_series (ss_mb v') = mb_capacity_per_series (ss_mb v)"
proof -
  obtain S where "full_inv v S" using reachable_full [OF assms(2) stream_step_grows [OF assms(1,3)]] by blast
  then have d: "data_inv (ss_mb v) (ss_metrics v) S" by (simp add: full_inv_def stream_inv_def)
  show ?thesis using assms(1)
  proof cases
    case (collect ms mb')
    with assms(3) AddMetrics_capacity [OF d, of ms mb'] show ?thesis by (simp add: bounded_def)
  next
    case (read_done ack mb' sr' r)
    then show ?thesis
      by (auto simp: StreamMetricsReactor_OnReadDone_def split: option.splits if_splits)
  qed simp_all
qed

lemmas reachable_invE = reachable_full [unfolded full_inv_def, THEN exE]

section \<open>Facts the properties rest on\<close>

text \<open>Stretches of a history that follow one another make a subsequence of it.\<close>

lemma stretches_subseq:
  assumes "sorted_wrt (\<lambda>a b. unat (snap_end a) \<le> snap_from b) sns"
    and "\<forall>sn \<in> set sns. m \<le> snap_from sn \<and> snap_from sn \<le> unat (snap_end sn) \<and>
      snap_samples sn = drop (snap_from sn) (take (unat (snap_end sn)) h)"
  shows "subseq (concat (map snap_samples sns)) (drop m h)"
  using assms
proof (induction sns arbitrary: m)
  case (Cons sn sns)
  let ?a = "snap_from sn" and ?e = "unat (snap_end sn)"
  have sn: "m \<le> ?a" "?a \<le> ?e" "snap_samples sn = drop ?a (take ?e h)" using Cons.prems(2) by simp_all
  have "subseq (concat (map snap_samples sns)) (drop ?e h)" using Cons.prems by (intro Cons.IH) auto
  then have "subseq (concat (map snap_samples (sn # sns))) (drop ?a (take ?e h) @ drop ?e h)"
    using sn(3) by (simp add: list_emb_append_mono)
  also have "drop ?a (take ?e h) @ drop ?e h = drop ?a h"
    using sn(2) by (metis append_take_drop_id drop_drop drop_take le_add_diff_inverse2 take_drop)
  also have "subseq (drop ?a h) (drop m h)" using sn(1) by (metis drop_drop le_add_diff_inverse2 subseq_drop)
  finally show ?case .
qed simp

definition sent_samples :: "BufferKey \<Rightarrow> stream_sys \<Rightarrow> Sample list" where
  "sent_samples k s = concat (map (\<lambda>e. snap_samples (snd (snd e)))
     (filter (\<lambda>e. fst (snd e) = k) (take (length (sr_started (ss_sr s))) (ss_log s))))"

lemma started_log:
  assumes "stream_inv s S"
  shows "sr_started (ss_sr s) = map batch_of (take (length (sr_started (ss_sr s))) (ss_log s))"
proof -
  have "prefix (queued (sr_poll (ss_sr s)) (ss_log s)) (ss_log s)"
    by (auto simp: queued_def prefixeq_butlast split: poll_pc.split)
  then have "prefix (map batch_of (queued (sr_poll (ss_sr s)) (ss_log s))) (map batch_of (ss_log s))"
    by (rule map_mono_prefix)
  with fifo_inv_prefix(1) [OF stream_invD(4) [OF assms]]
  have "prefix (sr_started (ss_sr s)) (map batch_of (ss_log s))" by (rule prefix_order.order_trans)
  then have "sr_started (ss_sr s) = take (length (sr_started (ss_sr s))) (map batch_of (ss_log s))"
    by (auto simp: prefix_def)
  then show ?thesis by (simp add: take_map)
qed

lemma sorted_wrt_weaken:
  "sorted_wrt P xs \<Longrightarrow> (\<forall>a \<in> set xs. \<forall>b \<in> set xs. P a b \<longrightarrow> Q a b) \<Longrightarrow> sorted_wrt Q xs"
  by (induction xs) auto

lemma log_stretches:
  assumes inv: "log_inv S sr lg acked"
  shows "subseq (concat (map (\<lambda>e. snap_samples (snd (snd e))) (filter (\<lambda>e. fst (snd e) = k) (take m lg)))) (hist_of S k)"
proof -
  let ?es = "filter (\<lambda>e. fst (snd e) = k) (take m lg)"
  have "sorted_wrt no_overlap ?es"
    by (intro sorted_wrt_filter sorted_wrt_take log_invD(6) [OF inv])
  moreover have "no_overlap a b = (unat (snap_end (snd (snd a))) \<le> snap_from (snd (snd b)))"
    if "a \<in> set ?es" "b \<in> set ?es" for a b using that by (simp add: no_overlap_def)
  ultimately have "sorted_wrt (\<lambda>a b. unat (snap_end (snd (snd a))) \<le> snap_from (snd (snd b))) ?es"
    using sorted_wrt_weaken [of no_overlap ?es "\<lambda>a b. unat (snap_end (snd (snd a))) \<le> snap_from (snd (snd b))"]
    by blast
  then have sorted: "sorted_wrt (\<lambda>a b. unat (snap_end a) \<le> snap_from b) (map (\<lambda>e. snd (snd e)) ?es)"
    by (simp only: sorted_wrt_map)
  have ok: "0 \<le> snap_from sn \<and> snap_from sn \<le> unat (snap_end sn) \<and>
      snap_samples sn = drop (snap_from sn) (take (unat (snap_end sn)) (hist_of S k))"
    if sn: "sn \<in> set (map (\<lambda>e. snd (snd e)) ?es)" for sn
  proof -
    from sn obtain e where e: "e \<in> set (take m lg)" "fst (snd e) = k" "snd (snd e) = sn" by auto
    then have "e = (fst e, k, sn)" by (simp add: prod_eq_iff)
    with in_set_takeD [OF e(1)] have "(fst e, k, sn) \<in> set lg" by simp
    from log_invD(3) [OF inv this] show ?thesis by (simp add: snap_ok_def snap_from_def)
  qed
  have "subseq (concat (map snap_samples (map (\<lambda>e. snd (snd e)) ?es))) (drop 0 (hist_of S k))"
    using stretches_subseq [OF sorted] ok by blast
  then show ?thesis by (simp only: map_map comp_def drop_0)
qed

text \<open>The history of a series is what was collected for it, or nothing when the capacity is zero.\<close>

lemma hist_collected:
  assumes "data_inv mb ms S"
  shows "subseq (hist_of S k) (samples_for k ms)"
  using data_invD(2) [OF assms, of k] by (cases "k \<in> dom S") (auto simp: hist_of_def domIff)

lemma batch_id_of [simp]: "batch_id (batch_of e) = fst e"
  by (simp add: batch_of_def make_batch_def)

text \<open>The polling thread running alone.\<close>

fun poll_run :: "nat \<Rightarrow> MetricsBuffer \<Rightarrow> StreamMetricsReactor \<Rightarrow> StreamMetricsReactor result" where
  "poll_run 0 mb sr = Inr sr"
| "poll_run (Suc n) mb sr = res_bind (poll_step mb sr) (poll_run n mb)"

lemma poll_run_add: "poll_run m mb sr = Inr sr1 \<Longrightarrow> poll_run (m + n) mb sr = poll_run n mb sr1"
proof (induction m arbitrary: sr)
  case (Suc m)
  then show ?case by (cases "poll_step mb sr") simp_all
qed simp

lemma register_push_pc:
  "(push_batch b ((register_batch k sn sr)\<lparr>sr_poll := pc\<rparr>))\<lparr>sr_poll := pc'\<rparr>
    = (push_batch b (register_batch k sn sr))\<lparr>sr_poll := pc'\<rparr>"
  "register_batch k sn (sr\<lparr>sr_poll := pc\<rparr>) = (register_batch k sn sr)\<lparr>sr_poll := pc\<rparr>"
  by (simp_all add: push_batch_def register_batch_def)

lemma poll_run_key:
  assumes "EnqueueMetrics_key mb k sr = Inr sr1"
  shows "\<exists>n. poll_run n mb (sr\<lparr>sr_poll := Enqueue (k # ks)\<rparr>) = Inr (sr1\<lparr>sr_poll := Enqueue ks\<rparr>)"
proof -
  from assms obtain sn where sn: "take_snapshot k mb = Inr sn"
    by (cases "take_snapshot k mb") (auto simp: EnqueueMetrics_key_def)
  show ?thesis
  proof (cases "snap_samples sn = []")
    case True
    with assms sn have "poll_run 1 mb (sr\<lparr>sr_poll := Enqueue (k # ks)\<rparr>) = Inr (sr1\<lparr>sr_poll := Enqueue ks\<rparr>)"
      by (simp add: EnqueueMetrics_key_def poll_step_def)
    then show ?thesis by blast
  next
    case False
    with assms sn have "poll_run 3 mb (sr\<lparr>sr_poll := Enqueue (k # ks)\<rparr>) = Inr (sr1\<lparr>sr_poll := Enqueue ks\<rparr>)"
      by (auto simp: EnqueueMetrics_key_def poll_step_def register_push_pc eval_nat_numeral)
    then show ?thesis by blast
  qed
qed

lemma poll_run_keys:
  "res_fold (EnqueueMetrics_key mb) ks sr = Inr sr1 \<Longrightarrow>
   \<exists>n. poll_run n mb (sr\<lparr>sr_poll := Enqueue ks\<rparr>) = Inr (sr1\<lparr>sr_poll := AfterEnqueue\<rparr>)"
proof (induction ks arbitrary: sr)
  case Nil
  then have "poll_run 1 mb (sr\<lparr>sr_poll := Enqueue []\<rparr>) = Inr (sr1\<lparr>sr_poll := AfterEnqueue\<rparr>)"
    by (simp add: poll_step_def)
  then show ?case by blast
next
  case (Cons k ks)
  then obtain sr2 where sr2: "EnqueueMetrics_key mb k sr = Inr sr2" "res_fold (EnqueueMetrics_key mb) ks sr2 = Inr sr1"
    by (cases "EnqueueMetrics_key mb k sr") auto
  from poll_run_key [OF sr2(1)] Cons.IH [OF sr2(2)] poll_run_add show ?case by metis
qed

text \<open>The ranges of metric types that belong to a kind of device.\<close>

fun kind_of_type :: "int \<Rightarrow> DeviceId \<Rightarrow> bool" where
  "kind_of_type t (Cpu _) = (100 \<le> t \<and> t < 200)"
| "kind_of_type t (Gpu _) = (200 \<le> t \<and> t < 300)"
| "kind_of_type t (Disk _) = (400 \<le> t \<and> t < 500)"
| "kind_of_type t (Net _) = (500 \<le> t \<and> t < 600)"

lemma ucast_back: "unat (w :: u32) < 2 ^ 16 \<Longrightarrow> (ucast (ucast w :: u16) :: u32) = w"
  "unat (w :: u32) < 2 ^ 8 \<Longrightarrow> (ucast (ucast w :: u8) :: u32) = w"
  by (simp_all add: word_unat_eq_iff unsigned_ucast_eq unsigned_take_bit_eq take_bit_nat_eq_self)

section \<open>Concrete runs\<close>

text \<open>A schedule of the threads, executed; every step of it is a step of the system.\<close>

datatype stream_act = ActCollect "Metric list" | ActPoll | ActWriteDone | ActWriteNext | ActAck BatchAck

fun stream_act_step :: "stream_act \<Rightarrow> stream_sys \<Rightarrow> stream_sys result" where
  "stream_act_step (ActCollect ms) s = res_map (\<lambda>mb. s\<lparr>ss_mb := mb, ss_metrics := ss_metrics s @ ms\<rparr>)
     (AddMetrics ms (ss_mb s))"
| "stream_act_step ActPoll s = res_map (\<lambda>sr. s\<lparr>ss_sr := sr, ss_log := ss_log s @ log_entry s\<rparr>)
     (poll_step (ss_mb s) (ss_sr s))"
| "stream_act_step ActWriteDone s = (if sr_writing (ss_sr s)
     then res_map (\<lambda>sr. s\<lparr>ss_sr := sr\<lparr>sr_done_writes := Suc (sr_done_writes sr)\<rparr>\<rparr>) (pop_written (ss_sr s)) else Inr s)"
| "stream_act_step ActWriteNext s = Inr (case sr_done_writes (ss_sr s) of 0 \<Rightarrow> s
     | Suc n \<Rightarrow> s\<lparr>ss_sr := (StreamMetricsReactor_Write (ss_sr s))\<lparr>sr_done_writes := n\<rparr>\<rparr>)"
| "stream_act_step (ActAck ack) s = res_map (\<lambda>((mb, sr), r). s\<lparr>ss_mb := mb, ss_sr := sr,
     ss_acked := (if sr_pending (ss_sr s) (ack_batch_id ack) = None then ss_acked s
                  else insert (ack_batch_id ack) (ss_acked s))\<rparr>)
     (StreamMetricsReactor_OnReadDone True ack (ss_mb s, ss_sr s))"

lemma stream_act_step_sound: "stream_act_step a s = Inr t \<Longrightarrow> t = s \<or> stream_step s t"
proof (cases a)
  case (ActCollect ms)
  assume "stream_act_step a s = Inr t"
  with ActCollect stream_step.collect [of ms s] show ?thesis by (cases "AddMetrics ms (ss_mb s)") auto
next
  case ActPoll
  assume "stream_act_step a s = Inr t"
  with ActPoll stream_step.poll [of s] show ?thesis
    by (cases "poll_step (ss_mb s) (ss_sr s)") (auto simp: log_entry_def)
next
  case ActWriteDone
  assume "stream_act_step a s = Inr t"
  with ActWriteDone stream_step.write_done [of s] show ?thesis
    by (cases "pop_written (ss_sr s)") (auto split: if_splits)
next
  case ActWriteNext
  assume "stream_act_step a s = Inr t"
  with ActWriteNext stream_step.write_next [of s] show ?thesis by (auto split: nat.splits)
next
  case (ActAck ack)
  assume "stream_act_step a s = Inr t"
  with ActAck stream_step.read_done [of ack s] show ?thesis
    by (cases "StreamMetricsReactor_OnReadDone True ack (ss_mb s, ss_sr s)") (auto split: prod.splits)
qed

lemma stream_run_reachable:
  "stream_reachable cfg s \<Longrightarrow> res_fold stream_act_step acts s = Inr t \<Longrightarrow> stream_reachable cfg t"
proof (induction acts arbitrary: s)
  case (Cons a acts)
  then obtain u where u: "stream_act_step a s = Inr u" "res_fold stream_act_step acts u = Inr t"
    by (cases "stream_act_step a s") auto
  have "stream_reachable cfg u"
    using stream_act_step_sound [OF u(1)] Cons.prems(1) by (auto intro: stream_reachable.step)
  with Cons.IH u(2) show ?case by blast
qed simp

text \<open>One metric is collected, batched and written.\<close>

definition demo_start :: stream_sys where
  "demo_start = stream_init \<lparr>mb_capacity_per_series = 4, mb_series = Map.empty, mb_keys = []\<rparr>"

definition demo_key :: BufferKey where
  "demo_key = MakeBufferKey (gpu_metric 0)"

definition demo_acts :: "stream_act list" where
  "demo_acts = [ActCollect [gpu_metric 0], ActPoll, ActPoll, ActPoll, ActPoll, ActPoll, ActPoll, ActPoll, ActPoll]"

lemma demo_start_reachable: "stream_reachable example_config demo_start"
  unfolding demo_start_def
  by (rule stream_reachable.start) (simp_all add: MetricsBuffer_new_def example_config_def default_Config_def
      kDefaultIntervalMs_def kDefaultTimeWindowMs_def signed_divide_int_def vector_max_size_def)

lemmas demo_eval = demo_start_def demo_acts_def stream_init_def StreamMetricsReactor_new_def AddMetrics_def
  AddMetric_def AddSample_def demo_key_def [symmetric] SeriesBuffer_new_def SeriesBuffer_SetCapacity_def
  vector_reserve_def vector_max_size_def SeriesBuffer_Push_def Let_def poll_step_def log_entry_def GetAllKeys_def
  take_snapshot_def GetBuffer_def SeriesBuffer_GetSnapshot_def snapshot_loop.simps word_rem_def vector_at_def
  register_batch_def push_batch_def StreamMetricsReactor_Write_def

definition demo_snapshot :: Snapshot where
  "demo_snapshot = \<lparr>snap_samples = [sample_of (gpu_metric 0)], snap_end = 1\<rparr>"

lemma demo_run:
  "\<exists>t. res_fold stream_act_step demo_acts demo_start = Inr t \<and> bounded t \<and>
     sr_started (ss_sr t) = [make_batch 0 demo_key demo_snapshot] \<and> sr_writing (ss_sr t) \<and>
     ss_metrics t = [gpu_metric 0] \<and> mb_capacity_per_series (ss_mb t) = 4"
  by (simp add: demo_eval demo_snapshot_def bounded_def, simp add: gpu_metric_def)

text \<open>What the invariant says of the samples of a series: those released and those a snapshot takes
  are all there are, and those sent are among them in order.\<close>

lemma full_inv_complete:
  assumes "full_inv s S" "samples_for k (ss_metrics s) \<noteq> []"
    "length (samples_for k (ss_metrics s)) \<le> unat (mb_capacity_per_series (ss_mb s))"
  shows "\<exists>sn. take_snapshot k (ss_mb s) = Inr sn \<and>
    acked_samples (ss_sr s) (ss_log s) k @ snap_samples sn = samples_for k (ss_metrics s)"
proof -
  have inv: "stream_inv s S" and loss: "loss_inv S (unat (mb_capacity_per_series (ss_mb s))) (ss_sr s) (ss_log s)"
    using assms(1) by (simp_all add: full_inv_def)
  note d = data_invD [OF stream_invD(1) [OF inv]]
  have k: "k \<in> dom S" using d(3) assms(2) by blast
  have "mb_capacity_per_series (ss_mb s) \<noteq> 0" using assms(2,3) by auto
  with d(2) [OF k] have h: "hist_of S k = samples_for k (ss_metrics s)" by simp
  from take_snapshot_ok [OF d(1) k] obtain sn where "take_snapshot k (ss_mb s) = Inr sn"
    "snap_samples sn = drop (gone_of S k) (hist_of S k)" by blast
  with loss_invD(1) [OF loss, of k] assms(3) h show ?thesis by simp
qed

lemma full_inv_sent:
  assumes "full_inv s S"
  shows "subseq (sent_samples k s) (samples_for k (ss_metrics s))"
proof -
  have inv: "stream_inv s S" using assms by (simp add: full_inv_def)
  note i = stream_invD [OF inv]
  from log_stretches [OF i(2)] hist_collected [OF i(1)] show ?thesis
    unfolding sent_samples_def by (rule subseq_order.order_trans)
qed

section \<open>Properties\<close>

text \<open>
  C13.  However the threads interleave, no operation of the reactor fails: the polling thread
  never dereferences a missing series, \<^verbatim>\<open>OnWriteDone\<close> never pops an empty queue, an
  acknowledgement (known or unknown) is handled, and new metrics can always be added.  Counters
  are 64 bits wide: the claim is for runs of fewer than \<open>2 ^ 64\<close> metrics and batches.
\<close>

theorem stream_never_fails:
  assumes "stream_reachable cfg s" "bounded s"
  shows "is_ok (poll_step (ss_mb s) (ss_sr s)) \<and>
    (sr_writing (ss_sr s) \<longrightarrow> is_ok (StreamMetricsReactor_OnWriteDone ok (ss_sr s))) \<and>
    is_ok (StreamMetricsReactor_OnReadDone ok ack (ss_mb s, ss_sr s)) \<and>
    (length (ss_metrics s @ ms) < 2 ^ 64 \<longrightarrow> is_ok (AddMetrics ms (ss_mb s)))"
proof -
  obtain S where inv: "stream_inv s S" using reachable_full [OF assms] by (auto simp: full_inv_def)
  have "is_ok (poll_step (ss_mb s) (ss_sr s))"
    using inv_poll [OF inv] assms(2) by (auto simp: bounded_def)
  moreover have "sr_writing (ss_sr s) \<longrightarrow> is_ok (StreamMetricsReactor_OnWriteDone ok (ss_sr s))"
    using inv_write_done [OF inv] by (auto simp: StreamMetricsReactor_OnWriteDone_def)
  moreover have "is_ok (StreamMetricsReactor_OnReadDone ok ack (ss_mb s, ss_sr s))"
  proof (cases "sr_pending (ss_sr s) (ack_batch_id ack)")
    case (Some e)
    with inv_read_done [OF inv, of "ack_batch_id ack" "fst e" "snd e"] show ?thesis
      by (auto simp: StreamMetricsReactor_OnReadDone_def split: prod.split)
  qed (simp add: StreamMetricsReactor_OnReadDone_def)
  moreover have "length (ss_metrics s @ ms) < 2 ^ 64 \<longrightarrow> is_ok (AddMetrics ms (ss_mb s))"
    using inv_collect [OF inv, of ms] by auto
  ultimately show ?thesis by blast
qed

theorem stream_never_fails_witness:
  "\<exists>t. res_fold stream_act_step demo_acts demo_start = Inr t \<and> sr_writing (ss_sr t) \<and>
     is_ok (StreamMetricsReactor_OnWriteDone True (ss_sr t))"
  using demo_run stream_run_reachable [OF demo_start_reachable] stream_never_fails by metis

text \<open>
  C12.  The batches handed to \<^verbatim>\<open>StartWrite\<close> are, in order, the first of the batches the polling
  thread has built, and their ids count 0, 1, 2, \<dots>: none is skipped, repeated or reordered.
\<close>

theorem stream_batches_in_order:
  assumes "stream_reachable cfg s" "bounded s"
  shows "sr_started (ss_sr s) = map batch_of (take (length (sr_started (ss_sr s))) (ss_log s)) \<and>
    map batch_id (sr_started (ss_sr s)) = map of_nat [0..<length (sr_started (ss_sr s))]"
proof -
  obtain S where inv: "stream_inv s S" using reachable_full [OF assms] by (auto simp: full_inv_def)
  let ?n = "length (sr_started (ss_sr s))"
  have st: "sr_started (ss_sr s) = map batch_of (take ?n (ss_log s))" by (rule started_log [OF inv])
  then have le: "?n \<le> length (ss_log s)" by (metis length_map length_take min.bounded_iff order_refl)
  have "map batch_id (map batch_of (take ?n (ss_log s))) = take ?n (map fst (ss_log s))"
    by (simp add: comp_def take_map)
  also have "\<dots> = map of_nat [0..<?n]"
    unfolding log_invD(1) [OF stream_invD(2) [OF inv]] using le by (simp add: take_map)
  finally show ?thesis using st by metis
qed

theorem stream_batches_in_order_witness:
  "\<exists>t. res_fold stream_act_step demo_acts demo_start = Inr t \<and> map batch_id (sr_started (ss_sr t)) = [0]"
proof -
  obtain t where t: "res_fold stream_act_step demo_acts demo_start = Inr t" "bounded t"
    "sr_started (ss_sr t) = [make_batch 0 demo_key demo_snapshot]" using demo_run by blast
  from conjunct2 [OF stream_batches_in_order [OF stream_run_reachable [OF demo_start_reachable t(1)] t(2)]]
  have "map batch_id (sr_started (ss_sr t)) = map of_nat [0..<length [make_batch 0 demo_key demo_snapshot]]"
    unfolding t(3) .
  with t(1) show ?thesis by (intro exI [of _ t]) simp
qed

text \<open>
  C11.  No sample is sent twice and none overtakes another: the samples of a series in the
  batches started so far are a subsequence of the samples collected for it.
\<close>

theorem stream_sends_each_sample_once:
  assumes "stream_reachable cfg s" "bounded s"
  shows "subseq (sent_samples k s) (samples_for k (ss_metrics s))"
  using reachable_full [OF assms] full_inv_sent by blast

theorem stream_sends_each_sample_once_witness:
  "\<exists>t. res_fold stream_act_step demo_acts demo_start = Inr t \<and>
     subseq (sent_samples demo_key t) [sample_of (gpu_metric 0)]"
proof -
  obtain t where t: "res_fold stream_act_step demo_acts demo_start = Inr t" "bounded t"
    "ss_metrics t = [gpu_metric 0]" using demo_run by blast
  from stream_sends_each_sample_once [OF stream_run_reachable [OF demo_start_reachable t(1)] t(2), of demo_key] t
  show ?thesis by (simp add: demo_key_def gpu_metric_def)
qed



text \<open>
  C28.  A batch that has been handed to \<^verbatim>\<open>StartWrite\<close> is already among the pending snapshots, or
  its acknowledgement has been handled: the first acknowledgement of a batch is never taken for
  an unknown one, so the race the comment in \<^verbatim>\<open>OnReadDone\<close> describes cannot occur.
\<close>

theorem started_batch_is_registered:
  assumes "stream_reachable cfg s" "bounded s" "b \<in> set (sr_started (ss_sr s))"
  shows "sr_pending (ss_sr s) (batch_id b) \<noteq> None \<or> batch_id b \<in> ss_acked s"
proof -
  obtain S where inv: "stream_inv s S" using reachable_full [OF assms(1,2)] by (auto simp: full_inv_def)
  have "b \<in> batch_of ` set (ss_log s)"
    using assms(3) by (subst (asm) started_log [OF inv]) (auto dest: in_set_takeD)
  then obtain e where "e \<in> set (ss_log s)" "b = batch_of e" by blast
  with log_invD(5) [OF stream_invD(2) [OF inv], of "fst e" "fst (snd e)" "snd (snd e)"] show ?thesis by auto
qed

theorem started_batch_is_registered_witness:
  "\<exists>t. res_fold stream_act_step demo_acts demo_start = Inr t \<and> (sr_pending (ss_sr t) 0 \<noteq> None \<or> 0 \<in> ss_acked t)"
proof -
  obtain t where t: "res_fold stream_act_step demo_acts demo_start = Inr t" "bounded t"
    "sr_started (ss_sr t) = [make_batch 0 demo_key demo_snapshot]" using demo_run by blast
  from started_batch_is_registered [OF stream_run_reachable [OF demo_start_reachable t(1)] t(2),
      of "make_batch 0 demo_key demo_snapshot"] t show ?thesis by (simp add: make_batch_def)
qed



text \<open>
  C29.  The header the server receives names the device the metric was collected on: for a
  CPU, GPU, disk or network metric whose device numbers fit the key, \<^verbatim>\<open>EnqueueMetrics\<close> rebuilds
  from the key the device \<^verbatim>\<open>MakeBufferKey\<close> was given.
\<close>

theorem device_survives_the_key:
  assumes "devId m = Some d" "dev_in_range d" "kind_of_type (sint (MetricType_value (metric_type m))) d"
  shows "device_of_key (MakeBufferKey m) = Some d"
  using assms by (cases d) (auto simp: device_of_key_def type_between_def MakeBufferKey_def Let_def ucast_back)

theorem device_survives_the_key_witness:
  "device_of_key (MakeBufferKey (gpu_metric 0)) = devId (gpu_metric 0)"
  using device_survives_the_key [of "gpu_metric 0" "the (devId (gpu_metric 0))"] by (simp add: gpu_metric_def)

end
