(* ===== verification/Utils.thy ===== *)
theory Utils
  imports Agent_Config
begin

text \<open>
  utils/utils.cc.  \<^verbatim>\<open>inet_pton\<close> and \<^verbatim>\<open>getaddrinfo\<close> belong to the C library and the network: they are
  arguments.  The two draws of the 64-bit random generator are the arguments of
  \<open>GenerateUUIDv4\<close>.
\<close>

section \<open>Operations\<close>

definition utils_PrintCurrentAffinity :: "cpu_set option \<Rightarrow> int \<Rightarrow> string" where
  "utils_PrintCurrentAffinity affinity max_cpus = (case affinity of
     None \<Rightarrow> ''''
   | Some s \<Rightarrow> ''Current CPU affinity: '' @
       concat (map (\<lambda>i. show_nat i @ '' '') (filter (\<lambda>i. i \<in> s \<and> i < CPU_SETSIZE) [0..<nat max_cpus]))
       @ [CHR 0x0A])"

text \<open>\<^verbatim>\<open>c_str()\<close> as the C functions read it: up to the first NUL.\<close>

definition c_str :: "string \<Rightarrow> string" where
  "c_str s = takeWhile (\<lambda>c. c \<noteq> CHR 0x00) s"

datatype addr_family = AF_INET | AF_INET6

definition IsValidIP :: "(addr_family \<Rightarrow> string \<Rightarrow> int) \<Rightarrow> string \<Rightarrow> bool" where
  "IsValidIP inet_pton ip = (inet_pton AF_INET (c_str ip) = 1 \<or> inet_pton AF_INET6 (c_str ip) = 1)"

definition IsResolvable :: "(string \<Rightarrow> int) \<Rightarrow> string \<Rightarrow> bool" where
  "IsResolvable getaddrinfo host = (getaddrinfo (c_str host) = 0)"

definition uuid_mask_a :: "u64 \<Rightarrow> u64" where
  "uuid_mask_a a = (a AND 0xffffffffffff0fff) OR 0x0000000000004000"

definition uuid_mask_b :: "u64 \<Rightarrow> u64" where
  "uuid_mask_b b = (b AND 0x3fffffffffffffff) OR 0x8000000000000000"

definition uuid_print :: "u64 \<Rightarrow> u64 \<Rightarrow> string" where
  "uuid_print a b =
     show_hex 8 (unat (drop_bit 32 a)) @ ''-'' @
     show_hex 4 (unat (drop_bit 16 a AND 0xffff)) @ ''-'' @
     show_hex 4 (unat (a AND 0xffff)) @ ''-'' @
     show_hex 4 (unat (drop_bit 48 b)) @ ''-'' @
     show_hex 12 (unat (b AND 0x0000ffffffffffff))"

definition GenerateUUIDv4 :: "u64 \<Rightarrow> u64 \<Rightarrow> string" where
  "GenerateUUIDv4 a b = uuid_print (uuid_mask_a a) (uuid_mask_b b)"

section \<open>Fixed-width hexadecimal\<close>

lemma hex_digits_small: "n < 16 \<Longrightarrow> hex_digits n = [hex_char n]"
  by (simp add: hex_digits.simps)

lemma hex_char_0 [simp]: "hex_char 0 = CHR ''0''"
  by code_simp

lemma show_hex_snoc:
  assumes "0 < w"
  shows "show_hex (Suc w) n = show_hex w (n div 16) @ [hex_char (n mod 16)]"
proof (cases "n < 16")
  case True
  obtain v where "w = Suc v" using assms by (cases w) auto
  with True show ?thesis
    by (simp add: show_hex_def hex_digits_small replicate_append_same [symmetric])
next
  case False
  then have "hex_digits n = hex_digits (n div 16) @ [hex_char (n mod 16)]" by (subst hex_digits.simps) simp
  then show ?thesis by (simp add: show_hex_def)
qed

lemma show_hex_1: "n < 16 \<Longrightarrow> show_hex (Suc 0) n = [hex_char n]"
  by (simp add: show_hex_def hex_digits_small)

text \<open>With room for the number, every position holds its own digit.\<close>

lemma show_hex_digits:
  "n < 16 ^ Suc w \<Longrightarrow> show_hex (Suc w) n = map (\<lambda>i. hex_char (n div 16 ^ (w - i) mod 16)) [0..<Suc w]"
proof (induction w arbitrary: n)
  case 0
  then show ?case by (simp add: show_hex_1)
next
  case (Suc w)
  have "n div 16 < 16 ^ Suc w" using Suc.prems by (simp add: less_mult_imp_div_less)
  from Suc.IH [OF this] have "show_hex (Suc (Suc w)) n =
      map (\<lambda>i. hex_char (n div 16 div 16 ^ (w - i) mod 16)) [0..<Suc w] @ [hex_char (n mod 16)]"
    by (simp add: show_hex_snoc)
  also have "map (\<lambda>i. hex_char (n div 16 div 16 ^ (w - i) mod 16)) [0..<Suc w]
      = map (\<lambda>i. hex_char (n div 16 ^ (Suc w - i) mod 16)) [0..<Suc w]"
    by (auto simp: Suc_diff_le div_mult2_eq)
  finally show ?case by simp
qed

definition hex_val :: "char \<Rightarrow> nat" where
  "hex_val c = (if is_digit c then of_char c - 48 else of_char c - 87)"

definition is_hex :: "char \<Rightarrow> bool" where
  "is_hex c = (is_digit c \<or> (97 \<le> (of_char c :: nat) \<and> (of_char c :: nat) \<le> 102))"

lemma hex_char_props [simp]:
  assumes "n < 16"
  shows "hex_val (hex_char n) = n" "is_hex (hex_char n)"
  using assms by (auto simp: hex_val_def hex_char_def is_hex_def is_digit_def)

text \<open>Reading the digits back.\<close>

definition read_hex :: "string \<Rightarrow> nat" where
  "read_hex s = foldl (\<lambda>n c. 16 * n + hex_val c) 0 s"

lemma read_show_hex: "n < 16 ^ Suc w \<Longrightarrow> read_hex (show_hex (Suc w) n) = n"
proof (induction w arbitrary: n)
  case 0
  then show ?case by (simp add: show_hex_1 read_hex_def)
next
  case (Suc w)
  have "n div 16 < 16 ^ Suc w" using Suc.prems by (simp add: less_mult_imp_div_less)
  from Suc.IH [OF this] show ?case by (simp add: show_hex_snoc read_hex_def)
qed

lemma show_hex_fixed:
  assumes "n < 16 ^ w" "0 < w"
  shows "length (show_hex w n) = w" "\<forall>c \<in> set (show_hex w n). is_hex c" "read_hex (show_hex w n) = n"
    "hd (show_hex w n) = hex_char (n div 16 ^ (w - 1))"
proof -
  obtain v where v: "w = Suc v" using assms(2) by (cases w) auto
  show "length (show_hex w n) = w" "\<forall>c \<in> set (show_hex w n). is_hex c"
    using assms(1) unfolding v by (auto simp: show_hex_digits)
  show "read_hex (show_hex w n) = n" using assms(1) unfolding v by (rule read_show_hex)
  have "n div 16 ^ v < 16" using assms(1) v by (simp add: less_mult_imp_div_less)
  then show "hd (show_hex w n) = hex_char (n div 16 ^ (w - 1))"
    using assms(1) unfolding v by (simp add: show_hex_digits hd_map upt_conv_Cons del: upt_Suc)
qed

lemma show_hex_inj: "m < 16 ^ w \<Longrightarrow> n < 16 ^ w \<Longrightarrow> 0 < w \<Longrightarrow> show_hex w m = show_hex w n \<longleftrightarrow> m = n"
  by (metis show_hex_fixed(3))

section \<open>The fields of a UUID\<close>

lemma unat_and_mask: "unat (w AND mask k :: u64) = unat w mod 2 ^ k"
  by (simp only: take_bit_eq_mask [symmetric] unsigned_take_bit_eq take_bit_eq_mod [of k "unat w"])

lemma masks:
  "(0xffff :: u64) = mask 16" "(0x0000ffffffffffff :: u64) = mask 48"
  by (simp_all add: mask_eq_exp_minus_1)

lemma unat_drop64: "unat (drop_bit k w :: u64) = unat w div 2 ^ k"
proof -
  have "unat (drop_bit k w) = drop_bit k (take_bit LENGTH(64) (unat w))" by (simp only: unsigned_drop_bit_eq)
  then show ?thesis using unat64_bound [of w] by (simp add: drop_bit_eq_div take_bit_nat_eq_self)
qed

definition uuid_fields :: "u64 \<Rightarrow> u64 \<Rightarrow> nat list" where
  "uuid_fields a b = [unat a div 2 ^ 32, unat a div 2 ^ 16 mod 2 ^ 16, unat a mod 2 ^ 16,
     unat b div 2 ^ 48, unat b mod 2 ^ 48]"

lemma uuid_print_fields:
  "uuid_print a b = show_hex 8 (uuid_fields a b ! 0) @ ''-'' @ show_hex 4 (uuid_fields a b ! 1) @ ''-'' @
     show_hex 4 (uuid_fields a b ! 2) @ ''-'' @ show_hex 4 (uuid_fields a b ! 3) @ ''-'' @
     show_hex 12 (uuid_fields a b ! 4)"
  by (simp add: uuid_print_def uuid_fields_def masks unat_and_mask unat_drop64)

lemma uuid_fields_bounds:
  "uuid_fields a b ! 0 < 16 ^ 8" "uuid_fields a b ! 1 < 16 ^ 4" "uuid_fields a b ! 2 < 16 ^ 4"
  "uuid_fields a b ! 3 < 16 ^ 4" "uuid_fields a b ! 4 < 16 ^ 12"
  using unat64_bound [of a] unat64_bound [of b] by (simp_all add: uuid_fields_def)

lemmas uuid_hex = uuid_fields_bounds [THEN show_hex_fixed(1)] uuid_fields_bounds [THEN show_hex_fixed(2)]
  uuid_fields_bounds [THEN show_hex_fixed(3)] uuid_fields_bounds [THEN show_hex_fixed(4)]

lemma uuid_words_from_fields:
  assumes "uuid_fields a b = uuid_fields a' b'"
  shows "a = a' \<and> b = b'"
proof -
  have split: "(w :: u64) = w'" if "unat w div 2 ^ k = unat w' div 2 ^ k" "unat w mod 2 ^ k = unat w' mod 2 ^ k" for w w' k
    using that by (metis div_mult_mod_eq word_unat_eq_iff)
  have lo: "unat w div 2 ^ 16 div 2 ^ 16 = unat w div (2 ^ 32 :: nat)" for w :: u64
    by (simp add: div_mult2_eq [symmetric])
  have "unat a div 2 ^ 16 = unat a' div 2 ^ 16"
    using assms lo [of a] lo [of a'] unfolding uuid_fields_def by (metis div_mult_mod_eq list.inject)
  with assms split [of a 16 a'] split [of b 48 b'] show ?thesis by (simp add: uuid_fields_def)
qed

lemma groups_eq:
  assumes "length p = length p'" "length q = length q'" "length r = length r'" "length s = length s'"
    "p @ x @ q @ x @ r @ x @ s @ x @ t = p' @ x @ q' @ x @ r' @ x @ s' @ x @ t'"
  shows "p = p' \<and> q = q' \<and> r = r' \<and> s = s' \<and> t = t'"
  using assms by simp

lemma five_eqI:
  assumes "length xs = 5" "length ys = 5" "xs ! 0 = ys ! 0" "xs ! 1 = ys ! 1" "xs ! 2 = ys ! 2" "xs ! 3 = ys ! 3"
    "xs ! 4 = ys ! 4"
  shows "xs = ys"
proof (rule nth_equalityI)
  fix i assume "i < length xs"
  then have "i \<in> {0, 1, 2, 3, 4}" using assms(1) by auto
  then show "xs ! i = ys ! i" using assms by auto
qed (simp add: assms)

lemma uuid_print_inj:
  assumes eq: "uuid_print x y = uuid_print x' y'"
  shows "x = x' \<and> y = y'"
proof -
  let ?f = "uuid_fields x y" and ?g = "uuid_fields x' y'"
  have h: "show_hex 8 (?f ! 0) = show_hex 8 (?g ! 0) \<and> show_hex 4 (?f ! 1) = show_hex 4 (?g ! 1) \<and>
    show_hex 4 (?f ! 2) = show_hex 4 (?g ! 2) \<and> show_hex 4 (?f ! 3) = show_hex 4 (?g ! 3) \<and>
    show_hex 12 (?f ! 4) = show_hex 12 (?g ! 4)"
    by (rule groups_eq [OF _ _ _ _ eq [unfolded uuid_print_fields]])
      (simp_all add: uuid_hex del: One_nat_def)
  note inj = show_hex_inj [THEN iffD1]
  have "?f ! 0 = ?g ! 0" by (rule inj [OF uuid_fields_bounds(1) uuid_fields_bounds(1)]) (use h in simp_all)
  moreover have "?f ! 1 = ?g ! 1"
    by (rule inj [OF uuid_fields_bounds(2) uuid_fields_bounds(2)]) (use h in simp_all)
  moreover have "?f ! 2 = ?g ! 2"
    by (rule inj [OF uuid_fields_bounds(3) uuid_fields_bounds(3)]) (use h in simp_all)
  moreover have "?f ! 3 = ?g ! 3"
    by (rule inj [OF uuid_fields_bounds(4) uuid_fields_bounds(4)]) (use h in simp_all)
  moreover have "?f ! 4 = ?g ! 4"
    by (rule inj [OF uuid_fields_bounds(5) uuid_fields_bounds(5)]) (use h in simp_all)
  moreover have "length ?f = 5" "length ?g = 5" by (simp_all add: uuid_fields_def)
  ultimately have "?f = ?g" by (intro five_eqI)
  then show ?thesis by (rule uuid_words_from_fields)
qed

text \<open>The masks force the version and the variant.\<close>

lemma uuid_version: "uuid_fields (uuid_mask_a a) b ! 2 div 16 ^ 3 = 4"
proof -
  have "drop_bit 12 (uuid_mask_a a AND 0xffff) = 4"
    by (simp add: uuid_mask_a_def drop_bit_and drop_bit_or bit.conj_disj_distrib2 and.assoc)
  then have "unat (uuid_mask_a a AND mask 16) div 2 ^ 12 = 4"
    unfolding masks(1) [symmetric] unat_drop64 [symmetric] by simp
  then show ?thesis by (simp add: uuid_fields_def unat_and_mask)
qed

lemma uuid_variant: "uuid_fields a (uuid_mask_b b) ! 3 div 16 ^ 3 \<in> {8, 9, 10, 11}"
proof -
  have "drop_bit 62 (uuid_mask_b b) = 2"
    by (simp add: uuid_mask_b_def drop_bit_and drop_bit_or)
  then have "unat (drop_bit 62 (uuid_mask_b b)) = 2" by simp
  then have "unat (uuid_mask_b b) div 2 ^ 62 = 2" by (simp add: unat_drop64)
  then have "unat (uuid_mask_b b) div 2 ^ 60 div 4 = 2" by (simp add: div_mult2_eq [symmetric])
  then have "unat (uuid_mask_b b) div 2 ^ 60 \<in> {8, 9, 10, 11}" by (auto simp del: power_numeral)
  then show ?thesis by (simp add: uuid_fields_def div_mult2_eq [symmetric])
qed

section \<open>Properties\<close>

text \<open>
  Every string \<^verbatim>\<open>GenerateUUIDv4\<close> returns has the shape of a version 4, variant 1 UUID,
  whatever was drawn: groups of 8, 4, 4, 4 and 12 lower-case hexadecimal digits separated by
  hyphens, the third beginning with 4 and the fourth with one of 8, 9, a, b.
\<close>

lemma GenerateUUIDv4_shape:
  "\<exists>p q r s t. GenerateUUIDv4 a b = p @ ''-'' @ q @ ''-'' @ r @ ''-'' @ s @ ''-'' @ t \<and>
     map length [p, q, r, s, t] = [8, 4, 4, 4, 12] \<and> (\<forall>c \<in> set (p @ q @ r @ s @ t). is_hex c) \<and>
     hd r = CHR ''4'' \<and> hd s \<in> set ''89ab''"
proof -
  let ?f = "uuid_fields (uuid_mask_a a) (uuid_mask_b b)"
  let ?p = "show_hex 8 (?f ! 0)" and ?q = "show_hex 4 (?f ! 1)" and ?r = "show_hex 4 (?f ! 2)"
    and ?s = "show_hex 4 (?f ! 3)" and ?t = "show_hex 12 (?f ! 4)"
  have u: "GenerateUUIDv4 a b = ?p @ ''-'' @ ?q @ ''-'' @ ?r @ ''-'' @ ?s @ ''-'' @ ?t"
    by (simp only: GenerateUUIDv4_def uuid_print_fields)
  have len: "map length [?p, ?q, ?r, ?s, ?t] = [8, 4, 4, 4, 12]" by (simp add: uuid_hex del: One_nat_def)
  have hex: "\<forall>c \<in> set (?p @ ?q @ ?r @ ?s @ ?t). is_hex c" by (simp add: ball_Un uuid_hex del: One_nat_def)
  have "hex_char 4 = CHR ''4''" by code_simp
  then have r: "hd ?r = CHR ''4''" using uuid_hex(18) [of "uuid_mask_a a" "uuid_mask_b b"] uuid_version by simp
  have "\<forall>n \<in> {8, 9, 10, 11}. hex_char n \<in> set ''89ab''" by code_simp
  then have "hex_char (?f ! 3 div 16 ^ 3) \<in> set ''89ab''" using uuid_variant by blast
  then have s: "hd ?s \<in> set ''89ab''" using uuid_hex(19) [of "uuid_mask_a a" "uuid_mask_b b"] by simp
  show ?thesis by (intro exI conjI) (rule u len hex r s)+
qed

text \<open>
  \<^verbatim>\<open>GenerateUUIDv4\<close> loses no randomness beyond the six fixed bits: two draws give the same
  string exactly if they agree on all the others.
\<close>

lemma GenerateUUIDv4_injective:
  "(GenerateUUIDv4 a b = GenerateUUIDv4 a' b') = (uuid_mask_a a = uuid_mask_a a' \<and> uuid_mask_b b = uuid_mask_b b')"
  unfolding GenerateUUIDv4_def using uuid_print_inj by metis

end
