(* ===== verification/Exporter.thy ===== *)
theory Exporter
  imports Agent_Config Floating
begin

text \<open>
  exporter.h / exporter.cc: metrics are appended to a CSV file while an export is active.

  \<^verbatim>\<open>std::filesystem::exists\<close>, the printed clock, the printed form of a \<^verbatim>\<open>double\<close> and whether
  \<^verbatim>\<open>ofstream::open\<close> succeeds are arguments.  An \<^verbatim>\<open>ofstream\<close> is the path it has open, or none;
  the files are a map from paths to contents.  Output to a stream with no open file is dropped.
\<close>

type_synonym files = "string \<rightharpoonup> string"

record Exporter =
  dump_file :: "string option"
  ex_dump_dir :: string
  is_exporting :: bool

text \<open>What the exporter asks of the system: the directories that exist, the printed form of the
  current time, whether a file can be opened.\<close>

record export_env =
  dir_exists :: "string \<Rightarrow> bool"
  clock_text :: string
  can_open :: "string \<Rightarrow> bool"

section \<open>Operations\<close>

definition Exporter_new :: "(string \<Rightarrow> bool) \<Rightarrow> Config \<Rightarrow> Exporter" where
  "Exporter_new exists cfg =
     \<lparr>dump_file = None, ex_dump_dir = (if exists (dump_dir cfg) then dump_dir cfg else ''''),
      is_exporting = False\<rparr>"

definition IsActive :: "Exporter \<Rightarrow> bool" where
  "IsActive e = is_exporting e"

text \<open>\<^verbatim>\<open>static_cast<int>\<close> of the \<^verbatim>\<open>uint32\<close> fields; the others are printed unsigned.\<close>

definition show_u32 :: "u32 \<Rightarrow> string" where
  "show_u32 w = show_nat (unat w)"

definition show_as_int :: "u32 \<Rightarrow> string" where
  "show_as_int w = show_int (sint w)"

definition DescribeDevice :: "Metric \<Rightarrow> string" where
  "DescribeDevice m = (case devId m of
     None \<Rightarrow> ''system''
   | Some (Gpu g) \<Rightarrow> ''gpu='' @ show_u32 (pci_domain g) @ '':'' @ show_as_int (pci_bus g) @ '':'' @
       show_as_int (pci_device g) @ ''.'' @ show_as_int (pci_function g)
   | Some (Cpu c) \<Rightarrow> ''cpu='' @ show_as_int (socket_index c) @ ''/'' @ show_u32 (core_index c)
   | Some (Net n) \<Rightarrow> ''net_ifindex='' @ show_u32 (ifindex n)
   | Some (Disk d) \<Rightarrow> ''disk='' @ show_u32 (disk_major d) @ '':'' @ show_u32 (disk_minor d))"

definition newline :: string where
  "newline = [CHR 0x0A]"

definition dump_line :: "name_fun \<Rightarrow> (double \<Rightarrow> string) \<Rightarrow> Metric \<Rightarrow> string" where
  "dump_line type_name show_double m =
     type_name (metric_type m) @ '';'' @ DescribeDevice m @ '';'' @ show_int (sint (timestamp m)) @ '';'' @
     show_double (metric_value m) @ newline"

definition append_file :: "string option \<Rightarrow> string \<Rightarrow> files \<Rightarrow> files" where
  "append_file f text fs = (case f of
     None \<Rightarrow> fs
   | Some path \<Rightarrow> fs(path \<mapsto> (case fs path of None \<Rightarrow> '''' | Some old \<Rightarrow> old) @ text))"

definition Dump :: "name_fun \<Rightarrow> (double \<Rightarrow> string) \<Rightarrow> Metric list \<Rightarrow> Exporter \<Rightarrow> files \<Rightarrow> files" where
  "Dump type_name show_double metrics e fs =
     (if \<not> IsActive e then fs
      else fold (\<lambda>m. append_file (dump_file e) (dump_line type_name show_double m)) metrics fs)"

definition dump_header :: string where
  "dump_header = ''metric_type;device_id;timestamp;value'' @ newline"

text \<open>\<^verbatim>\<open>open\<close> truncates the file; when it fails the stream stays closed.  A stream that is already
  open refuses to open again (it is closed by \<open>EndDump\<close> first).\<close>

definition StartDump :: "export_env \<Rightarrow> string option \<Rightarrow> Exporter \<times> files \<Rightarrow> Exporter \<times> files" where
  "StartDump env dump_dir_overload st = (let (e, fs) = st in
     if is_exporting e then st
     else let dir = (case dump_dir_overload of Some d \<Rightarrow> d | None \<Rightarrow> ex_dump_dir e) in
       if \<not> dir_exists env dir then st
       else let path = dir @ ''/dump_'' @ clock_text env @ ''.csv'';
                opened = (dump_file e = None \<and> can_open env path);
                f = (if opened then Some path else dump_file e);
                fs = (if opened then fs(path \<mapsto> '''') else fs)
            in (e\<lparr>dump_file := f, is_exporting := True\<rparr>, append_file f dump_header fs))"

definition EndDump :: "Exporter \<Rightarrow> Exporter" where
  "EndDump e = e\<lparr>dump_file := None, is_exporting := False\<rparr>"

section \<open>Printed numbers can be told apart\<close>

lemma show_nat_inj [simp]: "show_nat m = show_nat n \<longleftrightarrow> m = n"
  by (metis show_nat_value)

lemma show_int_inj [simp]: "show_int i = show_int j \<longleftrightarrow> i = j"
proof -
  have "show_nat n \<noteq> CHR ''-'' # s" for s n
    using show_nat_hd [of n] digit_not_sign [of "CHR ''-''"] by auto
  then have "CHR ''-'' # s \<noteq> show_nat n" "show_nat n \<noteq> CHR ''-'' # s" for s n by metis+
  then show ?thesis by (simp add: show_int_def) arith
qed

definition is_num :: "string \<Rightarrow> bool" where
  "is_num s = (\<forall>c \<in> set s. is_digit c \<or> c = CHR ''-'')"

lemma is_num_show [simp]: "is_num (show_u32 w)" "is_num (show_as_int w)"
  using show_nat_digits by (auto simp: is_num_def show_u32_def show_as_int_def show_int_def)

lemma show_words_inj [simp]:
  "show_u32 a = show_u32 b \<longleftrightarrow> a = b" "show_as_int a = show_as_int b \<longleftrightarrow> a = b"
  by (simp_all add: show_u32_def show_as_int_def word_eq_iff_unsigned [symmetric])
    (simp add: word_eq_iff_signed [symmetric])

text \<open>A separator that is neither a digit nor a sign ends a number.\<close>

lemma num_sep:
  assumes "is_num x" "is_num x'" "\<not> is_digit c" "c \<noteq> CHR ''-''"
  shows "x @ c # y = x' @ c # y' \<longleftrightarrow> x = x' \<and> y = y'"
proof
  have "takeWhile (\<lambda>d. d \<noteq> c) (z @ c # w) = z" if "is_num z" for z w
  proof -
    have "\<forall>d \<in> set z. d \<noteq> c" using that assms(3,4) by (auto simp: is_num_def)
    then have "takeWhile (\<lambda>d. d \<noteq> c) (z @ c # w) = z @ takeWhile (\<lambda>d. d \<noteq> c) (c # w)"
      by (intro takeWhile_append2) simp
    then show ?thesis by simp
  qed
  moreover assume "x @ c # y = x' @ c # y'"
  ultimately show "x = x' \<and> y = y'" using assms(1,2) by (metis append_eq_append_conv list.inject)
qed simp

lemma separators [simp]: "\<not> is_digit CHR '':''" "\<not> is_digit CHR ''.''" "\<not> is_digit CHR ''/''"
  by (simp_all add: is_digit_def)

lemma fold_append_file:
  assumes "fs path = Some old"
  shows "fold (\<lambda>m. append_file (Some path) (f m)) ms fs = fs(path \<mapsto> old @ concat (map f ms))"
  using assms by (induction ms arbitrary: fs old) (auto simp: append_file_def fun_upd_idem)

lemma fold_append_none: "fold (\<lambda>m. append_file None (f m)) ms fs = fs"
  by (induction ms) (simp_all add: append_file_def)

lemma fold_Dump:
  assumes "IsActive e" "dump_file e = Some path" "fs path = Some old"
  shows "fold (\<lambda>ms. Dump tn sd ms e) batches fs = fs(path \<mapsto> old @ concat (map (dump_line tn sd) (concat batches)))"
  using assms
proof (induction batches arbitrary: fs old)
  case (Cons ms batches)
  from Cons.prems have "Dump tn sd ms e fs = fs(path \<mapsto> old @ concat (map (dump_line tn sd) ms))"
    by (simp add: Dump_def fold_append_file)
  with Cons.IH [of "Dump tn sd ms e fs" "old @ concat (map (dump_line tn sd) ms)"] Cons.prems show ?case
    by (simp only: fold_simps fun_upd_same fun_upd_upd comp_apply concat.simps map_append concat_append append_assoc
        simp_thms)
qed (auto simp: fun_upd_idem)

section \<open>Properties\<close>

text \<open>
  An export writes exactly one new file: once started in a directory that exists, the
  metrics dumped from then on follow the header line in order, one line each, and no other file
  changes; after \<^verbatim>\<open>EndDump\<close> nothing more is written.
\<close>

lemma export_session:
  assumes "\<not> is_exporting e" "dump_file e = None" "dir_exists env dir" "can_open env path"
    "path = dir @ ''/dump_'' @ clock_text env @ ''.csv''"
    "StartDump env (Some dir) (e, fs) = (e1, fs1)"
  shows "fold (\<lambda>ms. Dump tn sd ms e1) batches fs1
      = fs(path \<mapsto> dump_header @ concat (map (dump_line tn sd) (concat batches))) \<and>
    Dump tn sd ms (EndDump e1) fs2 = fs2"
proof -
  have e1: "e1 = e\<lparr>dump_file := Some path, is_exporting := True\<rparr>" "fs1 = fs(path \<mapsto> dump_header)"
    using assms by (simp_all add: StartDump_def append_file_def Let_def)
  then have "fold (\<lambda>ms. Dump tn sd ms e1) batches fs1
      = fs1(path \<mapsto> dump_header @ concat (map (dump_line tn sd) (concat batches)))"
    by (intro fold_Dump) (simp_all add: IsActive_def)
  with e1 show ?thesis by (simp add: Dump_def EndDump_def IsActive_def)
qed

definition example_env :: export_env where
  "example_env = \<lparr>dir_exists = (\<lambda>d. d = ''/tmp''), clock_text = ''t0'', can_open = (\<lambda>_. True)\<rparr>"

definition idle_exporter :: Exporter where
  "idle_exporter = \<lparr>dump_file = None, ex_dump_dir = '''', is_exporting = False\<rparr>"

lemma export_session_example:
  "\<exists>e1 fs1. StartDump example_env (Some ''/tmp'') (idle_exporter, Map.empty) = (e1, fs1) \<and>
     fold (\<lambda>ms. Dump MetricType_table_name (\<lambda>_. ''1'') ms e1) [[default_Metric]] fs1
       = [''/tmp/dump_t0.csv'' \<mapsto> dump_header @ dump_line MetricType_table_name (\<lambda>_. ''1'') default_Metric]"
proof -
  obtain e1 fs1 where s: "StartDump example_env (Some ''/tmp'') (idle_exporter, Map.empty) = (e1, fs1)"
    by (cases "StartDump example_env (Some ''/tmp'') (idle_exporter, Map.empty)")
  from export_session [OF _ _ _ _ refl s, of MetricType_table_name "\<lambda>_. ''1''" "[[default_Metric]]"] s show ?thesis
    by (simp add: idle_exporter_def example_env_def)
qed

text \<open>
  The device column identifies the device: two metrics get the same description exactly
  when they come from the same device.
\<close>

lemma DescribeDevice_identifies:
  "(DescribeDevice m = DescribeDevice m') = (devId m = devId m')"
  unfolding DescribeDevice_def
  by (auto split: option.splits DeviceId.splits simp: num_sep)

text \<open>
  When the file cannot be opened \<^verbatim>\<open>StartDump\<close> still reports an active export: every later
  metric is dropped without a trace.
\<close>

lemma StartDump_ignores_open_failure:
  assumes "\<not> is_exporting e" "dump_file e = None" "dir_exists env dir" "\<forall>p. \<not> can_open env p"
    "StartDump env (Some dir) (e, fs) = (e1, fs1)"
  shows "IsActive e1 \<and> fs1 = fs \<and> (\<forall>ms fs2. Dump tn sd ms e1 fs2 = fs2)"
  using assms by (auto simp: StartDump_def append_file_def IsActive_def Dump_def fold_append_none)

lemma StartDump_ignores_open_failure_example:
  "IsActive (fst (StartDump (example_env\<lparr>can_open := (\<lambda>_. False)\<rparr>) (Some ''/tmp'') (idle_exporter, Map.empty)))"
  using StartDump_ignores_open_failure [OF _ _ _ _ prod.collapse [symmetric],
      of idle_exporter "example_env\<lparr>can_open := (\<lambda>_. False)\<rparr>" "''/tmp''" Map.empty]
  by (simp add: idle_exporter_def example_env_def)

end
