(* ===== verification/Config_Loader.thy ===== *)
theory Config_Loader
  imports Agent_Config Floating Metrics_Buffer Utils
begin

text \<open>
  config/config_loader.cc: the defaults, overridden by what the configuration file holds.

  The TOML library is an argument: the record \<open>toml\<close> has one field per accessor the loader
  calls.  So are the results of the system calls (record \<open>loader_env\<close>) and protobuf's
  \<^verbatim>\<open>MetricType_Parse\<close> and \<^verbatim>\<open>MetricType_IsValid\<close>.  Messages for the operator are not modelled, except
  those of \<open>CheckKeys\<close>, which has no other effect.
\<close>

section \<open>What the loader reads\<close>

record ('t, 'n) toml =
  t_contains :: "'t \<Rightarrow> string \<Rightarrow> bool"
  t_node :: "'t \<Rightarrow> string \<Rightarrow> 'n"
  t_keys :: "'t \<Rightarrow> string list"
  v_string :: "'n \<Rightarrow> string option"
  v_u32 :: "'n \<Rightarrow> u32 option"
  v_u16 :: "'n \<Rightarrow> u16 option"
  v_int :: "'n \<Rightarrow> i32 option"
  v_float :: "'n \<Rightarrow> fval option"
  v_array :: "'n \<Rightarrow> 'n list option"

text \<open>\<^verbatim>\<open>toml::parse_file\<close> throws \<^verbatim>\<open>toml::parse_error\<close>: then \<open>parsed_file\<close> is \<open>None\<close>.\<close>

record 't loader_env =
  config_exists :: bool
  parsed_file :: "'t option"
  nprocessors_onln :: int
  valid_ip :: "string \<Rightarrow> bool"
  resolvable :: "string \<Rightarrow> bool"

definition kConfigFile :: string where
  "kConfigFile = ''agent.conf''"

definition kValidTopLevelKeys :: "string list" where
  "kValidTopLevelKeys =
     [''core_affinity'', ''interval'', ''server_address'', ''server_port'', ''metrics'', ''time_window'']"

section \<open>CPU sets\<close>

definition MaxOnlineCpus :: "int \<Rightarrow> u32" where
  "MaxOnlineCpus n = (if 0 < n then of_int n else 0)"

definition AddCpu :: "cpu_set \<Rightarrow> u32 \<Rightarrow> u32 \<Rightarrow> cpu_set option" where
  "AddCpu s cpu max_cpu = (if max_cpu \<le> cpu then None else Some (CPU_SET (unat cpu) s))"

text \<open>The loop \<^verbatim>\<open>for (unsigned i = from; i <= to; ++i)\<close> never ends when \<open>to\<close> is the largest
  \<^verbatim>\<open>unsigned int\<close>: not returning is \<open>None\<close>.\<close>

partial_function (option) range_loop :: "u32 \<Rightarrow> u32 \<Rightarrow> cpu_set \<Rightarrow> cpu_set option" where
  "range_loop i to s = (if i \<le> to then range_loop (i + 1) to (CPU_SET (unat i) s) else Some s)"

text \<open>The outer \<open>None\<close> is a loop that does not return, the inner one the result \<^verbatim>\<open>false\<close>.\<close>

definition AddRange :: "cpu_set \<Rightarrow> u32 \<Rightarrow> u32 \<Rightarrow> u32 \<Rightarrow> cpu_set option option" where
  "AddRange s from to max_cpu =
     (if to < from \<or> max_cpu \<le> to then Some None else map_option Some (range_loop from to s))"

text \<open>The body of the loop over the array: \<open>None\<close> is an early return.\<close>

definition affinity_item :: "('t, 'n) toml \<Rightarrow> u32 \<Rightarrow> 'n \<Rightarrow> cpu_set \<Rightarrow> cpu_set option" where
  "affinity_item lib max_cpu item cpus = (case v_u32 lib item of
     Some cpu \<Rightarrow> AddCpu cpus cpu max_cpu
   | None \<Rightarrow> (case v_string lib item of
       Some str \<Rightarrow> (case sscanf_range str of
           Some (from, to) \<Rightarrow> (case AddRange cpus from to max_cpu of Some r \<Rightarrow> r | None \<Rightarrow> None)
         | None \<Rightarrow> None)
     | None \<Rightarrow> None))"

fun affinity_loop :: "('t, 'n) toml \<Rightarrow> u32 \<Rightarrow> 'n list \<Rightarrow> cpu_set \<Rightarrow> cpu_set option" where
  "affinity_loop lib max_cpu [] cpus = Some cpus"
| "affinity_loop lib max_cpu (item # items) cpus =
     Option.bind (affinity_item lib max_cpu item cpus) (affinity_loop lib max_cpu items)"

section \<open>One function per key\<close>

text \<open>The new configuration, and the mask handed to \<^verbatim>\<open>sched_setaffinity\<close>, if any; whether that call
  succeeds only changes what is printed.\<close>

definition LoadCoreAffinity ::
  "('t, 'n) toml \<Rightarrow> int \<Rightarrow> 't \<Rightarrow> Config \<Rightarrow> Config \<times> cpu_set option" where
  "LoadCoreAffinity lib onln tbl cfg =
     (if \<not> t_contains lib tbl ''core_affinity'' then (cfg, None)
      else let val = t_node lib tbl ''core_affinity'' in
        if v_string lib val = Some ''all''
        then (cfg\<lparr>core_affinity := kDefaultAffinity onln\<rparr>, None)
        else case v_array lib val of
          Some arr \<Rightarrow> (case affinity_loop lib (MaxOnlineCpus onln) arr {} of
              None \<Rightarrow> (cfg, None)
            | Some cpus \<Rightarrow> (cfg\<lparr>core_affinity := cpus\<rparr>, Some cpus))
        | None \<Rightarrow> (cfg, None))"

definition LoadInterval :: "('t, 'n) toml \<Rightarrow> 't \<Rightarrow> Config \<Rightarrow> Config" where
  "LoadInterval lib tbl cfg =
     (if \<not> t_contains lib tbl ''interval'' then cfg
      else case v_u32 lib (t_node lib tbl ''interval'') of
        Some ms \<Rightarrow> cfg\<lparr>collection_interval := int (unat ms)\<rparr>
      | None \<Rightarrow> cfg)"

definition LoadServerAddress :: "('t, 'n) toml \<Rightarrow> 't loader_env \<Rightarrow> 't \<Rightarrow> Config \<Rightarrow> Config" where
  "LoadServerAddress lib env tbl cfg =
     (if \<not> t_contains lib tbl ''server_address'' then cfg
      else case v_string lib (t_node lib tbl ''server_address'') of
        Some str \<Rightarrow> (if valid_ip env str \<or> resolvable env str then cfg\<lparr>server_address := str\<rparr> else cfg)
      | None \<Rightarrow> cfg)"

definition LoadServerPort :: "('t, 'n) toml \<Rightarrow> 't \<Rightarrow> Config \<Rightarrow> Config" where
  "LoadServerPort lib tbl cfg =
     (if \<not> t_contains lib tbl ''server_port'' then cfg
      else case v_u16 lib (t_node lib tbl ''server_port'') of
        Some port \<Rightarrow> (if 0 < port then cfg\<lparr>server_port := port\<rparr> else cfg)
      | None \<Rightarrow> cfg)"

definition append_metric :: "MetricType \<Rightarrow> MetricType list \<Rightarrow> MetricType list" where
  "append_metric metric metrics =
     (if metric = METRIC_TYPE_UNSPECIFIED then metrics
      else if metric \<in> set metrics then metrics else metrics @ [metric])"

definition parse_metric_name :: "parse_fun \<Rightarrow> string \<Rightarrow> MetricType option" where
  "parse_metric_name parse name = (case parse name of
     Some m \<Rightarrow> Some m
   | None \<Rightarrow> parse (''METRIC_TYPE_'' @ name))"

text \<open>The metric an entry of the array names, if any.\<close>

definition metric_entry :: "('t, 'n) toml \<Rightarrow> parse_fun \<Rightarrow> cast_fun \<Rightarrow> 'n \<Rightarrow> MetricType option" where
  "metric_entry lib parse cast item = (case v_int lib item of
     Some n \<Rightarrow> cast n
   | None \<Rightarrow> Option.bind (v_string lib item) (parse_metric_name parse))"

text \<open>The vector \<^verbatim>\<open>metrics\<close> when it is complete; \<open>None\<close> for a node of the wrong type.\<close>

definition selected_metrics :: "('t, 'n) toml \<Rightarrow> parse_fun \<Rightarrow> cast_fun \<Rightarrow> 'n \<Rightarrow> MetricType list option" where
  "selected_metrics lib parse cast node = (case v_array lib node of
     Some arr \<Rightarrow> Some (fold (\<lambda>item metrics. case metric_entry lib parse cast item of
         Some m \<Rightarrow> append_metric m metrics | None \<Rightarrow> metrics) arr [])
   | None \<Rightarrow> (case v_string lib node of
       Some name \<Rightarrow> Some (case parse_metric_name parse name of
         Some m \<Rightarrow> append_metric m [] | None \<Rightarrow> [])
     | None \<Rightarrow> None))"

definition LoadMetrics :: "('t, 'n) toml \<Rightarrow> parse_fun \<Rightarrow> cast_fun \<Rightarrow> 't \<Rightarrow> Config \<Rightarrow> Config" where
  "LoadMetrics lib parse cast tbl cfg =
     (if \<not> t_contains lib tbl ''metrics'' then cfg
      else let node = t_node lib tbl ''metrics'' in
        case selected_metrics lib parse cast node of
          None \<Rightarrow> cfg
        | Some metrics \<Rightarrow> if metrics \<noteq> [] then cfg\<lparr>requestedMetrics := metrics\<rparr> else cfg)"

text \<open>The arithmetic is that of \<^verbatim>\<open>float\<close>.  The conversion to \<^verbatim>\<open>uint32_t\<close> is undefined for a value that
  does not fit.\<close>

definition window_ms :: "fval \<Rightarrow> fval" where
  "window_ms window = fmul binary32 window (Fin 1000)"

definition LoadTimeWindow :: "('t, 'n) toml \<Rightarrow> 't \<Rightarrow> Config \<Rightarrow> Config result" where
  "LoadTimeWindow lib tbl cfg =
     (if \<not> t_contains lib tbl ''time_window'' then Inr cfg
      else case v_float lib (t_node lib tbl ''time_window'') of
        Some window \<Rightarrow>
          (if fless (f_of_int binary32 (collection_interval cfg)) (window_ms window)
           then res_map (\<lambda>ms. cfg\<lparr>buffered_time_window := int (unat ms)\<rparr>) (f_to_u32 (window_ms window))
           else Inr cfg)
      | None \<Rightarrow> Inr cfg)"

definition CheckKeys :: "('t, 'n) toml \<Rightarrow> 't \<Rightarrow> string" where
  "CheckKeys lib tbl = concat (map (\<lambda>key.
     if key \<in> set kValidTopLevelKeys then '''' else ''Key '' @ [CHR 0x27] @ key @ [CHR 0x27] @ '' is not a valid key'' @ [CHR 0x0A])
     (t_keys lib tbl))"

section \<open>Loading\<close>

definition LoadDefaultConfig :: "int \<Rightarrow> Config" where
  "LoadDefaultConfig onln = (default_Config onln)\<lparr>requestedMetrics := [
      METRIC_TYPE_UNSPECIFIED, METRIC_TYPE_CPU_POWER_PACKAGE, METRIC_TYPE_CPU_POWER_CORES,
      METRIC_TYPE_CPU_CLOCK_SPEED, METRIC_TYPE_CPU_UTILIZATION, METRIC_TYPE_CPU_TEMPERATURE,
      METRIC_TYPE_CPU_IOWAIT, METRIC_TYPE_CPU_CACHE_HIT_RATIO, METRIC_TYPE_CPU_ACTIVE_PROCESSES,
      METRIC_TYPE_GPU_POWER, METRIC_TYPE_GPU_CLOCK_SPEED, METRIC_TYPE_GPU_UTILIZATION,
      METRIC_TYPE_GPU_TEMPERATURE, METRIC_TYPE_GPU_VRAM_USED, METRIC_TYPE_GPU_PCIE_BANDWIDTH,
      METRIC_TYPE_GPU_COMPUTE_UNIT_UTILIZATION, METRIC_TYPE_GPU_SHARED_MEMORY_UTILIZATION,
      METRIC_TYPE_GPU_REGISTER_UTILIZATION, METRIC_TYPE_RAM_POWER, METRIC_TYPE_RAM_TOTAL,
      METRIC_TYPE_RAM_AVAILABLE, METRIC_TYPE_RAM_USED, METRIC_TYPE_RAM_CACHED, METRIC_TYPE_SWAP_USED,
      METRIC_TYPE_SWAP_ACTIVITY, METRIC_TYPE_DISK_READ_THROUGHPUT, METRIC_TYPE_DISK_WRITE_THROUGHPUT,
      METRIC_TYPE_DISK_READ_IOPS, METRIC_TYPE_DISK_WRITE_IOPS, METRIC_TYPE_DISK_BUSY_TIME,
      METRIC_TYPE_DISK_CAPACITY_USED, METRIC_TYPE_NET_BYTES_RECEIVED, METRIC_TYPE_NET_BYTES_SENT,
      METRIC_TYPE_NET_PACKETS_RECEIVED, METRIC_TYPE_NET_PACKETS_SENT]\<rparr>"

text \<open>The settings a file gives, in the order the loader reads them: the interval before the time
  window, which is checked against it.\<close>

definition LoadConfigFile :: "('t, 'n) toml \<Rightarrow> parse_fun \<Rightarrow> cast_fun \<Rightarrow> 't loader_env \<Rightarrow> Config \<Rightarrow> Config result" where
  "LoadConfigFile lib parse cast env cfg =
     (if \<not> config_exists env then Inr cfg
      else case parsed_file env of
        None \<Rightarrow> Inr cfg
      | Some tbl \<Rightarrow>
          res_map (\<lambda>cfg. LoadMetrics lib parse cast tbl (LoadServerPort lib tbl (LoadServerAddress lib env tbl cfg)))
            (LoadTimeWindow lib tbl
              (LoadInterval lib tbl (fst (LoadCoreAffinity lib (nprocessors_onln env) tbl cfg)))))"

definition LoadConfig :: "('t, 'n) toml \<Rightarrow> parse_fun \<Rightarrow> cast_fun \<Rightarrow> 't loader_env \<Rightarrow> Config result" where
  "LoadConfig lib parse cast env = LoadConfigFile lib parse cast env (LoadDefaultConfig (nprocessors_onln env))"

section \<open>CPU sets: the loops return\<close>

lemma unat_u32_bound: "unat (w :: u32) < 2 ^ 32"
  using unsigned_less [of w] by simp

lemma uint_u32_bound: "uint (w :: u32) < 4294967296"
  using unsigned_less [of w] by simp

lemma range_loop_returns:
  assumes "unat to < 2 ^ 32 - 1"
  shows "range_loop i to s = Some (s \<union> {c. unat i \<le> c \<and> c \<le> unat to \<and> c < CPU_SETSIZE})"
proof (induction "Suc (unat to) - unat i" arbitrary: i s)
  case 0
  then have "to < i" by (simp add: word_less_nat_alt)
  moreover have "{c. unat i \<le> c \<and> c \<le> unat to \<and> c < CPU_SETSIZE} = {}" using 0 by auto
  ultimately show ?case by (subst range_loop.simps) auto
next
  case (Suc d)
  then have le: "unat i \<le> unat to" by simp
  have succ: "unat (i + 1) = Suc (unat i)"
    using le assms by (simp add: unat_word_ariths)
  from Suc.hyps(2) succ have "d = Suc (unat to) - unat (i + 1)" by simp
  from Suc.hyps(1) [OF this] have "range_loop (i + 1) to (CPU_SET (unat i) s)
      = Some (CPU_SET (unat i) s \<union> {c. Suc (unat i) \<le> c \<and> c \<le> unat to \<and> c < CPU_SETSIZE})"
    by (simp add: succ)
  moreover have "CPU_SET (unat i) s \<union> {c. Suc (unat i) \<le> c \<and> c \<le> unat to \<and> c < CPU_SETSIZE}
      = s \<union> {c. unat i \<le> c \<and> c \<le> unat to \<and> c < CPU_SETSIZE}"
    using le by (auto simp: CPU_SET_def)
  ultimately show ?case using le by (subst range_loop.simps) (simp add: word_le_nat_alt)
qed

lemma AddRange_eq:
  "AddRange s from to max_cpu =
     Some (if from \<le> to \<and> to < max_cpu then Some (s \<union> {c. unat from \<le> c \<and> c \<le> unat to \<and> c < CPU_SETSIZE}) else None)"
proof -
  have "unat to < 2 ^ 32 - 1" if "to < max_cpu"
    using that unat_u32_bound [of max_cpu] by (simp add: word_less_nat_alt)
  then show ?thesis by (auto simp: AddRange_def range_loop_returns not_less)
qed

lemma affinity_item_bound:
  "affinity_item lib max_cpu item s = Some s' \<Longrightarrow> s' \<subseteq> s \<union> {c. c < unat max_cpu \<and> c < CPU_SETSIZE}"
  by (auto simp: affinity_item_def AddCpu_def AddRange_eq CPU_SET_def word_less_nat_alt word_le_nat_alt
      split: option.splits if_splits prod.splits)

lemma affinity_loop_bound:
  "affinity_loop lib max_cpu items s = Some s' \<Longrightarrow> s' \<subseteq> s \<union> {c. c < unat max_cpu \<and> c < CPU_SETSIZE}"
proof (induction items arbitrary: s)
  case (Cons item items)
  then obtain s1 where "affinity_item lib max_cpu item s = Some s1" "affinity_loop lib max_cpu items s1 = Some s'"
    by (auto simp: bind_eq_Some_conv)
  with affinity_item_bound [of lib max_cpu item s s1] Cons.IH [of s1] show ?case by blast
qed simp

section \<open>Metrics\<close>

lemma append_metric_props:
  assumes "distinct ms" "METRIC_TYPE_UNSPECIFIED \<notin> set ms"
  shows "distinct (append_metric m ms)" "METRIC_TYPE_UNSPECIFIED \<notin> set (append_metric m ms)"
    "set (append_metric m ms) = set ms \<union> ({m} - {METRIC_TYPE_UNSPECIFIED})"
  using assms by (auto simp: append_metric_def)

lemma metrics_fold_props:
  assumes "distinct ms" "METRIC_TYPE_UNSPECIFIED \<notin> set ms"
    and f: "f = (\<lambda>item metrics. case entry item of Some m \<Rightarrow> append_metric m metrics | None \<Rightarrow> metrics)"
  shows "distinct (fold f items ms) \<and> METRIC_TYPE_UNSPECIFIED \<notin> set (fold f items ms) \<and>
    set (fold f items ms) = set ms \<union> {m. m \<noteq> METRIC_TYPE_UNSPECIFIED \<and> (\<exists>item \<in> set items. entry item = Some m)}"
  using assms(1,2)
proof (induction items arbitrary: ms)
  case (Cons item items)
  show ?case
  proof (cases "entry item")
    case None
    with Cons show ?thesis by (auto simp: f)
  next
    case (Some m)
    note p = append_metric_props [OF Cons.prems, of m]
    from Cons.IH [OF p(1,2)] Some show ?thesis by (auto simp: f p(3))
  qed
qed auto

section \<open>The time window\<close>

lemma fless_Fin: "fless (Fin a) y \<Longrightarrow> y = PInf \<or> (\<exists>b. y = Fin b \<and> a < b)"
  by (cases y) auto

lemma f_of_int32:
  assumes "0 \<le> n" "n < 2 ^ 32"
  shows "f_of_int binary32 n = Fin (rnd binary32 (of_int n))"
proof -
  have "\<bar>rnd binary32 (of_int n)\<bar> \<le> pow2 32"
  proof (rule rnd_bound)
    show "representable binary32 (pow2 32)" by (rule representable_pow2) (simp_all, simp add: binary32_def)
    have p: "pow2 32 = 2 ^ 32" by (simp add: pow2_def)
    from assms have n: "(0 :: rat) \<le> of_int n" "(of_int n :: rat) \<le> 2 ^ 32"
      by (simp_all add: of_int_le_numeral_power_cancel_iff)
    show "- pow2 32 \<le> of_int n" "of_int n \<le> pow2 32" using n unfolding p by simp_all
  qed simp
  also have "pow2 32 < pow2 (emax binary32)" by (intro pow2_strict) (simp add: binary32_def)
  finally show ?thesis unfolding f_of_int_def by (intro fround_Fin)
qed

text \<open>A float that is above the rounded interval is above the interval.\<close>

lemma window_above_interval:
  assumes "0 \<le> n" "n < 2 ^ 32" "fless (f_of_int binary32 n) (fround binary32 q)" "f_to_u32 (fround binary32 q) = Inr ms"
  shows "n \<le> int (unat ms)"
proof -
  obtain b where b: "fround binary32 q = Fin b" using assms(4) by (cases "fround binary32 q") auto
  then have rep: "b = rnd binary32 q" by (auto simp: fround_def Let_def split: if_splits)
  have "rnd binary32 (of_int n) < b" using assms(3) f_of_int32 [OF assms(1,2)] b by simp
  then have "of_int n < b" using b32.rd_below [of b "of_int n"] rep by simp
  then have floor: "n \<le> \<lfloor>b\<rfloor>" "0 \<le> b" using assms(1) by (simp_all add: le_floor_iff)
  moreover have "b < 2 ^ 32" using assms(4) b by (auto split: if_splits)
  then have "\<lfloor>b\<rfloor> < 2 ^ 32" by (simp add: floor_less_iff)
  moreover have "ms = of_int \<lfloor>b\<rfloor>" using assms(4) b floor by (auto split: if_splits)
  ultimately show ?thesis by (simp add: unat_eq_nat_uint uint_word_of_int_eq take_bit_int_eq_self)
qed

section \<open>What each function keeps\<close>

lemma LoadCoreAffinity_cases:
  "LoadCoreAffinity lib onln tbl cfg = (cfg', m) \<Longrightarrow>
   cfg' = cfg \<or> cfg' = cfg\<lparr>core_affinity := kDefaultAffinity onln\<rparr> \<or>
   (\<exists>arr s. affinity_loop lib (MaxOnlineCpus onln) arr {} = Some s \<and> cfg' = cfg\<lparr>core_affinity := s\<rparr>)"
  by (auto simp: LoadCoreAffinity_def Let_def split: if_splits option.splits) metis

lemma MaxOnlineCpus_le: "int (unat (MaxOnlineCpus n)) \<le> max 0 n"
proof (cases "0 < n")
  case True
  then have "int (unat (MaxOnlineCpus n)) = n mod 2 ^ 32"
    by (simp add: MaxOnlineCpus_def uint_word_of_int)
  also have "\<dots> \<le> n" using True by (simp add: zmod_le_nonneg_dividend)
  finally show ?thesis by simp
qed (simp add: MaxOnlineCpus_def)

lemma MaxOnlineCpus_less:
  assumes "c < unat (MaxOnlineCpus n)"
  shows "int c < n"
proof -
  have "int c < int (unat (MaxOnlineCpus n))" using assms by (simp only: of_nat_less_iff)
  also note MaxOnlineCpus_le
  finally show ?thesis by simp
qed

lemma LoadCoreAffinity_keeps:
  assumes "core_affinity cfg \<subseteq> {i. int i < onln \<and> i < CPU_SETSIZE}"
  shows "core_affinity (fst (LoadCoreAffinity lib onln tbl cfg)) \<subseteq> {i. int i < onln \<and> i < CPU_SETSIZE}"
    "(fst (LoadCoreAffinity lib onln tbl cfg))\<lparr>core_affinity := {}\<rparr> = cfg\<lparr>core_affinity := {}\<rparr>"
proof -
  obtain cfg' m where c: "LoadCoreAffinity lib onln tbl cfg = (cfg', m)" by fastforce
  note cases = LoadCoreAffinity_cases [OF c]
  have loop: "s \<subseteq> {i. int i < onln \<and> i < CPU_SETSIZE}" if "affinity_loop lib (MaxOnlineCpus onln) arr {} = Some s" for arr s
    using affinity_loop_bound [OF that] MaxOnlineCpus_less [of _ onln] by blast
  from cases have "core_affinity cfg' \<subseteq> {i. int i < onln \<and> i < CPU_SETSIZE}"
  proof (elim disjE exE conjE)
    fix arr s
    assume "affinity_loop lib (MaxOnlineCpus onln) arr {} = Some s" "cfg' = cfg\<lparr>core_affinity := s\<rparr>"
    with loop show ?thesis by simp
  qed (use assms in \<open>simp_all add: kDefaultAffinity_eq\<close>)
  with c show "core_affinity (fst (LoadCoreAffinity lib onln tbl cfg)) \<subseteq> {i. int i < onln \<and> i < CPU_SETSIZE}"
    by simp
  from cases c show "(fst (LoadCoreAffinity lib onln tbl cfg))\<lparr>core_affinity := {}\<rparr> = cfg\<lparr>core_affinity := {}\<rparr>"
    by auto
qed

lemma LoadTimeWindow_keeps:
  assumes "0 \<le> collection_interval cfg" "collection_interval cfg < 2 ^ 32" "LoadTimeWindow lib tbl cfg = Inr cfg'"
  shows "cfg' = cfg \<or> (\<exists>w. cfg' = cfg\<lparr>buffered_time_window := w\<rparr> \<and> collection_interval cfg \<le> w \<and> w < 2 ^ 32)"
proof (cases "cfg' = cfg")
  case False
  then obtain window ms where w: "fless (f_of_int binary32 (collection_interval cfg)) (window_ms window)"
    "f_to_u32 (window_ms window) = Inr ms" "cfg' = cfg\<lparr>buffered_time_window := int (unat ms)\<rparr>"
    using assms(3) by (auto simp: LoadTimeWindow_def res_map_def split: if_splits option.splits sum.splits)
  then obtain q where "window_ms window = fround binary32 q"
    by (cases window) (auto simp: window_ms_def signed_inf_def)
  with w window_above_interval [OF assms(1,2)] have "collection_interval cfg \<le> int (unat ms)" by simp
  with w(3) uint_u32_bound [of ms] show ?thesis by (intro disjI2 exI [of _ "int (unat ms)"]) simp
qed simp

lemma selected_metrics_props:
  assumes "selected_metrics lib parse cast node = Some ms"
  shows "distinct ms \<and> METRIC_TYPE_UNSPECIFIED \<notin> set ms"
    "v_array lib node = Some arr \<Longrightarrow>
       set ms = {m. m \<noteq> METRIC_TYPE_UNSPECIFIED \<and> (\<exists>item \<in> set arr. metric_entry lib parse cast item = Some m)}"
  using assms metrics_fold_props [OF _ _ refl, of "[]" "metric_entry lib parse cast"]
  by (auto simp: selected_metrics_def append_metric_def split: option.splits if_splits)

lemma LoadMetrics_cases:
  "LoadMetrics lib parse cast tbl cfg = cfg \<or>
   (\<exists>ms. LoadMetrics lib parse cast tbl cfg = cfg\<lparr>requestedMetrics := ms\<rparr> \<and> ms \<noteq> [] \<and> distinct ms \<and>
      METRIC_TYPE_UNSPECIFIED \<notin> set ms)"
  using selected_metrics_props(1) [of lib parse cast "t_node lib tbl ''metrics''"]
  by (auto simp: LoadMetrics_def Let_def split: option.split)

lemma LoadDefaultConfig_simps [simp]:
  "collection_interval (LoadDefaultConfig onln) = 500" "buffered_time_window (LoadDefaultConfig onln) = 2000"
  "server_port (LoadDefaultConfig onln) = 5000" "core_affinity (LoadDefaultConfig onln) = kDefaultAffinity onln"
  by (simp_all add: LoadDefaultConfig_def default_Config_def kDefaultIntervalMs_def kDefaultTimeWindowMs_def
      kDefaultServerPort_def)

lemma LoadDefaultConfig_metrics: "set (requestedMetrics (LoadDefaultConfig onln)) = UNIV \<and>
    distinct (requestedMetrics (LoadDefaultConfig onln))"
proof -
  have "requestedMetrics (LoadDefaultConfig onln) = MetricType_all"
    by (simp add: LoadDefaultConfig_def MetricType_all_def)
  moreover have "distinct (map MetricType_value MetricType_all)" by (simp add: MetricType_all_def)
  ultimately show ?thesis by (auto simp: distinct_map)
qed

text \<open>The invariant of the whole load.\<close>

definition cfg_ok :: "int \<Rightarrow> Config \<Rightarrow> bool" where
  "cfg_ok onln cfg \<longleftrightarrow> 0 < server_port cfg \<and> 0 \<le> collection_interval cfg \<and> collection_interval cfg < 2 ^ 32 \<and>
     core_affinity cfg \<subseteq> {i. int i < onln \<and> i < CPU_SETSIZE} \<and>
     (buffered_time_window cfg = 2000 \<or>
      collection_interval cfg \<le> buffered_time_window cfg \<and> buffered_time_window cfg < 2 ^ 32) \<and>
     requestedMetrics cfg \<noteq> [] \<and> distinct (requestedMetrics cfg)"

lemma LoadDefaultConfig_ok: "cfg_ok onln (LoadDefaultConfig onln)"
  using LoadDefaultConfig_metrics [of onln] by (auto simp: cfg_ok_def kDefaultAffinity_eq)

lemma LoadCoreAffinity_ok:
  assumes "cfg_ok onln cfg"
  shows "cfg_ok onln (fst (LoadCoreAffinity lib onln tbl cfg)) \<and>
    buffered_time_window (fst (LoadCoreAffinity lib onln tbl cfg)) = buffered_time_window cfg"
proof -
  have "core_affinity cfg \<subseteq> {i. int i < onln \<and> i < CPU_SETSIZE}" using assms by (simp add: cfg_ok_def)
  note k = LoadCoreAffinity_keeps [OF this, of lib tbl]
  from k(2) obtain s where "fst (LoadCoreAffinity lib onln tbl cfg) = cfg\<lparr>core_affinity := s\<rparr>"
    by (cases cfg; cases "fst (LoadCoreAffinity lib onln tbl cfg)") simp
  with k(1) assms show ?thesis by (simp add: cfg_ok_def)
qed

lemma LoadInterval_ok:
  "cfg_ok onln cfg \<Longrightarrow> buffered_time_window cfg = 2000 \<Longrightarrow> cfg_ok onln (LoadInterval lib tbl cfg)"
  using uint_u32_bound by (auto simp: cfg_ok_def LoadInterval_def split: option.split)

lemma LoadTimeWindow_ok:
  assumes "cfg_ok onln cfg" "LoadTimeWindow lib tbl cfg = Inr cfg'"
  shows "cfg_ok onln cfg'"
  using assms(1) LoadTimeWindow_keeps [OF _ _ assms(2)] by (auto simp: cfg_ok_def)

lemma LoadServer_ok:
  "cfg_ok onln cfg \<Longrightarrow> cfg_ok onln (LoadServerPort lib tbl (LoadServerAddress lib env tbl cfg))"
  by (auto simp: cfg_ok_def LoadServerPort_def LoadServerAddress_def split: option.split)

lemma LoadMetrics_ok: "cfg_ok onln cfg \<Longrightarrow> cfg_ok onln (LoadMetrics lib parse cast tbl cfg)"
  using LoadMetrics_cases [of lib parse cast tbl cfg] by (auto simp: cfg_ok_def)

lemma LoadConfig_ok:
  assumes "LoadConfig lib parse cast env = Inr cfg"
  shows "cfg_ok (nprocessors_onln env) cfg"
proof (cases "cfg = LoadDefaultConfig (nprocessors_onln env)")
  case True
  then show ?thesis by (simp add: LoadDefaultConfig_ok)
next
  case False
  let ?c1 = "\<lambda>tbl. fst (LoadCoreAffinity lib (nprocessors_onln env) tbl (LoadDefaultConfig (nprocessors_onln env)))"
  from False obtain tbl c3 where c3: "LoadTimeWindow lib tbl (LoadInterval lib tbl (?c1 tbl)) = Inr c3"
    "cfg = LoadMetrics lib parse cast tbl (LoadServerPort lib tbl (LoadServerAddress lib env tbl c3))"
    using assms by (auto simp: LoadConfig_def LoadConfigFile_def res_map_def split: if_splits option.splits sum.splits)
  have "cfg_ok (nprocessors_onln env) (?c1 tbl) \<and> buffered_time_window (?c1 tbl) = 2000"
    using LoadCoreAffinity_ok [OF LoadDefaultConfig_ok] by simp
  then have "cfg_ok (nprocessors_onln env) (LoadInterval lib tbl (?c1 tbl))"
    by (simp add: LoadInterval_ok)
  then show ?thesis unfolding c3(2) by (intro LoadMetrics_ok LoadServer_ok LoadTimeWindow_ok [OF _ c3(1)])
qed

section \<open>A concrete TOML library\<close>

text \<open>A parsed file as a list of pairs, for concrete runs.\<close>

datatype tval = TStr string | TInt int | TFloat fval | TArr "tval list"

definition example_toml :: "((string \<times> tval) list, tval) toml" where
  "example_toml = \<lparr>
     t_contains = (\<lambda>tbl k. k \<in> fst ` set tbl),
     t_node = (\<lambda>tbl k. the (map_of tbl k)),
     t_keys = map fst,
     v_string = (\<lambda>v. case v of TStr s \<Rightarrow> Some s | _ \<Rightarrow> None),
     v_u32 = (\<lambda>v. case v of TInt n \<Rightarrow> if 0 \<le> n \<and> n < 2 ^ 32 then Some (of_int n) else None | _ \<Rightarrow> None),
     v_u16 = (\<lambda>v. case v of TInt n \<Rightarrow> if 0 \<le> n \<and> n < 2 ^ 16 then Some (of_int n) else None | _ \<Rightarrow> None),
     v_int = (\<lambda>v. case v of TInt n \<Rightarrow> if - (2 ^ 31) \<le> n \<and> n < 2 ^ 31 then Some (of_int n) else None | _ \<Rightarrow> None),
     v_float = (\<lambda>v. case v of TFloat f \<Rightarrow> Some f | _ \<Rightarrow> None),
     v_array = (\<lambda>v. case v of TArr vs \<Rightarrow> Some vs | _ \<Rightarrow> None)\<rparr>"

definition example_loader_env :: "(string \<times> tval) list \<Rightarrow> (string \<times> tval) list loader_env" where
  "example_loader_env tbl = \<lparr>config_exists = True, parsed_file = Some tbl, nprocessors_onln = 8,
     valid_ip = (\<lambda>_. False), resolvable = (\<lambda>_. False)\<rparr>"

lemma example_toml_simps [simp]:
  "t_contains example_toml tbl k = (k \<in> fst ` set tbl)" "t_node example_toml tbl k = the (map_of tbl k)"
  "v_array example_toml (TArr vs) = Some vs" "v_string example_toml (TArr vs) = None"
  by (simp_all add: example_toml_def)

lemmas example_simps = example_toml_def example_loader_env_def

abbreviation load_example :: "(string \<times> tval) list \<Rightarrow> Config result" where
  "load_example tbl \<equiv> LoadConfig example_toml MetricType_table_parse MetricType_table_cast (example_loader_env tbl)"

section \<open>Properties\<close>

text \<open>
  C24.  Whatever the file holds, the configuration that results is well-formed: the port is not
  zero, the interval fits 32 bits, only CPUs that are online are selected, the time window is
  the default or at least the interval, and at least one metric is requested, none twice.
\<close>

theorem LoadConfig_well_formed:
  assumes "LoadConfig lib parse cast env = Inr cfg"
  shows "0 < server_port cfg \<and> 0 \<le> collection_interval cfg \<and> collection_interval cfg < 2 ^ 32 \<and>
    core_affinity cfg \<subseteq> {i. int i < nprocessors_onln env \<and> i < CPU_SETSIZE} \<and>
    (buffered_time_window cfg = 2000 \<or>
     collection_interval cfg \<le> buffered_time_window cfg \<and> buffered_time_window cfg < 2 ^ 32) \<and>
    requestedMetrics cfg \<noteq> [] \<and> distinct (requestedMetrics cfg)"
  using LoadConfig_ok [OF assms] by (simp add: cfg_ok_def)

theorem LoadConfig_well_formed_witness:
  "\<exists>cfg. load_example [(''interval'', TInt 100), (''server_port'', TInt 0)] = Inr cfg \<and>
     collection_interval cfg = 100 \<and> 0 < server_port cfg"
proof -
  obtain cfg where c: "load_example [(''interval'', TInt 100), (''server_port'', TInt 0)] = Inr cfg"
    "collection_interval cfg = 100"
    by (simp add: LoadConfig_def LoadConfigFile_def LoadTimeWindow_def LoadCoreAffinity_def LoadInterval_def
        LoadServerAddress_def LoadServerPort_def LoadMetrics_def example_simps)
  with LoadConfig_well_formed [OF c(1)] show ?thesis by blast
qed

text \<open>
  The buffer built from a loaded configuration holds a time window: with a non-zero
  interval its capacity is the number of whole intervals in the window, and it is positive
  exactly when the window is not shorter than the interval.
\<close>

lemma LoadConfig_buffer_capacity:
  assumes "LoadConfig lib parse cast env = Inr cfg" "collection_interval cfg \<noteq> 0"
  shows "\<exists>mb. MetricsBuffer_new cfg = Inr mb \<and>
    int (unat (mb_capacity_per_series mb)) = buffered_time_window cfg div collection_interval cfg \<and>
    (0 < unat (mb_capacity_per_series mb)) = (collection_interval cfg \<le> buffered_time_window cfg)"
proof -
  let ?w = "buffered_time_window cfg" and ?i = "collection_interval cfg"
  have i: "0 < ?i" and w: "0 \<le> ?w" "?w < 2 ^ 32" using LoadConfig_ok [OF assms(1)] assms(2) by (auto simp: cfg_ok_def)
  have div: "?w sdiv ?i = ?w div ?i" using i w by (cases "?w = 0") (simp_all add: signed_divide_int_def)
  have "?w div ?i \<le> ?w" using i w zdiv_mono2 [of ?w 1 ?i] by simp
  then have bound: "0 \<le> ?w div ?i" "?w div ?i < 2 ^ 64" using i w by (simp_all add: pos_imp_zdiv_nonneg_iff)
  then have cap: "int (unat (of_int (?w div ?i) :: size_t)) = ?w div ?i"
    by (simp add: uint_word_of_int_eq take_bit_int_eq_self)
  moreover have "(0 < ?w div ?i) = (?i \<le> ?w)" using i by (simp add: pos_imp_zdiv_pos_iff)
  moreover have "(0 < unat (of_int (?w div ?i) :: size_t)) = (0 < int (unat (of_int (?w div ?i) :: size_t)))"
    by (simp only: of_nat_0_less_iff)
  ultimately show ?thesis using assms(2) div by (auto simp: MetricsBuffer_new_def)
qed

text \<open>
  C37.  The interval alone can switch buffering off or crash the agent: a file that sets only an
  interval above two seconds gives a buffer of capacity zero, in which every metric added
  disappears, and an interval of zero divides by zero when the buffer is made.
\<close>

theorem interval_alone_breaks_the_buffer:
  assumes "\<forall>k. t_contains lib tbl k = (k = ''interval'')" "v_u32 lib (t_node lib tbl ''interval'') = Some ms"
    "config_exists env" "parsed_file env = Some tbl"
  shows "\<exists>cfg. LoadConfig lib parse cast env = Inr cfg \<and>
    (ms = 0 \<longrightarrow> MetricsBuffer_new cfg = Inl DivideByZero) \<and>
    (2000 < unat ms \<longrightarrow> (\<exists>mb. MetricsBuffer_new cfg = Inr mb \<and> mb_capacity_per_series mb = 0))"
proof -
  let ?cfg = "(LoadDefaultConfig (nprocessors_onln env))\<lparr>collection_interval := int (unat ms)\<rparr>"
  have "LoadConfig lib parse cast env = Inr ?cfg"
    using assms by (simp add: LoadConfig_def LoadConfigFile_def LoadTimeWindow_def LoadCoreAffinity_def
        LoadInterval_def LoadServerAddress_def LoadServerPort_def LoadMetrics_def)
  moreover have "ms = 0 \<longrightarrow> MetricsBuffer_new ?cfg = Inl DivideByZero" by (simp add: MetricsBuffer_new_def)
  moreover have "\<exists>mb. MetricsBuffer_new ?cfg = Inr mb \<and> mb_capacity_per_series mb = 0" if "2000 < unat ms"
  proof -
    have "int 2000 < int (unat ms)" using that by (simp only: of_nat_less_iff)
    then have "2000 < int (unat ms)" by (simp del: of_nat_unat)
    then have "(2000 :: int) sdiv int (unat ms) = 0" "int (unat ms) \<noteq> 0"
      by (simp_all add: signed_divide_int_def div_pos_pos_trivial del: of_nat_unat)
    then show ?thesis by (simp add: MetricsBuffer_new_def del: of_nat_unat)
  qed
  ultimately show ?thesis by blast
qed

theorem interval_alone_breaks_the_buffer_witness:
  "\<exists>cfg mb. load_example [(''interval'', TInt 3000)] = Inr cfg \<and> MetricsBuffer_new cfg = Inr mb \<and>
     mb_capacity_per_series mb = 0"
  using interval_alone_breaks_the_buffer [of example_toml "[(''interval'', TInt 3000)]" 3000
      "example_loader_env [(''interval'', TInt 3000)]" MetricType_table_parse MetricType_table_cast]
  by (auto simp: example_simps)


lemma metric_entry_table:
  "metric_entry example_toml MetricType_table_parse MetricType_table_cast (TStr ''METRIC_TYPE_RAM_USED'') = Some METRIC_TYPE_RAM_USED"
  "metric_entry example_toml MetricType_table_parse MetricType_table_cast (TInt 200) = Some METRIC_TYPE_GPU_POWER"
proof -
  have "MetricType_table_parse ''METRIC_TYPE_RAM_USED'' = Some METRIC_TYPE_RAM_USED"
    using table.parse_name [of METRIC_TYPE_RAM_USED] by simp
  then show "metric_entry example_toml MetricType_table_parse MetricType_table_cast (TStr ''METRIC_TYPE_RAM_USED'') = Some METRIC_TYPE_RAM_USED"
    by (simp add: metric_entry_def example_toml_def parse_metric_name_def)
  have "MetricType_table_cast 200 = Some METRIC_TYPE_GPU_POWER"
    using table.cast_value [of METRIC_TYPE_GPU_POWER] by simp
  then show "metric_entry example_toml MetricType_table_parse MetricType_table_cast (TInt 200) = Some METRIC_TYPE_GPU_POWER"
    by (simp add: metric_entry_def example_toml_def)
qed


text \<open>
  A range entry \<^verbatim>\<open>"a-b"\<close> of CPUs that are online sets exactly the CPUs from \<open>a\<close> to \<open>b\<close>, in the
  configuration and in the mask handed to \<^verbatim>\<open>sched_setaffinity\<close>; the loop over the range always ends.
\<close>

lemma LoadCoreAffinity_range:
  assumes "t_contains lib tbl ''core_affinity''" "v_string lib (t_node lib tbl ''core_affinity'') = None"
    "v_array lib (t_node lib tbl ''core_affinity'') = Some [item]"
    "v_u32 lib item = None" "v_string lib item = Some (show_nat a @ ''-'' @ show_nat b)"
    "a \<le> b" "int b < onln" "onln \<le> 1024"
  shows "LoadCoreAffinity lib onln tbl cfg = (cfg\<lparr>core_affinity := {a..b}\<rparr>, Some {a..b})"
proof -
  have ab: "a < 1024" "b < 1024" using assms(6-8) by simp_all
  then have r: "sscanf_range (show_nat a @ ''-'' @ show_nat b) = Some (of_nat a, of_nat b)"
    by (intro sscanf_range_show) simp_all
  have u: "unat (of_nat a :: u32) = a" "unat (of_nat b :: u32) = b"
    using ab by (simp_all add: unat_of_nat)
  have m: "unat (MaxOnlineCpus onln) = nat onln"
    using assms(7,8) by (simp add: MaxOnlineCpus_def unat_eq_nat_uint uint_word_of_int_eq take_bit_int_eq_self)
  have "AddRange {} (of_nat a) (of_nat b) (MaxOnlineCpus onln) = Some (Some {c. a \<le> c \<and> c \<le> b \<and> c < CPU_SETSIZE})"
    using assms(6,7) by (simp add: AddRange_eq word_le_nat_alt word_less_nat_alt u m)
  moreover have "{c. a \<le> c \<and> c \<le> b \<and> c < CPU_SETSIZE} = {a..b}" using ab by (auto simp: CPU_SETSIZE_def)
  ultimately have "affinity_loop lib (MaxOnlineCpus onln) [item] {} = Some {a..b}"
    using assms(4,5) r by (simp add: affinity_item_def)
  then show ?thesis using assms(1-3) by (simp add: LoadCoreAffinity_def)
qed

lemma LoadCoreAffinity_range_example:
  "LoadCoreAffinity example_toml 8 [(''core_affinity'', TArr [TStr (show_nat 2 @ ''-'' @ show_nat 5)])] (default_Config 8)
     = ((default_Config 8)\<lparr>core_affinity := {2..5}\<rparr>, Some {2..5})"
  by (rule LoadCoreAffinity_range [where item = "TStr (show_nat 2 @ ''-'' @ show_nat 5)"])
    (simp_all add: example_toml_def)

end
