(* ===== verification/Connect_Reactor.thy ===== *)
theory Connect_Reactor
  imports Writer Metric_Types
begin

text \<open>
  \<^verbatim>\<open>class ConnectReactor\<close> (client/connect_reactor.h / .cc): the control stream to the server.

  \<^verbatim>\<open>EnqueueWrite\<close> and \<^verbatim>\<open>OnWriteDone\<close> hold the lock for their whole duration, so each is one atomic
  step and every interleaving of the threads is a sequence of them.  What \<^verbatim>\<open>StartWrite\<close> is called
  with is kept in \<open>cr_started\<close>.  Log output is not modelled.
\<close>

section \<open>State and operations\<close>

record grpc_status =
  status_ok :: bool
  error_message :: string

record ConnectReactor =
  cr_writerqu :: "ControlMessage list"
  cr_writing :: bool
  cr_started :: "ControlMessage list"
  cr_status :: grpc_status
  cr_done :: bool

definition CreateMessage :: "MessageType \<Rightarrow> string \<Rightarrow> ControlMessage" where
  "CreateMessage type payload =
     \<lparr>msg_type = type, msg_payload = (if type = MESSAGE_ERROR then Some payload else None)\<rparr>"

text \<open>\<^verbatim>\<open>Write\<close>, called with the lock held.\<close>

definition ConnectReactor_Write :: "ConnectReactor \<Rightarrow> ConnectReactor" where
  "ConnectReactor_Write cr =
     (if cr_writing cr \<or> cr_writerqu cr = [] then cr
      else cr\<lparr>cr_writing := True, cr_started := cr_started cr @ [hd (cr_writerqu cr)]\<rparr>)"

definition cr_push :: "ControlMessage \<Rightarrow> ConnectReactor \<Rightarrow> ConnectReactor" where
  "cr_push msg cr = cr\<lparr>cr_writerqu := cr_writerqu cr @ [msg]\<rparr>"

definition EnqueueWrite :: "ControlMessage \<Rightarrow> ConnectReactor \<Rightarrow> ConnectReactor" where
  "EnqueueWrite msg cr = ConnectReactor_Write (cr_push msg cr)"

definition cr_pop :: "ConnectReactor \<Rightarrow> ConnectReactor result" where
  "cr_pop cr = (case cr_writerqu cr of
     [] \<Rightarrow> Inl OutOfBounds
   | _ # q \<Rightarrow> Inr (cr\<lparr>cr_writerqu := q, cr_writing := False\<rparr>))"

definition ConnectReactor_OnWriteDone :: "bool \<Rightarrow> ConnectReactor \<Rightarrow> ConnectReactor result" where
  "ConnectReactor_OnWriteDone ok cr =
     (if \<not> ok then Inr cr else res_map ConnectReactor_Write (cr_pop cr))"

definition ConnectReactor_OnDone :: "grpc_status \<Rightarrow> ConnectReactor \<Rightarrow> ConnectReactor" where
  "ConnectReactor_OnDone status cr = cr\<lparr>cr_status := status, cr_done := True\<rparr>"

text \<open>The constructor queues the agent's first message.\<close>

definition ConnectReactor_new :: ConnectReactor where
  "ConnectReactor_new = EnqueueWrite (CreateMessage MESSAGE_ID '''')
     \<lparr>cr_writerqu = [], cr_writing = False, cr_started = [],
      cr_status = \<lparr>status_ok = True, error_message = ''''\<rparr>, cr_done = False\<rparr>"

text \<open>The loop of \<^verbatim>\<open>Await\<close>: each pass reads \<^verbatim>\<open>g_running\<close>, cancels the call if it is off, and waits for
  200 ms or until \<^verbatim>\<open>OnDone\<close> has run.  The observations of the passes are an argument; the result
  is the number of times \<^verbatim>\<open>TryCancel\<close> was called, \<open>None\<close> while the call is not done.\<close>

fun Await :: "bool \<Rightarrow> (bool \<times> bool) list \<Rightarrow> nat option" where
  "Await True obs = Some 0"
| "Await False [] = None"
| "Await False ((running, done) # obs) = map_option (\<lambda>n. if running then n else Suc n) (Await done obs)"

text \<open>The destructor prints the value found under \<^verbatim>\<open>agent-id\<close> in the metadata the server sent.\<close>

definition ConnectReactor_destroy :: "(string \<rightharpoonup> string) \<Rightarrow> string result" where
  "ConnectReactor_destroy server_initial_metadata = (case server_initial_metadata ''agent-id'' of
     None \<Rightarrow> Inl EndIterator
   | Some v \<Rightarrow> Inr (''ConnectReactor destroyed for agent '' @ v))"

section \<open>The write queue\<close>

interpretation connect_writer: message_writer cr_writerqu cr_writing cr_started cr_push
  ConnectReactor_Write cr_pop
proof
  fix s :: ConnectReactor
  assume "cr_writerqu s \<noteq> []"
  then show "\<exists>s'. cr_pop s = Inr s' \<and> cr_writerqu s' = tl (cr_writerqu s) \<and> \<not> cr_writing s' \<and>
      cr_started s' = cr_started s"
    by (cases "cr_writerqu s") (simp_all add: cr_pop_def)
qed (auto simp: cr_push_def ConnectReactor_Write_def)

text \<open>A run: messages enqueued by any thread, writes completed by gRPC.  gRPC reports a completed
  write only while one is outstanding.\<close>

datatype cr_op = CrEnqueue ControlMessage | CrWriteDone

definition cr_step :: "cr_op \<Rightarrow> ConnectReactor \<Rightarrow> ConnectReactor result" where
  "cr_step op cr = (case op of
     CrEnqueue m \<Rightarrow> Inr (EnqueueWrite m cr)
   | CrWriteDone \<Rightarrow> if cr_writing cr then ConnectReactor_OnWriteDone True cr else Inr cr)"

fun enqueued :: "cr_op list \<Rightarrow> ControlMessage list" where
  "enqueued [] = []"
| "enqueued (CrEnqueue m # ops) = m # enqueued ops"
| "enqueued (CrWriteDone # ops) = enqueued ops"

definition cr_inv :: "ControlMessage list \<Rightarrow> ConnectReactor \<Rightarrow> bool" where
  "cr_inv acc cr \<longleftrightarrow> fifo_inv acc (cr_writerqu cr) (cr_writing cr) (cr_started cr) \<and>
     (cr_writerqu cr \<noteq> [] \<longrightarrow> cr_writing cr)"

lemma cr_inv_Enqueue: "cr_inv acc cr \<Longrightarrow> cr_inv (acc @ [m]) (EnqueueWrite m cr)"
  using connect_writer.fifo_start [OF connect_writer.fifo_push, of acc cr m]
    connect_writer.start_progress [of "cr_push m cr"] connect_writer.start_queue [of "cr_push m cr"]
  by (simp add: cr_inv_def EnqueueWrite_def connect_writer.push_queue)

lemma cr_inv_WriteDone:
  assumes "cr_inv acc cr" "cr_writing cr"
  shows "\<exists>cr'. ConnectReactor_OnWriteDone True cr = Inr cr' \<and> cr_inv acc cr'"
proof -
  obtain cr1 where cr1: "cr_pop cr = Inr cr1" "fifo_inv acc (cr_writerqu cr1) (cr_writing cr1) (cr_started cr1)"
    using connect_writer.fifo_pop assms by (auto simp: cr_inv_def)
  with connect_writer.fifo_start [OF cr1(2)] connect_writer.start_progress [of cr1] connect_writer.start_queue [of cr1]
  show ?thesis by (simp add: ConnectReactor_OnWriteDone_def cr_inv_def)
qed

lemma cr_inv_new: "cr_inv [CreateMessage MESSAGE_ID ''''] ConnectReactor_new"
  unfolding ConnectReactor_new_def
  by (rule cr_inv_Enqueue [of "[]", simplified]) (simp add: cr_inv_def fifo_inv_empty)

lemma cr_run:
  "cr_inv acc cr \<Longrightarrow> \<exists>cr'. res_fold cr_step ops cr = Inr cr' \<and> cr_inv (acc @ enqueued ops) cr'"
proof (induction ops arbitrary: acc cr)
  case (Cons op ops)
  show ?case
  proof (cases op)
    case (CrEnqueue m)
    with Cons.IH [OF cr_inv_Enqueue [OF Cons.prems, of m]] show ?thesis by (simp add: cr_step_def)
  next
    case CrWriteDone
    with Cons cr_inv_WriteDone [OF Cons.prems] show ?thesis by (cases "cr_writing cr") (auto simp: cr_step_def)
  qed
qed simp

section \<open>Properties\<close>

text \<open>
  C23.  Control messages reach gRPC in the order they were enqueued, the agent's \<^verbatim>\<open>MESSAGE_ID\<close>
  first, none lost or repeated, no pop of an empty queue; and a message never waits without a
  write outstanding.
\<close>

theorem connect_messages_in_order:
  "\<exists>cr. res_fold cr_step ops ConnectReactor_new = Inr cr \<and>
     prefix (cr_started cr) (CreateMessage MESSAGE_ID '''' # enqueued ops) \<and>
     length (CreateMessage MESSAGE_ID '''' # enqueued ops) \<le> length (cr_started cr) + length (cr_writerqu cr) \<and>
     (cr_writerqu cr = [] \<or> cr_writing cr)"
proof -
  obtain cr where cr: "res_fold cr_step ops ConnectReactor_new = Inr cr"
    "cr_inv (CreateMessage MESSAGE_ID '''' # enqueued ops) cr"
    using cr_run [OF cr_inv_new, of ops] by auto
  with fifo_inv_prefix [of "CreateMessage MESSAGE_ID '''' # enqueued ops" "cr_writerqu cr" "cr_writing cr" "cr_started cr"]
  show ?thesis by (auto simp: cr_inv_def)
qed

text \<open>
  \<^verbatim>\<open>Await\<close> returns exactly when one of its passes has seen the call done, and up to then it
  asks gRPC to cancel once per pass that finds the agent stopping.
\<close>

lemma Await_returns:
  "Await False obs = (if \<exists>ob \<in> set obs. snd ob
     then Some (length (filter (\<lambda>ob. \<not> fst ob) (takeWhile (\<lambda>ob. \<not> snd ob) obs @
       [hd (dropWhile (\<lambda>ob. \<not> snd ob) obs)])))
     else None)"
proof (induction obs)
  case (Cons ob obs)
  then show ?case by (cases ob; cases "snd ob"; cases "fst ob") auto
qed simp
end
