(* ===== verification/Client.thy ===== *)
theory Client
  imports Connect_Reactor Stream_Reactor Exporter
begin

text \<open>
  \<^verbatim>\<open>class Client\<close> (client/volta_collector_client.h / .cc): loads and saves the agent's id, opens the
  control stream and answers the server's messages.

  The files are a map from paths to contents.  What reaches the disk when the temporary file is
  written is an argument: \<open>None\<close> when it cannot be opened, otherwise the characters that were
  written (all of them unless the disk is full).  The channel gRPC makes is an argument.  Log
  output is not modelled.
\<close>

section \<open>State\<close>

record Client =
  cl_id :: string
  cl_has_buffer :: bool
  cl_connect_reactor :: "ConnectReactor option"
  cl_stream_data_reactor :: "StreamMetricsReactor option"

definition Client_new :: "bool \<Rightarrow> Client" where
  "Client_new has_buffer = \<lparr>cl_id = '''', cl_has_buffer = has_buffer, cl_connect_reactor = None,
     cl_stream_data_reactor = None\<rparr>"

definition kUUIDFile :: string where
  "kUUIDFile = ''agent.uuid''"

definition kUUIDTmp :: string where
  "kUUIDTmp = kUUIDFile @ ''.tmp''"

section \<open>Operations\<close>

text \<open>\<^verbatim>\<open>grpc::CreateChannel\<close> may give no channel, and a channel may not connect within five seconds.\<close>

definition CreateChannel :: "'ch option \<Rightarrow> ('ch \<Rightarrow> bool) \<Rightarrow> 'ch option" where
  "CreateChannel channel WaitForConnected = (case channel of
     None \<Rightarrow> None
   | Some ch \<Rightarrow> if \<not> WaitForConnected ch then None else Some ch)"

text \<open>\<^verbatim>\<open>std::getline\<close> reads up to the first newline and clears the string first.\<close>

definition LoadUUID :: "files \<Rightarrow> string \<Rightarrow> string \<times> bool" where
  "LoadUUID fs out_uuid = (case fs kUUIDFile of
     None \<Rightarrow> (out_uuid, False)
   | Some contents \<Rightarrow> let line = takeWhile (\<lambda>c. c \<noteq> CHR 0x0A) contents in (line, line \<noteq> ''''))"

text \<open>A call through \<^verbatim>\<open>connect_reactor_\<close>, which is null until the constructor of the reactor has
  returned.\<close>

definition reply :: "MessageType \<Rightarrow> string \<Rightarrow> Client \<Rightarrow> Client result" where
  "reply type payload cl = (case cl_connect_reactor cl of
     None \<Rightarrow> Inl NullDeref
   | Some cr \<Rightarrow> Inr (cl\<lparr>cl_connect_reactor := Some (EnqueueWrite (CreateMessage type payload) cr)\<rparr>))"

text \<open>\<^verbatim>\<open>std::filesystem::rename\<close> replaces the target; a missing source throws.\<close>

definition rename_file :: "string \<Rightarrow> string \<Rightarrow> files \<Rightarrow> files result" where
  "rename_file from to fs = (case fs from of
     None \<Rightarrow> Inl (FilesystemError ''rename'')
   | Some contents \<Rightarrow> Inr (fs(from := None, to \<mapsto> contents)))"

definition SaveUUID :: "(string \<Rightarrow> string option) \<Rightarrow> string \<Rightarrow> Client \<times> files \<Rightarrow> (Client \<times> files) result" where
  "SaveUUID write_tmp uuid st = (let (cl, fs) = st in
     if uuid = '''' then
       res_map (\<lambda>cl. (cl, fs)) (reply MESSAGE_ERROR ''Empty UUID received from server'' cl)
     else if fs kUUIDFile \<noteq> None then
       res_map (\<lambda>cl. (cl, fs)) (reply MESSAGE_ERROR ''UUID file already exists on agent'' cl)
     else
       let fs = (case write_tmp uuid of None \<Rightarrow> fs | Some contents \<Rightarrow> fs(kUUIDTmp \<mapsto> contents)) in
       res_map (\<lambda>fs. (cl\<lparr>cl_id := uuid\<rparr>, fs)) (rename_file kUUIDTmp kUUIDFile fs))"

definition SendData :: "Client \<Rightarrow> Client result" where
  "SendData cl = reply MESSAGE_OK '''' cl"

definition StreamData :: "Client \<Rightarrow> Client result" where
  "StreamData cl =
     (if \<not> cl_has_buffer cl then reply MESSAGE_ERROR ''Metrics buffer is null'' cl
      else if cl_stream_data_reactor cl \<noteq> None then reply MESSAGE_ERROR ''StreamData RPC already active'' cl
      else reply MESSAGE_OK '''' (cl\<lparr>cl_stream_data_reactor := Some StreamMetricsReactor_new\<rparr>))"

definition OnMessage :: "(string \<Rightarrow> string option) \<Rightarrow> ControlMessage \<Rightarrow> Client \<times> files \<Rightarrow> (Client \<times> files) result" where
  "OnMessage write_tmp msg st = (let (cl, fs) = st; keep = res_map (\<lambda>cl. (cl, fs)) in
     case msg_type msg of
       MESSAGE_PING \<Rightarrow> keep (reply MESSAGE_PONG '''' cl)
     | MESSAGE_PONG \<Rightarrow> Inr st
     | MESSAGE_SEND_DATA \<Rightarrow> keep (SendData cl)
     | MESSAGE_STREAM_DATA \<Rightarrow> keep (StreamData cl)
     | MESSAGE_ERROR \<Rightarrow> Inr st
     | MESSAGE_OK \<Rightarrow> Inr st
     | MESSAGE_ID \<Rightarrow> SaveUUID write_tmp (payload_of msg) st
     | MESSAGE_UNKNOWN \<Rightarrow> Inr st)"

text \<open>\<^verbatim>\<open>ConnectReactor::OnReadDone\<close>: the message goes to the client; whether the reactor reads on.\<close>

definition ConnectReactor_OnReadDone ::
  "(string \<Rightarrow> string option) \<Rightarrow> bool \<Rightarrow> ControlMessage \<Rightarrow> Client \<times> files \<Rightarrow> ((Client \<times> files) \<times> bool) result" where
  "ConnectReactor_OnReadDone write_tmp ok res st =
     (if \<not> ok then Inr (st, False) else res_map (\<lambda>st. (st, True)) (OnMessage write_tmp res st))"

text \<open>\<^verbatim>\<open>Connect\<close> up to the wait: messages that gRPC delivers while the constructor of the reactor is
  still running (\<open>early\<close>) find \<^verbatim>\<open>connect_reactor_\<close> unset.\<close>

definition Connect :: "(string \<Rightarrow> string option) \<Rightarrow> ControlMessage list \<Rightarrow> Client \<times> files \<Rightarrow> (Client \<times> files) result" where
  "Connect write_tmp early st = (let (cl, fs) = st; cl = cl\<lparr>cl_id := fst (LoadUUID fs (cl_id cl))\<rparr> in
     res_map (\<lambda>(cl, fs). (cl\<lparr>cl_connect_reactor := Some ConnectReactor_new\<rparr>, fs))
       (res_fold (OnMessage write_tmp) early (cl, fs)))"

text \<open>The callback \<^verbatim>\<open>StreamData\<close> gives the stream reactor: it prints, and leaves the reactor in place.\<close>

definition stream_on_done :: "grpc_status \<Rightarrow> Client \<Rightarrow> string \<times> Client" where
  "stream_on_done status cl =
     (if \<not> status_ok status then ''StreamData RPC failed: '' @ error_message status
      else ''StreamData RPC completed successfully'', cl)"

definition StreamMetricsReactor_OnDone :: "grpc_status \<Rightarrow> Client \<Rightarrow> string \<times> Client" where
  "StreamMetricsReactor_OnDone status cl = (let (out, cl') = stream_on_done status cl in
     (''StreamMetricsReactor finished: '' @ error_message status @ newline @ out, cl'))"

section \<open>Sessions\<close>

text \<open>The messages a client has given to its control reactor: those started or queued.\<close>

definition accepted_by :: "ControlMessage list \<Rightarrow> Client \<Rightarrow> bool" where
  "accepted_by acc cl \<longleftrightarrow> (\<exists>cr. cl_connect_reactor cl = Some cr \<and> cr_inv acc cr)"

definition answers :: "ControlMessage list \<Rightarrow> MessageType \<Rightarrow> nat" where
  "answers acc t = count_list (map msg_type acc) t"

lemma answers_append [simp]: "answers (xs @ ys) t = answers xs t + answers ys t"
  by (simp add: answers_def)

lemma answers_simps [simp]:
  "answers [] t = 0" "answers (m # ms) t = (if msg_type m = t then 1 else 0) + answers ms t"
  by (simp_all add: answers_def)

lemma reply_accepted:
  assumes "accepted_by acc cl"
  shows "\<exists>cl'. reply t p cl = Inr cl' \<and> accepted_by (acc @ [CreateMessage t p]) cl' \<and>
    cl_has_buffer cl' = cl_has_buffer cl \<and> cl_stream_data_reactor cl' = cl_stream_data_reactor cl \<and> cl_id cl' = cl_id cl"
  using assms cr_inv_Enqueue by (auto simp: accepted_by_def reply_def)

lemma msg_type_Create [simp]: "msg_type (CreateMessage t p) = t"
  by (simp add: CreateMessage_def)

text \<open>The bookkeeping of a session: what was answered after the messages received so far.\<close>

definition session :: "bool \<Rightarrow> ControlMessage list \<Rightarrow> ControlMessage list \<Rightarrow> Client \<Rightarrow> bool" where
  "session has_buffer msgs acc cl \<longleftrightarrow> accepted_by acc cl \<and> cl_has_buffer cl = has_buffer \<and>
     answers acc MESSAGE_PONG = answers msgs MESSAGE_PING \<and>
     (cl_stream_data_reactor cl \<noteq> None) = (has_buffer \<and> 0 < answers msgs MESSAGE_STREAM_DATA) \<and>
     answers acc MESSAGE_OK = answers msgs MESSAGE_SEND_DATA +
       (if has_buffer \<and> 0 < answers msgs MESSAGE_STREAM_DATA then 1 else 0)"

lemma session_reply:
  assumes "session hb msgs acc cl" "t = MESSAGE_ERROR" "msg_type m \<notin> {MESSAGE_PING, MESSAGE_SEND_DATA, MESSAGE_STREAM_DATA}
    \<or> msg_type m = MESSAGE_STREAM_DATA \<and> (\<not> hb \<or> cl_stream_data_reactor cl \<noteq> None)"
  shows "\<exists>cl'. reply t p cl = Inr cl' \<and> session hb (msgs @ [m]) (acc @ [CreateMessage t p]) cl'"
proof -
  from reply_accepted [of acc cl t p] assms(1) obtain cl' where "reply t p cl = Inr cl'"
    "accepted_by (acc @ [CreateMessage t p]) cl'" "cl_has_buffer cl' = cl_has_buffer cl"
    "cl_stream_data_reactor cl' = cl_stream_data_reactor cl" by (auto simp: session_def)
  with assms show ?thesis by (auto simp: session_def)
qed

lemma SaveUUID_session:
  assumes "session hb msgs acc cl" "\<forall>u. write_tmp u = Some u" "msg_type m = MESSAGE_ID"
  shows "\<exists>cl' fs' acc'. SaveUUID write_tmp uuid (cl, fs) = Inr (cl', fs') \<and> session hb (msgs @ [m]) acc' cl'"
proof (cases "uuid = '''' \<or> fs kUUIDFile \<noteq> None")
  case True
  define p where "p = (if uuid = '''' then ''Empty UUID received from server'' else ''UUID file already exists on agent'')"
  from session_reply [OF assms(1) refl, of m p] assms(3) obtain cl'
    where "reply MESSAGE_ERROR p cl = Inr cl'" "session hb (msgs @ [m]) (acc @ [CreateMessage MESSAGE_ERROR p]) cl'"
    by auto
  with True show ?thesis by (auto simp: SaveUUID_def p_def split: if_splits)
next
  case False
  moreover have "session hb (msgs @ [m]) acc (cl\<lparr>cl_id := uuid\<rparr>)"
    using assms(1,3) by (simp add: session_def accepted_by_def)
  ultimately show ?thesis using assms(2) by (auto simp: SaveUUID_def rename_file_def)
qed

lemma OnMessage_session:
  assumes s: "session hb msgs acc cl" and w: "\<forall>u. write_tmp u = Some u"
  shows "\<exists>cl' fs' acc'. OnMessage write_tmp m (cl, fs) = Inr (cl', fs') \<and> session hb (msgs @ [m]) acc' cl'"
proof -
  have acc: "accepted_by acc cl" using s by (simp add: session_def)
  show ?thesis
  proof (cases "msg_type m")
    case MESSAGE_PING
    from reply_accepted [OF acc, of MESSAGE_PONG "''''"] obtain cl' where "reply MESSAGE_PONG '''' cl = Inr cl'"
      "accepted_by (acc @ [CreateMessage MESSAGE_PONG '''']) cl'" "cl_has_buffer cl' = cl_has_buffer cl"
      "cl_stream_data_reactor cl' = cl_stream_data_reactor cl" by blast
    then have "OnMessage write_tmp m (cl, fs) = Inr (cl', fs)"
      "session hb (msgs @ [m]) (acc @ [CreateMessage MESSAGE_PONG '''']) cl'"
      using s MESSAGE_PING by (simp_all add: OnMessage_def session_def)
    then show ?thesis by blast
  next
    case MESSAGE_SEND_DATA
    from reply_accepted [OF acc, of MESSAGE_OK "''''"] obtain cl' where "reply MESSAGE_OK '''' cl = Inr cl'"
      "accepted_by (acc @ [CreateMessage MESSAGE_OK '''']) cl'" "cl_has_buffer cl' = cl_has_buffer cl"
      "cl_stream_data_reactor cl' = cl_stream_data_reactor cl" by blast
    then have "OnMessage write_tmp m (cl, fs) = Inr (cl', fs)"
      "session hb (msgs @ [m]) (acc @ [CreateMessage MESSAGE_OK '''']) cl'"
      using s MESSAGE_SEND_DATA by (simp_all add: OnMessage_def session_def SendData_def)
    then show ?thesis by blast
  next
    case MESSAGE_ID
    with SaveUUID_session [OF s w] show ?thesis by (simp add: OnMessage_def)
  next
    case MESSAGE_STREAM_DATA
    show ?thesis
    proof (cases "hb \<and> cl_stream_data_reactor cl = None")
      case True
      let ?cl = "cl\<lparr>cl_stream_data_reactor := Some StreamMetricsReactor_new\<rparr>"
      have "accepted_by acc ?cl" using acc by (simp add: accepted_by_def)
      from reply_accepted [OF this, of MESSAGE_OK "''''"] obtain cl' where "reply MESSAGE_OK '''' ?cl = Inr cl'"
        "accepted_by (acc @ [CreateMessage MESSAGE_OK '''']) cl'" "cl_has_buffer cl' = cl_has_buffer cl"
        "cl_stream_data_reactor cl' = Some StreamMetricsReactor_new" by auto
      then have "OnMessage write_tmp m (cl, fs) = Inr (cl', fs)"
        "session hb (msgs @ [m]) (acc @ [CreateMessage MESSAGE_OK '''']) cl'"
        using True s MESSAGE_STREAM_DATA by (auto simp: OnMessage_def StreamData_def session_def)
      then show ?thesis by blast
    next
      case False
      define p where "p = (if hb then ''StreamData RPC already active'' else ''Metrics buffer is null'')"
      have hb: "cl_has_buffer cl = hb" using s by (simp add: session_def)
      from session_reply [OF s refl, of m p] False MESSAGE_STREAM_DATA obtain cl'
        where "reply MESSAGE_ERROR p cl = Inr cl'"
          "session hb (msgs @ [m]) (acc @ [CreateMessage MESSAGE_ERROR p]) cl'" by auto
      moreover from this have "OnMessage write_tmp m (cl, fs) = Inr (cl', fs)"
        using False hb MESSAGE_STREAM_DATA by (cases hb) (simp_all add: OnMessage_def StreamData_def p_def)
      ultimately show ?thesis by blast
    qed
  qed (rule exI [of _ cl], rule exI [of _ fs], rule exI [of _ acc], use s in \<open>simp add: OnMessage_def session_def\<close>)+
qed

lemma session_run:
  assumes "session hb msgs acc cl" "\<forall>u. write_tmp u = Some u"
  shows "\<exists>cl' fs' acc'. res_fold (OnMessage write_tmp) ms (cl, fs) = Inr (cl', fs') \<and> session hb (msgs @ ms) acc' cl'"
  using assms(1)
proof (induction ms arbitrary: msgs acc cl fs)
  case (Cons m ms)
  from OnMessage_session [OF Cons.prems assms(2), of m fs] obtain cl1 fs1 acc1
    where "OnMessage write_tmp m (cl, fs) = Inr (cl1, fs1)" "session hb (msgs @ [m]) acc1 cl1" by blast
  with Cons.IH [of "msgs @ [m]" acc1 cl1 fs1] show ?case by simp
qed auto

text \<open>No message makes the client touch an id file that exists.\<close>

lemma OnMessage_keeps_file:
  "OnMessage write_tmp m (cl, fs) = Inr (cl', fs') \<Longrightarrow> fs kUUIDFile = Some c \<Longrightarrow> fs' kUUIDFile = Some c"
  by (auto simp: OnMessage_def SaveUUID_def Let_def res_map_def split: MessageType.splits sum.splits if_splits)

section \<open>Properties\<close>



text \<open>
  C22.  An id the server assigns survives a restart: after \<^verbatim>\<open>SaveUUID\<close> on an agent without an id
  file, \<^verbatim>\<open>LoadUUID\<close> reads the same id back, the temporary file is gone and no other file changed.
\<close>

theorem uuid_survives_restart:
  assumes "uuid \<noteq> ''''" "CHR 0x0A \<notin> set uuid" "fs kUUIDFile = None" "write_tmp uuid = Some uuid"
  shows "\<exists>fs'. SaveUUID write_tmp uuid (cl, fs) = Inr (cl\<lparr>cl_id := uuid\<rparr>, fs') \<and>
    LoadUUID fs' old = (uuid, True) \<and> fs' kUUIDTmp = None \<and> (\<forall>f. f \<notin> {kUUIDFile, kUUIDTmp} \<longrightarrow> fs' f = fs f)"
proof -
  have line: "takeWhile (\<lambda>c. c \<noteq> CHR 0x0A) uuid = uuid" using assms(2) by (auto simp: takeWhile_eq_all_conv)
  have "kUUIDTmp \<noteq> kUUIDFile" by (simp add: kUUIDTmp_def)
  with assms(1,3,4) show ?thesis by (simp add: SaveUUID_def rename_file_def LoadUUID_def Let_def line)
qed

theorem uuid_survives_restart_witness:
  "\<exists>fs'. SaveUUID Some ''a-1'' (Client_new True, Map.empty) = Inr ((Client_new True)\<lparr>cl_id := ''a-1''\<rparr>, fs') \<and>
     LoadUUID fs' '''' = (''a-1'', True)"
  using uuid_survives_restart [of "''a-1''" Map.empty Some "Client_new True" "''''"] by auto

text \<open>
  The id on disk is never replaced: whatever the server sends, an id file that exists
  keeps its contents.
\<close>

lemma client_keeps_id_file:
  assumes "res_fold (OnMessage write_tmp) msgs (cl, fs) = Inr (cl', fs')" "fs kUUIDFile = Some c"
  shows "fs' kUUIDFile = Some c"
  using assms
proof (induction msgs arbitrary: cl fs)
  case (Cons m msgs)
  then obtain cl1 fs1 where "OnMessage write_tmp m (cl, fs) = Inr (cl1, fs1)"
    "res_fold (OnMessage write_tmp) msgs (cl1, fs1) = Inr (cl', fs')"
    by (auto simp: res_bind_eq_Inr)
  with Cons OnMessage_keeps_file show ?case by blast
qed simp

lemma client_keeps_id_file_example:
  "\<exists>cl' fs'. res_fold (OnMessage Some) [\<lparr>msg_type = MESSAGE_ID, msg_payload = Some ''b''\<rparr>]
       ((Client_new True)\<lparr>cl_connect_reactor := Some ConnectReactor_new\<rparr>, [kUUIDFile \<mapsto> ''a'']) = Inr (cl', fs') \<and>
     fs' kUUIDFile = Some ''a''"
proof -
  obtain cl' fs' where "res_fold (OnMessage Some) [\<lparr>msg_type = MESSAGE_ID, msg_payload = Some ''b''\<rparr>]
       ((Client_new True)\<lparr>cl_connect_reactor := Some ConnectReactor_new\<rparr>, [kUUIDFile \<mapsto> ''a'']) = Inr (cl', fs')"
    by (simp add: OnMessage_def SaveUUID_def reply_def payload_of_def)
  with client_keeps_id_file [OF this] show ?thesis by simp
qed

text \<open>
  A message that arrives while the constructor of the control reactor is still running
  (it starts the call before it returns) meets a null \<^verbatim>\<open>connect_reactor_\<close> and crashes the agent.
\<close>

lemma early_message_crashes:
  assumes "msg_type m \<in> {MESSAGE_PING, MESSAGE_SEND_DATA, MESSAGE_STREAM_DATA}"
  shows "Connect write_tmp (m # ms) (Client_new hb, fs) = Inl NullDeref"
  using assms by (auto simp: Connect_def Client_new_def OnMessage_def reply_def SendData_def StreamData_def Let_def)

lemma early_message_crashes_example:
  "Connect Some [CreateMessage MESSAGE_PING ''''] (Client_new True, Map.empty) = Inl NullDeref"
  using early_message_crashes [of "CreateMessage MESSAGE_PING ''''" Some "[]" True Map.empty] by simp

text \<open>
  A stream that has ended cannot be started again: the callback leaves the finished reactor
  in place, so the next request to stream is refused as already active.
\<close>

lemma ended_stream_blocks_the_next:
  assumes "cl_has_buffer cl" "cl_stream_data_reactor cl = None" "StreamData cl = Inr cl1"
  shows "StreamData (snd (StreamMetricsReactor_OnDone status cl1))
    = reply MESSAGE_ERROR ''StreamData RPC already active'' cl1"
proof -
  obtain cr where "cl1 = cl\<lparr>cl_stream_data_reactor := Some StreamMetricsReactor_new, cl_connect_reactor := Some cr\<rparr>"
    using assms by (auto simp: StreamData_def reply_def split: option.splits)
  with assms(1) show ?thesis by (simp add: StreamData_def StreamMetricsReactor_OnDone_def stream_on_done_def)
qed

lemma ended_stream_blocks_the_next_example:
  "\<exists>cl1 cl2. StreamData ((Client_new True)\<lparr>cl_connect_reactor := Some ConnectReactor_new\<rparr>) = Inr cl1 \<and>
     StreamData (snd (StreamMetricsReactor_OnDone \<lparr>status_ok = True, error_message = ''''\<rparr> cl1)) = Inr cl2"
proof -
  obtain cl1 where c: "StreamData ((Client_new True)\<lparr>cl_connect_reactor := Some ConnectReactor_new\<rparr>) = Inr cl1"
    "cl_connect_reactor cl1 \<noteq> None"
    by (simp add: StreamData_def Client_new_def reply_def)
  from ended_stream_blocks_the_next [OF _ _ c(1), of "\<lparr>status_ok = True, error_message = ''''\<rparr>"] c show ?thesis
    by (auto simp: Client_new_def reply_def)
qed

end
