(* ===== verification/Proc_Collectors.thy ===== *)
theory Proc_Collectors
  imports Metric_Types Text_IO Floating
begin

text \<open>
  The collectors that read \<^verbatim>\<open>/proc\<close>: \<^verbatim>\<open>ProcStatCollector\<close> (collectors/proc_stat_collector.h / .cc) and
  \<^verbatim>\<open>RamCollector\<close> (collectors/ram_collector.h / .cc).

  A pseudo file is what reading it returns at that moment, \<open>None\<close> when it cannot be opened; the
  clock is an argument.  A variable that extraction may leave unwritten is an \<open>option\<close>, and its
  use is the failure \<open>Uninitialised\<close>.
\<close>

section \<open>CPU utilisation\<close>

record ProcStatCollector =
  ps_requested_metrics :: "MetricType list"
  ps_prev_total :: u64
  ps_prev_idle :: u64

definition ProcStatCollector_new :: ProcStatCollector where
  "ProcStatCollector_new = \<lparr>ps_requested_metrics = [], ps_prev_total = 0, ps_prev_idle = 0\<rparr>"

definition ProcStat_Init :: "ProcStatCollector \<Rightarrow> ProcStatCollector \<times> bool" where
  "ProcStat_Init c = (c, True)"

definition ProcStat_SetRequestedMetrics :: "MetricType list \<Rightarrow> ProcStatCollector \<Rightarrow> ProcStatCollector" where
  "ProcStat_SetRequestedMetrics metrics c = c\<lparr>ps_requested_metrics := metrics\<rparr>"

definition ProcStat_IsSupported :: "string option \<Rightarrow> bool" where
  "ProcStat_IsSupported proc_stat = (proc_stat \<noteq> None)"

definition ProcStat_Satisfiable :: "MetricType list" where
  "ProcStat_Satisfiable = [METRIC_TYPE_CPU_UTILIZATION]"

text \<open>\<open>n\<close> extractions into variables that were never written.\<close>

fun read_u64s :: "nat \<Rightarrow> istream \<Rightarrow> u64 option list" where
  "read_u64s 0 s = []"
| "read_u64s (Suc n) s = (let (v, s') = read_u64 None s in v # read_u64s n s')"

definition all_written :: "'a option list \<Rightarrow> 'a list result" where
  "all_written vs = (if None \<in> set vs then Inl Uninitialised else Inr (map the vs))"

text \<open>The pair is \<open>(total, idle)\<close>; both stay as they are when there is no line to read.\<close>

definition ReadCpuStats :: "string option \<Rightarrow> u64 \<times> u64 \<Rightarrow> (u64 \<times> u64) result" where
  "ReadCpuStats proc_stat old = (case getlines (case proc_stat of None \<Rightarrow> '''' | Some s \<Rightarrow> s) of
     [] \<Rightarrow> Inr old
   | line # _ \<Rightarrow>
       (let (cpu_label, iss) = read_string '''' (istream_of line) in
        res_map (\<lambda>vs. case vs of
            [user, nice, system, cur_idle, iowait, irq, softirq, steal] \<Rightarrow>
              (let idle = cur_idle + iowait in (user + nice + system + idle + irq + softirq + steal, idle))
          | _ \<Rightarrow> old)
          (all_written (read_u64s 8 iss))))"

definition usage_percent :: "u64 \<Rightarrow> u64 \<Rightarrow> double" where
  "usage_percent diff_total diff_idle =
     (if 0 < diff_total
      then fmul binary64 (fdiv binary64 (f_of_int binary64 (uint (diff_total - diff_idle)))
             (f_of_int binary64 (uint diff_total))) (Fin 100)
      else Fin 0)"

definition ProcStat_Collect ::
  "string option \<Rightarrow> i64 \<Rightarrow> ProcStatCollector \<Rightarrow> (ProcStatCollector \<times> Metric list) result" where
  "ProcStat_Collect proc_stat now c =
     (if ps_requested_metrics c = [] then Inr (c, [])
      else if METRIC_TYPE_CPU_UTILIZATION \<notin> set (ps_requested_metrics c) then Inr (c, [])
      else res_map (\<lambda>(current_total, current_idle).
          (c\<lparr>ps_prev_total := current_total, ps_prev_idle := current_idle\<rparr>,
           [\<lparr>metric_type = METRIC_TYPE_CPU_UTILIZATION, devId = None,
             metric_value = usage_percent (current_total - ps_prev_total c) (current_idle - ps_prev_idle c),
             timestamp = now\<rparr>]))
        (ReadCpuStats proc_stat (0, 0)))"

section \<open>Memory\<close>

record RamCollector =
  ram_requested_metrics :: "MetricType list"
  ram_initialized :: bool

definition RamCollector_new :: RamCollector where
  "RamCollector_new = \<lparr>ram_requested_metrics = [], ram_initialized = False\<rparr>"

definition Ram_Init :: "RamCollector \<Rightarrow> RamCollector \<times> bool" where
  "Ram_Init c = (c\<lparr>ram_initialized := True\<rparr>, True)"

definition Ram_SetRequestedMetrics :: "MetricType list \<Rightarrow> RamCollector \<Rightarrow> RamCollector" where
  "Ram_SetRequestedMetrics metrics c = c\<lparr>ram_requested_metrics := metrics\<rparr>"

definition Ram_IsSupported :: "string option \<Rightarrow> bool" where
  "Ram_IsSupported meminfo = (meminfo \<noteq> None)"

definition Ram_Satisfiable :: "MetricType list" where
  "Ram_Satisfiable = [METRIC_TYPE_RAM_TOTAL, METRIC_TYPE_RAM_USED]"

definition use_value :: "u64 option \<Rightarrow> u64 result" where
  "use_value v = (case v of None \<Rightarrow> Inl Uninitialised | Some x \<Rightarrow> Inr x)"

text \<open>The loop over the lines; \<open>key\<close> and \<open>value\<close> live outside it and keep what the last line left.\<close>

fun meminfo_loop :: "string list \<Rightarrow> string \<Rightarrow> u64 option \<Rightarrow> u64 \<Rightarrow> u64 \<Rightarrow> (u64 \<times> u64) result" where
  "meminfo_loop [] key value tot available = Inr (tot, available)"
| "meminfo_loop (line # lines) key value tot available =
     (let (key, iss) = read_string key (istream_of line);
          (value, iss) = read_u64 value iss
      in res_bind
           (if key = ''MemTotal:'' then res_map (\<lambda>v. (v * 1024, available)) (use_value value)
            else if key = ''MemAvailable:'' then res_map (\<lambda>v. (tot, v * 1024)) (use_value value)
            else Inr (tot, available))
           (\<lambda>(tot, available).
              if 0 < tot \<and> 0 < available then Inr (tot, available)
              else meminfo_loop lines key value tot available))"

text \<open>The pair is \<open>(used, total)\<close>.\<close>

definition ReadStats :: "string option \<Rightarrow> (u64 \<times> u64) result" where
  "ReadStats meminfo = res_map (\<lambda>(total, available). (total - available, total))
     (meminfo_loop (getlines (case meminfo of None \<Rightarrow> '''' | Some s \<Rightarrow> s)) '''' None 0 0)"

definition Ram_Collect :: "string option \<Rightarrow> i64 \<Rightarrow> RamCollector \<Rightarrow> (RamCollector \<times> Metric list) result" where
  "Ram_Collect meminfo now c =
     (let needs_total = METRIC_TYPE_RAM_TOTAL \<in> set (ram_requested_metrics c);
          needs_used = METRIC_TYPE_RAM_USED \<in> set (ram_requested_metrics c) in
      if \<not> ram_initialized c \<or> ram_requested_metrics c = [] then Inr (c, [])
      else if \<not> needs_total \<and> \<not> needs_used then Inr (c, [])
      else res_map (\<lambda>(used, total). (c,
          (if needs_total then [\<lparr>metric_type = METRIC_TYPE_RAM_TOTAL, devId = None,
              metric_value = f_of_int binary64 (uint total), timestamp = now\<rparr>] else []) @
          (if needs_used then [\<lparr>metric_type = METRIC_TYPE_RAM_USED, devId = None,
              metric_value = f_of_int binary64 (uint used), timestamp = now\<rparr>] else [])))
        (ReadStats meminfo))"

section \<open>Utilisation stays within 0 and 100 percent\<close>

lemma fround_small:
  assumes "0 \<le> rnd binary64 q" "rnd binary64 q \<le> 100"
  shows "fround binary64 q = Fin (rnd binary64 q)"
proof (rule fround_Fin)
  have "(100 :: rat) < pow2 7" by (simp add: pow2_def)
  also have "\<dots> \<le> pow2 (emax binary64)" by (rule pow2_mono) (simp add: binary64_def)
  finally show "\<bar>rnd binary64 q\<bar> < pow2 (emax binary64)" using assms by simp
qed

lemma ratio_in_range:
  assumes "0 \<le> a" "a \<le> b" "0 < b" "b < 2 ^ 64"
  shows "\<exists>p. fmul binary64 (fdiv binary64 (f_of_int binary64 a) (f_of_int binary64 b)) (Fin 100) = Fin p \<and>
    0 \<le> p \<and> p \<le> 100"
proof -
  let ?ra = "rnd binary64 (of_int a)" and ?rb = "rnd binary64 (of_int b)"
  have fa: "f_of_int binary64 a = Fin ?ra" and fb: "f_of_int binary64 b = Fin ?rb"
    using f_of_int_u64(1) assms by simp_all
  have "(1 :: rat) \<le> of_int b" using assms(3) by simp
  from b64.rd_mono [OF this] have rb: "0 < ?rb" by (simp add: b64.rd_one)
  have q: "0 \<le> rnd binary64 (?ra / ?rb)" "rnd binary64 (?ra / ?rb) \<le> 1"
    using b64.rd_fraction [of "of_int a" "of_int b"] assms rb by simp_all
  then have d: "fdiv binary64 (Fin ?ra) (Fin ?rb) = Fin (rnd binary64 (?ra / ?rb))"
    using rb by (simp add: fround_small)
  have "\<bar>100 :: int\<bar> \<le> 2 ^ prec binary64" by (simp add: binary64_def)
  from representable_int [OF valid_formats(1) this] have "representable binary64 100" by simp
  with b64.rd_scaled [OF q, of 100]
  have r: "0 \<le> rnd binary64 (rnd binary64 (?ra / ?rb) * 100)" "rnd binary64 (rnd binary64 (?ra / ?rb) * 100) \<le> 100"
    by simp_all
  then have "fmul binary64 (fdiv binary64 (f_of_int binary64 a) (f_of_int binary64 b)) (Fin 100)
      = Fin (rnd binary64 (rnd binary64 (?ra / ?rb) * 100))"
    by (simp add: fa fb d fround_small del: fdiv.simps)
  with r show ?thesis by blast
qed

lemma usage_in_range:
  assumes "unat di \<le> unat dt"
  shows "\<exists>p. usage_percent dt di = Fin p \<and> 0 \<le> p \<and> p \<le> 100"
proof (cases "0 < dt")
  case True
  have le: "uint di \<le> uint dt" using assms by (simp only: word_le_nat_alt [symmetric] word_le_def)
  have b: "0 < uint dt" "uint dt < 2 ^ 64" using True unsigned_less [of dt] by (auto simp: word_less_def)
  have a: "0 \<le> uint (dt - di)" "uint (dt - di) \<le> uint dt" using le by (simp_all add: uint_sub_if')
  from ratio_in_range [OF a b] True show ?thesis by (simp add: usage_percent_def)
qed (simp add: usage_percent_def)

section \<open>Reading the kernel's files\<close>

definition stat_line :: "nat list \<Rightarrow> string" where
  "stat_line vs = ''cpu '' @ concat (map (\<lambda>v. '' '' @ show_nat v) vs)"

lemma space_props [simp]: "is_space CHR '' ''" "\<not> is_digit CHR '' ''" "\<not> is_digit CHR 0x0A" "is_space CHR 0x0A"
  by (simp_all add: is_space_def is_digit_def)

lemma show_nat_no_newline: "CHR 0x0A \<notin> set (show_nat n)" "CHR '' '' \<notin> set (show_nat n)"
  using show_nat_digits [of n] space_props(2,3) by blast+

lemma read_u64s_shown:
  assumes "n \<le> length vs" "\<forall>v \<in> set vs. v < 2 ^ 64" "tail = [] \<or> \<not> is_digit (hd tail)"
  shows "read_u64s n \<lparr>is_rest = concat (map (\<lambda>v. '' '' @ show_nat v) vs) @ tail, is_fail = False\<rparr>
    = map (\<lambda>v. Some (of_nat v)) (take n vs)"
  using assms
proof (induction n arbitrary: vs)
  case (Suc n)
  then obtain v vs' where vs: "vs = v # vs'" by (cases vs) auto
  let ?rest = "concat (map (\<lambda>v. '' '' @ show_nat v) vs') @ tail"
  have "?rest = [] \<or> \<not> is_digit (hd ?rest)" using Suc.prems(3) by (cases vs') auto
  then have "read_u64 None \<lparr>is_rest = '' '' @ show_nat v @ ?rest, is_fail = False\<rparr>
      = (Some (of_nat v), \<lparr>is_rest = ?rest, is_fail = False\<rparr>)"
    using Suc.prems(2) vs by (intro read_u64_show) simp_all
  with Suc.IH [of vs'] Suc.prems vs show ?case by simp
qed simp

lemma read_label: "read_string old (istream_of (stat_line vs))
    = (''cpu'', \<lparr>is_rest = '' '' @ concat (map (\<lambda>v. '' '' @ show_nat v) vs), is_fail = False\<rparr>)"
  by (simp add: read_string_def istream_of_def stat_line_def is_space_def)

lemma list8: "length vs = 8 \<Longrightarrow> vs = [vs!0, vs!1, vs!2, vs!3, vs!4, vs!5, vs!6, vs!7]"
  by (simp add: list_eq_iff_nth_eq All_less_Suc eval_nat_numeral)

text \<open>The first line of \<^verbatim>\<open>/proc/stat\<close>: the total is the sum of the first eight counters.\<close>

lemma ReadCpuStats_stat_line:
  assumes "8 \<le> length vs" "\<forall>v \<in> set vs. v < 2 ^ 64"
  shows "ReadCpuStats (Some (stat_line vs @ [CHR 0x0A] @ rest)) old
    = Inr (of_nat (sum_list (take 8 vs)), of_nat (vs ! 3 + vs ! 4))"
proof -
  have "CHR 0x0A \<notin> set (stat_line vs)" using show_nat_no_newline by (auto simp: stat_line_def)
  note lines = getlines_line [OF this, of rest]
  obtain v vs' where vs: "vs = v # vs'" using assms(1) by (cases vs) auto
  let ?w = "take 8 vs"
  have "read_u64s 8 \<lparr>is_rest = '' '' @ concat (map (\<lambda>v. '' '' @ show_nat v) vs), is_fail = False\<rparr>
      = read_u64s 8 \<lparr>is_rest = concat (map (\<lambda>v. '' '' @ show_nat v) vs), is_fail = False\<rparr>"
    by (simp add: eval_nat_numeral read_u64_def vs)
  also have "\<dots> = map (\<lambda>v. Some (of_nat v)) ?w"
    using read_u64s_shown [OF assms, of "[]"] by simp
  finally have "read_u64s 8 \<lparr>is_rest = '' '' @ concat (map (\<lambda>v. '' '' @ show_nat v) vs), is_fail = False\<rparr>
      = map (\<lambda>v. Some (of_nat v)) ?w" .
  then have read: "all_written (read_u64s 8 \<lparr>is_rest = '' '' @ concat (map (\<lambda>v. '' '' @ show_nat v) vs), is_fail = False\<rparr>)
      = Inr (map of_nat ?w)"
    by (auto simp: all_written_def comp_def)
  have w: "?w = [vs!0, vs!1, vs!2, vs!3, vs!4, vs!5, vs!6, vs!7]"
    using list8 [of ?w] assms(1) by simp
  show ?thesis
    unfolding ReadCpuStats_def by (simp add: lines [simplified] read_label read [simplified] w add_ac)
qed

section \<open>\<^verbatim>\<open>/proc/meminfo\<close>\<close>

definition meminfo_line :: "string \<times> nat \<Rightarrow> string" where
  "meminfo_line kv = fst kv @ '': '' @ show_nat (snd kv) @ '' kB''"

definition word_like :: "string \<Rightarrow> bool" where
  "word_like s \<longleftrightarrow> s \<noteq> [] \<and> (\<forall>c \<in> set s. \<not> is_space c)"

lemma read_meminfo_line:
  assumes "word_like k" "n < 2 ^ 64"
  shows "\<exists>iss iss'. read_string old (istream_of (meminfo_line (k, n))) = (k @ '':'', iss) \<and>
    read_u64 v iss = (Some (of_nat n), iss')"
proof -
  have k: "k \<noteq> []" "\<And>c. c \<in> set (k @ '':'') \<Longrightarrow> \<not> is_space c" using assms(1) by (auto simp: word_like_def is_space_def)
  then have "dropWhile is_space (meminfo_line (k, n)) = meminfo_line (k, n)"
    by (cases k) (auto simp: meminfo_line_def)
  moreover have "takeWhile (\<lambda>c. \<not> is_space c) ((k @ '':'') @ '' '' @ show_nat n @ '' kB'') = k @ '':''"
    "dropWhile (\<lambda>c. \<not> is_space c) ((k @ '':'') @ '' '' @ show_nat n @ '' kB'') = '' '' @ show_nat n @ '' kB''"
    using k(2) by (subst takeWhile_append2 dropWhile_append2; simp)+
  ultimately have "read_string old (istream_of (meminfo_line (k, n)))
      = (k @ '':'', \<lparr>is_rest = '' '' @ show_nat n @ '' kB'', is_fail = False\<rparr>)"
    by (simp add: read_string_def istream_of_def meminfo_line_def)
  moreover have "read_u64 v \<lparr>is_rest = '' '' @ show_nat n @ '' kB'', is_fail = False\<rparr>
      = (Some (of_nat n), \<lparr>is_rest = '' kB'', is_fail = False\<rparr>)"
    using assms(2) by (intro read_u64_show) simp_all
  ultimately show ?thesis by blast
qed

definition meminfo_text :: "(string \<times> nat) list \<Rightarrow> string" where
  "meminfo_text kvs = concat (map (\<lambda>kv. meminfo_line kv @ [CHR 0x0A]) kvs)"

lemma getlines_meminfo:
  "\<forall>kv \<in> set kvs. word_like (fst kv) \<Longrightarrow> getlines (meminfo_text kvs) = map meminfo_line kvs"
proof (induction kvs)
  case Nil
  then show ?case by (simp add: meminfo_text_def getlines.simps)
next
  case (Cons kv kvs)
  have "CHR 0x0A \<notin> set (fst kv)" using Cons.prems space_props(4) by (auto simp: word_like_def)
  then have "CHR 0x0A \<notin> set (meminfo_line kv)" using show_nat_no_newline by (auto simp: meminfo_line_def)
  from getlines_line [OF this, of "meminfo_text kvs"] Cons show ?case by (simp add: meminfo_text_def)
qed

definition kib_of :: "nat option \<Rightarrow> u64 \<Rightarrow> u64" where
  "kib_of n old = (case n of None \<Rightarrow> old | Some n \<Rightarrow> of_nat n * 1024)"

lemma meminfo_loop_text:
  assumes "\<forall>kv \<in> set kvs. word_like (fst kv) \<and> snd kv < 2 ^ 64" "distinct (map fst kvs)"
    "0 < tot \<longrightarrow> ''MemTotal'' \<notin> set (map fst kvs)" "0 < av \<longrightarrow> ''MemAvailable'' \<notin> set (map fst kvs)"
  shows "meminfo_loop (map meminfo_line kvs) key v tot av
    = Inr (kib_of (map_of kvs ''MemTotal'') tot, kib_of (map_of kvs ''MemAvailable'') av)"
  using assms
proof (induction kvs arbitrary: key v tot av)
  case (Cons kv kvs)
  obtain k n where kv: "kv = (k, n)" by (cases kv)
  obtain iss iss' where r: "read_string key (istream_of (meminfo_line (k, n))) = (k @ '':'', iss)"
    "read_u64 v iss = (Some (of_nat n), iss')"
    using read_meminfo_line [of k n key v] Cons.prems(1) kv by auto
  have colon: "(k @ '':'' = ''MemTotal:'') = (k = ''MemTotal'')" "(k @ '':'' = ''MemAvailable:'') = (k = ''MemAvailable'')"
    using append_same_eq [of k "'':''" "''MemTotal''"] append_same_eq [of k "'':''" "''MemAvailable''"] by simp_all
  let ?tot = "if k = ''MemTotal'' then of_nat n * 1024 else tot"
  let ?av = "if k = ''MemAvailable'' then of_nat n * 1024 else av"
  have step: "meminfo_loop (map meminfo_line (kv # kvs)) key v tot av =
      (if 0 < ?tot \<and> 0 < ?av then Inr (?tot, ?av)
       else meminfo_loop (map meminfo_line kvs) (k @ '':'') (Some (of_nat n)) ?tot ?av)"
    by (simp add: kv r colon use_value_def)
  have t: "0 < ?tot \<longrightarrow> ''MemTotal'' \<notin> set (map fst kvs)" using Cons.prems(2,3) kv by auto
  have a: "0 < ?av \<longrightarrow> ''MemAvailable'' \<notin> set (map fst kvs)" using Cons.prems(2,4) kv by auto
  have "(if 0 < ?tot \<and> 0 < ?av then Inr (?tot, ?av)
       else meminfo_loop (map meminfo_line kvs) (k @ '':'') (Some (of_nat n)) ?tot ?av)
     = Inr (kib_of (map_of kvs ''MemTotal'') ?tot, kib_of (map_of kvs ''MemAvailable'') ?av)"
  proof (cases "0 < ?tot \<and> 0 < ?av")
    case True
    with t a have "map_of kvs ''MemTotal'' = None" "map_of kvs ''MemAvailable'' = None"
      by (simp_all add: map_of_eq_None_iff)
    with True show ?thesis by (simp add: kib_of_def)
  next
    case False
    then have "(if 0 < ?tot \<and> 0 < ?av then Inr (?tot, ?av)
       else meminfo_loop (map meminfo_line kvs) (k @ '':'') (Some (of_nat n)) ?tot ?av)
      = meminfo_loop (map meminfo_line kvs) (k @ '':'') (Some (of_nat n)) ?tot ?av" by (simp only: if_False)
    also have "\<dots> = Inr (kib_of (map_of kvs ''MemTotal'') ?tot, kib_of (map_of kvs ''MemAvailable'') ?av)"
      by (rule Cons.IH [OF _ _ t a]) (use Cons.prems(1,2) in simp_all)
    finally show ?thesis .
  qed
  moreover have "k = x \<Longrightarrow> map_of kvs x = None" for x
    using Cons.prems(2) kv by (auto simp: map_of_eq_None_iff)
  then have "kib_of (map_of kvs ''MemTotal'') ?tot = kib_of (map_of (kv # kvs) ''MemTotal'') tot"
    "kib_of (map_of kvs ''MemAvailable'') ?av = kib_of (map_of (kv # kvs) ''MemAvailable'') av"
    by (auto simp: kv kib_of_def)
  ultimately show ?case using step by simp
qed (simp add: kib_of_def)

lemma uint_kib:
  assumes "n < 2 ^ 54"
  shows "uint (of_nat n * 1024 :: u64) = int n * 1024"
proof -
  have "(of_nat n * 1024 :: u64) = of_nat (n * 1024)" by simp
  moreover have "n * 1024 < 2 ^ 64" using assms by simp
  ultimately have "unat (of_nat n * 1024 :: u64) = n * 1024" by (simp add: unat_of_nat del: of_nat_mult)
  then show ?thesis by (metis int_nat_eq of_nat_mult of_nat_numeral uint_nat)
qed

section \<open>Properties\<close>

text \<open>
  C31.  Between two readings of \<^verbatim>\<open>/proc/stat\<close> whose counters have not gone down, the utilisation
  reported is a number between 0 and 100, although the differences are unsigned and the
  quotient is rounded.
\<close>

theorem ProcStat_utilisation_in_range:
  assumes "8 \<le> length vs" "8 \<le> length ws" "\<forall>v \<in> set (vs @ ws). v < 2 ^ 64"
    "list_all2 (\<le>) (take 8 vs) (take 8 ws)" "sum_list (take 8 ws) < 2 ^ 64"
    "METRIC_TYPE_CPU_UTILIZATION \<in> set (ps_requested_metrics c)"
  shows "\<exists>c1 m1 c2 m2 p.
    ProcStat_Collect (Some (stat_line vs @ [CHR 0x0A] @ rest1)) t1 c = Inr (c1, [m1]) \<and>
    ProcStat_Collect (Some (stat_line ws @ [CHR 0x0A] @ rest2)) t2 c1 = Inr (c2, [m2]) \<and>
    metric_value m2 = Fin p \<and> 0 \<le> p \<and> p \<le> 100"
proof -
  let ?T1 = "sum_list (take 8 vs)" and ?T2 = "sum_list (take 8 ws)"
  let ?I1 = "vs ! 3 + vs ! 4" and ?I2 = "ws ! 3 + ws ! 4"
  have r1: "ReadCpuStats (Some (stat_line vs @ [CHR 0x0A] @ rest1)) old = Inr (of_nat ?T1, of_nat ?I1)"
    and r2: "ReadCpuStats (Some (stat_line ws @ [CHR 0x0A] @ rest2)) old = Inr (of_nat ?T2, of_nat ?I2)" for old
    using ReadCpuStats_stat_line assms(1-3) by simp_all
  have v: "take 8 vs = [vs!0, vs!1, vs!2, vs!3, vs!4, vs!5, vs!6, vs!7]"
    and w: "take 8 ws = [ws!0, ws!1, ws!2, ws!3, ws!4, ws!5, ws!6, ws!7]"
    using list8 [of "take 8 vs"] list8 [of "take 8 ws"] assms(1,2) by simp_all
  have mono: "?I1 \<le> ?I2" "?T1 \<le> ?T2" "?I2 - ?I1 \<le> ?T2 - ?T1" using assms(4) unfolding v w by (simp_all, linarith)
  have d: "(of_nat ?T2 - of_nat ?T1 :: u64) = of_nat (?T2 - ?T1)" "(of_nat ?I2 - of_nat ?I1 :: u64) = of_nat (?I2 - ?I1)"
    using mono by (simp_all add: of_nat_diff)
  have "?T2 - ?T1 < 2 ^ 64" "?I2 - ?I1 < 2 ^ 64" using mono assms(5) by linarith+
  then have "unat (of_nat ?I2 - of_nat ?I1 :: u64) \<le> unat (of_nat ?T2 - of_nat ?T1 :: u64)"
    using mono(3) unfolding d by (simp add: unat_of_nat del: of_nat_diff)
  from usage_in_range [OF this] obtain p where "usage_percent (of_nat ?T2 - of_nat ?T1) (of_nat ?I2 - of_nat ?I1) = Fin p"
    "0 \<le> p" "p \<le> 100" by blast
  moreover have "ps_requested_metrics c \<noteq> []" using assms(6) by auto
  ultimately show ?thesis using assms(6) unfolding ProcStat_Collect_def by (simp add: r1 [simplified] r2 [simplified])
qed

theorem ProcStat_utilisation_in_range_witness:
  "\<exists>c1 m1 c2 m2 p.
    ProcStat_Collect (Some (stat_line [1, 1, 1, 5, 0, 0, 0, 0] @ [CHR 0x0A])) 1
      (ProcStatCollector_new\<lparr>ps_requested_metrics := [METRIC_TYPE_CPU_UTILIZATION]\<rparr>) = Inr (c1, [m1]) \<and>
    ProcStat_Collect (Some (stat_line [2, 1, 1, 6, 0, 0, 0, 0] @ [CHR 0x0A])) 2 c1 = Inr (c2, [m2]) \<and>
    metric_value m2 = Fin p \<and> 0 \<le> p \<and> p \<le> 100"
  using ProcStat_utilisation_in_range [of "[1, 1, 1, 5, 0, 0, 0, 0]" "[2, 1, 1, 6, 0, 0, 0, 0]"
      "ProcStatCollector_new\<lparr>ps_requested_metrics := [METRIC_TYPE_CPU_UTILIZATION]\<rparr>" "[]" 1 "[]" 2] by simp

text \<open>
  \<^verbatim>\<open>RamCollector\<close> reads a well-formed \<^verbatim>\<open>/proc/meminfo\<close> right, wherever the two lines it needs
  stand: the total and the used memory reported are those of the file, in bytes.
\<close>

lemma RamCollector_reads_meminfo:
  assumes "distinct (map fst kvs)" "\<forall>kv \<in> set kvs. word_like (fst kv) \<and> snd kv < 2 ^ 54"
    "map_of kvs ''MemTotal'' = Some T" "map_of kvs ''MemAvailable'' = Some A" "A \<le> T"
    "ram_initialized c" "{METRIC_TYPE_RAM_TOTAL, METRIC_TYPE_RAM_USED} \<subseteq> set (ram_requested_metrics c)"
  shows "Ram_Collect (Some (meminfo_text kvs)) now c = Inr (c,
    [\<lparr>metric_type = METRIC_TYPE_RAM_TOTAL, devId = None, metric_value = f_of_int binary64 (int T * 1024), timestamp = now\<rparr>,
     \<lparr>metric_type = METRIC_TYPE_RAM_USED, devId = None, metric_value = f_of_int binary64 (int (T - A) * 1024), timestamp = now\<rparr>])"
proof -
  have small: "T < 2 ^ 54" "A < 2 ^ 54" using assms(2-4) by (fastforce dest: map_of_SomeD)+
  have "\<forall>kv \<in> set kvs. word_like (fst kv) \<and> snd kv < 2 ^ 64" using assms(2) by fastforce
  from meminfo_loop_text [OF this assms(1)] getlines_meminfo [of kvs] assms(2-4)
  have "ReadStats (Some (meminfo_text kvs)) = Inr (of_nat T * 1024 - of_nat A * 1024, of_nat T * 1024)"
    by (simp add: ReadStats_def kib_of_def)
  moreover have "(of_nat T * 1024 - of_nat A * 1024 :: u64) = of_nat (T - A) * 1024"
    using assms(5) by (simp add: of_nat_diff left_diff_distrib)
  moreover have "uint (of_nat T * 1024 :: u64) = int T * 1024" "uint (of_nat (T - A) * 1024 :: u64) = int (T - A) * 1024"
    using small uint_kib by simp_all
  moreover have "ram_requested_metrics c \<noteq> []" using assms(7) by auto
  ultimately show ?thesis using assms(6,7) by (simp add: Ram_Collect_def del: of_nat_diff)
qed

lemma RamCollector_reads_meminfo_example:
  "\<exists>ms. Ram_Collect (Some (meminfo_text [(''MemTotal'', 16), (''MemFree'', 3), (''MemAvailable'', 4)])) 7
     \<lparr>ram_requested_metrics = Ram_Satisfiable, ram_initialized = True\<rparr>
     = Inr (\<lparr>ram_requested_metrics = Ram_Satisfiable, ram_initialized = True\<rparr>, ms) \<and> length ms = 2"
  using RamCollector_reads_meminfo [of "[(''MemTotal'', 16), (''MemFree'', 3), (''MemAvailable'', 4)]" 16 4
      "\<lparr>ram_requested_metrics = Ram_Satisfiable, ram_initialized = True\<rparr>" 7]
  by (simp add: word_like_def is_space_def Ram_Satisfiable_def)

text \<open>
  The kernel documents that the \<^verbatim>\<open>iowait\<close> counter may go down.  Then the unsigned difference
  of the idle times wraps and the utilisation exceeds 100: one tick of total time in which
  \<^verbatim>\<open>iowait\<close> drops by one is reported as 200 percent.
\<close>

lemma ProcStat_exceeds_100:
  "\<exists>c1 m1 c2 m2.
    ProcStat_Collect (Some (stat_line [10, 0, 0, 50, 10, 0, 0, 0] @ [CHR 0x0A])) 1
      (ProcStatCollector_new\<lparr>ps_requested_metrics := [METRIC_TYPE_CPU_UTILIZATION]\<rparr>) = Inr (c1, [m1]) \<and>
    ProcStat_Collect (Some (stat_line [12, 0, 0, 50, 9, 0, 0, 0] @ [CHR 0x0A])) 2 c1 = Inr (c2, [m2]) \<and>
    metric_value m2 = Fin 200"
proof -
  have r1: "ReadCpuStats (Some (stat_line [10, 0, 0, 50, 10, 0, 0, 0] @ [CHR 0x0A])) (0, 0) = Inr (70, 60)"
    using ReadCpuStats_stat_line [of "[10, 0, 0, 50, 10, 0, 0, 0]" "[]"] by simp
  have r2: "ReadCpuStats (Some (stat_line [12, 0, 0, 50, 9, 0, 0, 0] @ [CHR 0x0A])) (0, 0) = Inr (71, 59)"
    using ReadCpuStats_stat_line [of "[12, 0, 0, 50, 9, 0, 0, 0]" "[]"] by simp
  have "usage_percent (71 - 70) (59 - 60) = Fin 200"
    using fround_int [of 1] fround_int [of 2] fround_int [of 200] by (simp add: usage_percent_def f_of_int_def)
  then show ?thesis by (simp add: ProcStat_Collect_def r1 r2 ProcStatCollector_new_def)
qed

end
