(* ===== verification/Rapl_Collector.thy ===== *)
theory Rapl_Collector
  imports Metric_Types Text_IO Floating "HOL-Library.List_Lexorder" "HOL-Library.Char_ord" "HOL-Library.Product_Lexorder"
begin

text \<open>
  \<^verbatim>\<open>RaplCollector\<close> (collectors/rapl_collector.h / .cc): the energy counter of the CPU package, read
  from the model-specific registers.

  What the kernel answers is an argument, the record \<open>msr_env\<close>.  The two private exception
  classes are values of \<open>RuntimeError\<close>; \<^verbatim>\<open>Init\<close> catches exactly these.  \<^verbatim>\<open>pow(0.5, k)\<close> is exact for
  the small integers \<open>k\<close> it is called with.
\<close>

section \<open>Registers\<close>

definition MSR_POWER_UNIT :: u32 where "MSR_POWER_UNIT = 0x606"

record msr_unit_fields =
  POWER_UNIT_OFFSET :: u32
  POWER_UNIT_MASK :: u32
  ENERGY_UNIT_OFFSET :: u32
  ENERGY_UNIT_MASK :: u32
  TIME_UNIT_OFFSET :: u32
  TIME_UNIT_MASK :: u32

definition MSR_Units :: msr_unit_fields where
  "MSR_Units = \<lparr>POWER_UNIT_OFFSET = 0, POWER_UNIT_MASK = 0x0F, ENERGY_UNIT_OFFSET = 0x08,
     ENERGY_UNIT_MASK = 0x1F00, TIME_UNIT_OFFSET = 0x10, TIME_UNIT_MASK = 0xF000\<rparr>"

definition MSR_PKG_ENERGY_STATUS :: u32 where "MSR_PKG_ENERGY_STATUS = 0x611"

text \<open>The other registers the header names, by domain.\<close>

definition MSR_RAPL_registers :: "(string \<times> (string \<times> u32) list) list" where
  "MSR_RAPL_registers =
     [(''PKG'', [(''POWER_LIMIT'', 0x610), (''ENERGY_STATUS'', 0x611), (''PERF_STATUS'', 0x613), (''POWER_INFO'', 0x614)]),
      (''PP0'', [(''POWER_LIMIT'', 0x638), (''ENERGY_STATUS'', 0x639), (''POLICY'', 0x63A), (''PERF_STATUS'', 0x63B)]),
      (''PP1'', [(''POWER_LIMIT'', 0x640), (''ENERGY_STATUS'', 0x641), (''POLICY'', 0x642)]),
      (''DRAM'', [(''POWER_LIMIT'', 0x618), (''ENERGY_STATUS'', 0x619), (''PERF_STATUS'', 0x61B), (''POWER_INFO'', 0x61C)])]"

section \<open>State and environment\<close>

record RaplCollector =
  rapl_requested_metrics :: "MetricType list"
  rapl_initialized :: bool
  power_units :: double
  energy_units :: double
  time_units :: double
  MSR_files :: "int list"
  last_value :: double

text \<open>The entries of \<^verbatim>\<open>/dev/cpu\<close> are names with a flag for directories; \<open>None\<close> when the directory
  cannot be read.  \<open>open_msr\<close> gives the descriptor for the \<^verbatim>\<open>msr\<close> file of an entry, negative on
  failure; \<open>pread\<close> the register, \<open>None\<close> unless eight bytes were read.\<close>

record msr_env =
  cpu_base_exists :: bool
  cpu_base_is_dir :: bool
  cpu_entries :: "(string \<times> bool) list option"
  msr_readable :: "string \<Rightarrow> bool"
  open_msr :: "string \<Rightarrow> int"
  pread :: "int \<Rightarrow> u32 \<Rightarrow> u64 option"

definition RaplCollector_new :: RaplCollector where
  "RaplCollector_new = \<lparr>rapl_requested_metrics = [], rapl_initialized = False, power_units = Fin 0,
     energy_units = Fin 0, time_units = Fin 0, MSR_files = [], last_value = Fin 0\<rparr>"

definition MSR_Open_Exception :: cpp_error where
  "MSR_Open_Exception = RuntimeError ''MSR_Open_Exception''"

definition MSR_Read_Exception :: cpp_error where
  "MSR_Read_Exception = RuntimeError ''MSR_Read_Exception''"

section \<open>Operations\<close>

definition Rapl_IsSupported :: "msr_env \<Rightarrow> bool result" where
  "Rapl_IsSupported env =
     (if \<not> cpu_base_exists env \<or> \<not> cpu_base_is_dir env then Inr False
      else case cpu_entries env of
        None \<Rightarrow> Inl (FilesystemError ''directory_iterator'')
      | Some es \<Rightarrow> Inr (\<exists>e \<in> set es. snd e \<and> msr_readable env (fst e)))"

definition Rapl_SetRequestedMetrics :: "MetricType list \<Rightarrow> RaplCollector \<Rightarrow> RaplCollector" where
  "Rapl_SetRequestedMetrics metrics c = c\<lparr>rapl_requested_metrics := metrics\<rparr>"

definition Rapl_Satisfiable :: "MetricType list" where
  "Rapl_Satisfiable = [METRIC_TYPE_CPU_POWER_PACKAGE]"

definition ReadMSR :: "msr_env \<Rightarrow> u8 \<Rightarrow> u32 \<Rightarrow> RaplCollector \<Rightarrow> u64 result" where
  "ReadMSR env core offset c =
     (if length (MSR_files c) < unat core + 1 then Inl MSR_Read_Exception
      else case pread env (MSR_files c ! unat core) offset of
        None \<Rightarrow> Inl MSR_Read_Exception
      | Some data \<Rightarrow> Inr data)"

text \<open>\<^verbatim>\<open>std::stoi\<close> of a string of digits (the caller has checked that); the empty name does not
  occur in a directory.\<close>

definition stoi_digits :: "string \<Rightarrow> nat result" where
  "stoi_digits s = (case scan_digits s of
     None \<Rightarrow> Inl (InvalidArgument ''stoi'')
   | Some (n, _) \<Rightarrow> if 2 ^ 31 \<le> n then Inl OutOfRange else Inr n)"

fun cpu_ids :: "(string \<times> bool) list \<Rightarrow> (nat \<times> string) list result" where
  "cpu_ids [] = Inr []"
| "cpu_ids ((name, is_dir) # es) =
     (if \<not> is_dir then cpu_ids es
      else if \<not> list_all is_digit name then cpu_ids es
      else res_bind (stoi_digits name) (\<lambda>n. res_map (\<lambda>ids. (n, name) # ids) (cpu_ids es)))"

text \<open>The new state and the exception it ends with, if any: the vector is cleared first and keeps
  what was opened.\<close>

definition OpenMSR :: "msr_env \<Rightarrow> RaplCollector \<Rightarrow> RaplCollector \<times> unit result" where
  "OpenMSR env c = (let c = c\<lparr>MSR_files := []\<rparr> in
     if \<not> cpu_base_exists env then (c, Inl MSR_Open_Exception)
     else case cpu_entries env of
       None \<Rightarrow> (c, Inl (FilesystemError ''directory_iterator''))
     | Some es \<Rightarrow> (case cpu_ids es of
           Inl e \<Rightarrow> (c, Inl e)
         | Inr ids \<Rightarrow>
             (let fds = filter (\<lambda>fd. 0 \<le> fd) (map (\<lambda>(n, name). open_msr env name) (sort ids));
                  c = c\<lparr>MSR_files := fds\<rparr>
              in (c, if fds = [] then Inl MSR_Open_Exception else Inr ()))))"

definition pow_half :: "nat \<Rightarrow> double" where
  "pow_half k = Fin (pow2 (- int k))"

text \<open>\<^verbatim>\<open>energy_units_ * readout\<close>: the integer is converted to \<^verbatim>\<open>double\<close> first.\<close>

definition energy_of :: "double \<Rightarrow> u64 \<Rightarrow> double" where
  "energy_of units readout = fmul binary64 units (f_of_int binary64 (uint readout))"

definition Rapl_Init :: "msr_env \<Rightarrow> RaplCollector \<Rightarrow> RaplCollector \<times> bool result" where
  "Rapl_Init env c =
     (let caught = (\<lambda>e. if e = MSR_Open_Exception \<or> e = MSR_Read_Exception then Inr False else Inl e);
          (c, opened) = OpenMSR env c in
      case opened of
        Inl e \<Rightarrow> (c, caught e)
      | Inr _ \<Rightarrow> (case ReadMSR env 0 MSR_POWER_UNIT c of
          Inl e \<Rightarrow> (c, caught e)
        | Inr readout \<Rightarrow>
            (let c = c\<lparr>power_units := pow_half (unat (readout AND 0xf)),
                      energy_units := pow_half (unat (drop_bit 8 readout AND 0x1f)),
                      time_units := pow_half (unat (drop_bit 16 readout AND 0xf))\<rparr> in
             case ReadMSR env 0 MSR_PKG_ENERGY_STATUS c of
               Inl e \<Rightarrow> (c, caught e)
             | Inr readout \<Rightarrow>
                 (c\<lparr>last_value := energy_of (energy_units c) readout, rapl_initialized := True\<rparr>, Inr True))))"

definition Rapl_Collect :: "msr_env \<Rightarrow> i64 \<Rightarrow> RaplCollector \<Rightarrow> RaplCollector \<times> Metric list" where
  "Rapl_Collect env now c =
     (if \<not> rapl_initialized c \<or> rapl_requested_metrics c = [] then (c, [])
      else if METRIC_TYPE_CPU_POWER_PACKAGE \<notin> set (rapl_requested_metrics c) then (c, [])
      else case ReadMSR env 0 MSR_PKG_ENERGY_STATUS c of
        Inl _ \<Rightarrow> (c, [])
      | Inr readout \<Rightarrow>
          (let v = energy_of (energy_units c) readout in
           (c\<lparr>last_value := v\<rparr>,
            [\<lparr>metric_type = METRIC_TYPE_CPU_POWER_PACKAGE,
              devId = Some (Cpu \<lparr>socket_index = 0, core_index = 0\<rparr>),
              metric_value = fsub binary64 v (last_value c), timestamp = now\<rparr>])))"

text \<open>The descriptors the destructor closes.\<close>

definition Rapl_destroy :: "RaplCollector \<Rightarrow> int list" where
  "Rapl_destroy c = MSR_files c"

section \<open>Exact energies\<close>

lemma uint_u64_small:
  assumes "unat (r :: u64) < 2 ^ 32"
  shows "0 \<le> uint r" "uint r < 2 ^ 32"
proof -
  have "int (unat r) < int (2 ^ 32)" using assms by (simp only: of_nat_less_iff)
  then show "uint r < 2 ^ 32" by simp
qed simp

lemma energy_of_exact:
  assumes "unat r < 2 ^ 32" "k \<le> 31"
  shows "energy_of (pow_half k) r = Fin (of_int (uint r) * pow2 (- int k))"
proof -
  have u: "\<bar>uint r\<bar> \<le> 2 ^ 53" using uint_u64_small [OF assms(1)] by simp
  have "f_of_int binary64 (uint r) = Fin (of_int (uint r))" unfolding f_of_int_def by (rule fround_int [OF u])
  then have "energy_of (pow_half k) r = fround binary64 (of_int (uint r) * pow2 (- int k))"
    by (simp add: energy_of_def pow_half_def mult.commute del: of_int_uint)
  also have "\<dots> = Fin (of_int (uint r) * pow2 (- int k))" using assms(2) by (intro fround_scaled [OF u]) simp_all
  finally show ?thesis .
qed

lemma energy_difference:
  assumes "unat r1 < 2 ^ 32" "unat r2 < 2 ^ 32" "k \<le> 31"
  shows "fsub binary64 (energy_of (pow_half k) r2) (energy_of (pow_half k) r1)
    = Fin (of_int (uint r2 - uint r1) * pow2 (- int k))"
proof -
  have "\<bar>b - a\<bar> \<le> 2 ^ 53" if "0 \<le> a" "a < 2 ^ 32" "0 \<le> b" "b < 2 ^ 32" for a b :: int
    using that by (simp add: abs_le_iff)
  then have "\<bar>uint r2 - uint r1\<bar> \<le> 2 ^ 53" using uint_u64_small [OF assms(1)] uint_u64_small [OF assms(2)] by blast
  then have "fround binary64 (of_int (uint r2 - uint r1) * pow2 (- int k)) = Fin (of_int (uint r2 - uint r1) * pow2 (- int k))"
    using assms(3) by (intro fround_scaled) simp_all
  then show ?thesis
    by (simp add: energy_of_exact [OF assms(1,3)] energy_of_exact [OF assms(2,3)] fsub_def left_diff_distrib
        del: of_int_uint)
qed

lemma esu_bound: "unat (drop_bit 8 (u :: u64) AND 0x1f) \<le> 31"
proof -
  have "drop_bit 8 u AND 0x1f \<le> (0x1f :: u64)" by (rule word_and_le1)
  then show ?thesis by (simp add: word_le_nat_alt)
qed

text \<open>What a successful \<^verbatim>\<open>Init\<close> has established.\<close>

lemma Rapl_Init_True:
  assumes "Rapl_Init env c = (c1, Inr True)"
  shows "\<exists>u r. ReadMSR env 0 MSR_POWER_UNIT c1 = Inr u \<and> ReadMSR env 0 MSR_PKG_ENERGY_STATUS c1 = Inr r \<and>
    energy_units c1 = pow_half (unat (drop_bit 8 u AND 0x1f)) \<and> last_value c1 = energy_of (energy_units c1) r \<and>
    rapl_initialized c1 \<and> rapl_requested_metrics c1 = rapl_requested_metrics c"
proof -
  have files: "ReadMSR env co off c = ReadMSR env co off c'" if "MSR_files c = MSR_files c'" for co off c c'
    using that by (simp add: ReadMSR_def)
  have req: "rapl_requested_metrics (fst (OpenMSR env c)) = rapl_requested_metrics c"
    by (auto simp: OpenMSR_def Let_def split: option.split sum.split)
  obtain c0 o1 where o1: "OpenMSR env c = (c0, o1)" by fastforce
  then obtain x where x: "o1 = Inr x"
    using assms by (cases o1) (simp_all add: Rapl_Init_def Let_def split: if_splits)
  then obtain u where u: "ReadMSR env 0 MSR_POWER_UNIT c0 = Inr u"
    using assms o1 by (cases "ReadMSR env 0 MSR_POWER_UNIT c0") (simp_all add: Rapl_Init_def Let_def split: if_splits)
  let ?c = "c0\<lparr>power_units := pow_half (unat (u AND 0xf)), energy_units := pow_half (unat (drop_bit 8 u AND 0x1f)),
    time_units := pow_half (unat (drop_bit 16 u AND 0xf))\<rparr>"
  obtain r where r: "ReadMSR env 0 MSR_PKG_ENERGY_STATUS ?c = Inr r"
    "c1 = ?c\<lparr>last_value := energy_of (energy_units ?c) r, rapl_initialized := True\<rparr>"
    using assms o1 x u
    by (cases "ReadMSR env 0 MSR_PKG_ENERGY_STATUS ?c") (simp_all add: Rapl_Init_def Let_def split: if_splits)
  have "MSR_files c1 = MSR_files c0" "MSR_files c1 = MSR_files ?c" by (simp_all add: r(2))
  then have "ReadMSR env 0 MSR_POWER_UNIT c1 = Inr u" "ReadMSR env 0 MSR_PKG_ENERGY_STATUS c1 = Inr r"
    using files [of c1 c0 0 MSR_POWER_UNIT] files [of c1 ?c 0 MSR_PKG_ENERGY_STATUS] u r(1) by simp_all
  with r(2) req o1 show ?thesis by (intro exI [of _ u] exI [of _ r]) simp
qed

section \<open>Properties\<close>

text \<open>
  C32.  \<^verbatim>\<open>RaplCollector\<close> reports exactly the difference of two readings of the 32-bit energy counter
  in the unit the CPU announces, with no rounding: a \<^verbatim>\<open>double\<close> has room for it.  The difference is
  taken as it is: it is negative when the counter has wrapped in between.
\<close>

theorem Rapl_energy_exact:
  assumes "Rapl_Init env c0 = (c1, Inr True)" "METRIC_TYPE_CPU_POWER_PACKAGE \<in> set (rapl_requested_metrics c0)"
    "ReadMSR env 0 MSR_POWER_UNIT c1 = Inr u" "ReadMSR env 0 MSR_PKG_ENERGY_STATUS c1 = Inr r1"
    "ReadMSR env' 0 MSR_PKG_ENERGY_STATUS c1 = Inr r2" "unat r1 < 2 ^ 32" "unat r2 < 2 ^ 32"
  shows "\<exists>c2 m. Rapl_Collect env' now c1 = (c2, [m]) \<and> metric_type m = METRIC_TYPE_CPU_POWER_PACKAGE \<and>
    metric_value m = Fin (of_int (uint r2 - uint r1) / 2 ^ unat (drop_bit 8 u AND 0x1f)) \<and>
    last_value c2 = energy_of (energy_units c1) r2"
proof -
  obtain k where k: "k = unat (drop_bit 8 u AND 0x1f)" "k \<le> 31" using esu_bound [of u] by blast
  have c1: "energy_units c1 = pow_half k" "last_value c1 = energy_of (pow_half k) r1" "rapl_initialized c1"
    "rapl_requested_metrics c1 = rapl_requested_metrics c0"
    using Rapl_Init_True [OF assms(1)] assms(3,4) k(1) by auto
  have "fsub binary64 (energy_of (pow_half k) r2) (energy_of (pow_half k) r1)
      = Fin (of_int (uint r2 - uint r1) * pow2 (- int k))"
    using assms(6,7) k(2) by (rule energy_difference)
  moreover have "pow2 (- int k) = 1 / 2 ^ k" by (cases "k = 0") (simp_all add: pow2_def)
  moreover have "rapl_requested_metrics c1 \<noteq> []" using assms(2) c1(4) by auto
  ultimately show ?thesis
    using assms(2,5) c1 unfolding k(1) [symmetric] by (simp add: Rapl_Collect_def Let_def del: of_int_diff)
qed

definition example_msr :: "u64 \<Rightarrow> msr_env" where
  "example_msr r = \<lparr>cpu_base_exists = True, cpu_base_is_dir = True, cpu_entries = Some [(''0'', True)],
     msr_readable = (\<lambda>_. True), open_msr = (\<lambda>_. 3),
     pread = (\<lambda>fd off. if off = MSR_POWER_UNIT then Some 0xa0e03 else if off = MSR_PKG_ENERGY_STATUS then Some r else None)\<rparr>"

theorem Rapl_energy_exact_witness:
  "\<exists>c1 c2 m. Rapl_Init (example_msr 0xffffffff) (RaplCollector_new\<lparr>rapl_requested_metrics := Rapl_Satisfiable\<rparr>) = (c1, Inr True) \<and>
     Rapl_Collect (example_msr 1) 5 c1 = (c2, [m]) \<and> (\<exists>v. metric_value m = Fin v \<and> v < 0)"
proof -
  let ?c0 = "RaplCollector_new\<lparr>rapl_requested_metrics := Rapl_Satisfiable\<rparr>"
  have d: "scan_digits ''0'' = Some (0, [])" by code_simp
  have dig: "is_digit CHR ''0''" by (simp add: is_digit_def)
  obtain c1 where c1: "Rapl_Init (example_msr 0xffffffff) ?c0 = (c1, Inr True)"
    "ReadMSR (example_msr 0xffffffff) 0 MSR_POWER_UNIT c1 = Inr 0xa0e03"
    "ReadMSR (example_msr 0xffffffff) 0 MSR_PKG_ENERGY_STATUS c1 = Inr 0xffffffff"
    "ReadMSR (example_msr 1) 0 MSR_PKG_ENERGY_STATUS c1 = Inr 1"
    by (simp add: Rapl_Init_def OpenMSR_def example_msr_def ReadMSR_def d dig stoi_digits_def RaplCollector_new_def
        MSR_POWER_UNIT_def MSR_PKG_ENERGY_STATUS_def Let_def)
  from Rapl_energy_exact [OF c1(1) _ c1(2-4), of 5] obtain c2 m where "Rapl_Collect (example_msr 1) 5 c1 = (c2, [m])"
    "metric_value m = Fin (of_int (uint (1 :: u64) - uint (0xffffffff :: u64)) / 2 ^ unat (drop_bit 8 (0xa0e03 :: u64) AND 0x1f))"
    by (auto simp: RaplCollector_new_def Rapl_Satisfiable_def)
  with c1(1) show ?thesis by (auto simp: divide_less_0_iff)
qed

end
