(* ===== verification/Nvml.thy ===== *)
theory Nvml
  imports Metric_Types Floating
begin

text \<open>
  The NVIDIA management library as the agent uses it: the types of the vendored header nvml.h,
  the loader that finds the library at run time (platform/nvml_loader.h / .cc) and
  \<^verbatim>\<open>NvmlCollector\<close> (collectors/nvml_collector.h / .cc).

  The library itself and the dynamic linker are arguments: what \<^verbatim>\<open>dlopen\<close> and \<^verbatim>\<open>dlsym\<close> return, and
  what each NVML function answers at the time it is called.  NVML counts its initialisations;
  the operations report the calls of \<^verbatim>\<open>nvmlInit\<close> that succeeded and the calls of \<^verbatim>\<open>nvmlShutdown\<close> as
  a list of events.
\<close>

section \<open>Types of nvml.h\<close>

datatype nvmlReturn_t =
    NVML_SUCCESS
  | NVML_ERROR_UNINITIALIZED
  | NVML_ERROR_INVALID_ARGUMENT
  | NVML_ERROR_NOT_SUPPORTED
  | NVML_ERROR_NO_PERMISSION
  | NVML_ERROR_ALREADY_INITIALIZED
  | NVML_ERROR_NOT_FOUND
  | NVML_ERROR_INSUFFICIENT_SIZE
  | NVML_ERROR_INSUFFICIENT_POWER
  | NVML_ERROR_DRIVER_NOT_LOADED
  | NVML_ERROR_TIMEOUT
  | NVML_ERROR_IRQ_ISSUE
  | NVML_ERROR_LIBRARY_NOT_FOUND
  | NVML_ERROR_FUNCTION_NOT_FOUND
  | NVML_ERROR_CORRUPTED_INFOROM
  | NVML_ERROR_GPU_IS_LOST
  | NVML_ERROR_RESET_REQUIRED
  | NVML_ERROR_OPERATING_SYSTEM
  | NVML_ERROR_LIB_RM_VERSION_MISMATCH
  | NVML_ERROR_IN_USE
  | NVML_ERROR_MEMORY
  | NVML_ERROR_NO_DATA
  | NVML_ERROR_VGPU_ECC_NOT_SUPPORTED
  | NVML_ERROR_INSUFFICIENT_RESOURCES
  | NVML_ERROR_FREQ_NOT_SUPPORTED
  | NVML_ERROR_ARGUMENT_VERSION_MISMATCH
  | NVML_ERROR_DEPRECATED
  | NVML_ERROR_NOT_READY
  | NVML_ERROR_GPU_NOT_FOUND
  | NVML_ERROR_INVALID_STATE
  | NVML_ERROR_RESET_TYPE_NOT_SUPPORTED
  | NVML_ERROR_UNKNOWN

datatype nvmlTemperatureSensors_t = NVML_TEMPERATURE_GPU

record nvmlPciInfo_t =
  pci_busIdLegacy :: string
  nv_domain :: u32
  nv_bus :: u32
  nv_device :: u32
  pciDeviceId :: u32
  pciSubSystemId :: u32
  pci_busId :: string

record nvmlUtilization_t =
  util_gpu :: u32
  util_memory :: u32

record nvmlMemory_t =
  mem_total :: u64
  mem_free :: u64
  mem_used :: u64

section \<open>The loader\<close>

text \<open>\<^verbatim>\<open>dlopen\<close> gives a handle or an error message (which \<^verbatim>\<open>dlerror\<close> may not have); \<^verbatim>\<open>dlsym\<close> an
  address, null included, and an error message, if any.\<close>

record ('h, 's) linker =
  dl_open :: "string \<Rightarrow> 'h option"
  dl_open_error :: "string \<Rightarrow> string option"
  dl_sym :: "'h \<Rightarrow> string \<Rightarrow> 's option"
  dl_sym_error :: "'h \<Rightarrow> string \<Rightarrow> string option"

text \<open>The globals of nvml_loader.cc: the members of \<^verbatim>\<open>g_nvml\<close> by symbol name, the last error, the
  handle, and the handles that were closed again.\<close>

record ('h, 's) nvml_globals =
  g_members :: "string \<rightharpoonup> 's"
  g_library_path :: string
  g_load_error :: string
  g_nvml_handle :: "'h option"
  g_closed :: "'h list"

definition nvml_globals_init :: "('h, 's) nvml_globals" where
  "nvml_globals_init = \<lparr>g_members = Map.empty, g_library_path = [], g_load_error = [],
     g_nvml_handle = None, g_closed = []\<rparr>"

definition kLibraryCandidates :: "string list" where
  "kLibraryCandidates = [''libnvidia-ml.so.1'', ''libnvidia-ml.so'']"

definition nvml_symbols :: "string list" where
  "nvml_symbols = [''nvmlInit_v2'', ''nvmlShutdown'', ''nvmlErrorString'', ''nvmlDeviceGetCount_v2'',
     ''nvmlDeviceGetHandleByIndex_v2'', ''nvmlDeviceGetPciInfo_v3'', ''nvmlDeviceGetPowerUsage'',
     ''nvmlDeviceGetTemperature'', ''nvmlDeviceGetUtilizationRates'', ''nvmlDeviceGetMemoryInfo'',
     ''nvmlDeviceGetName'']"

definition ResolveSymbol :: "('h, 's) linker \<Rightarrow> 'h \<Rightarrow> string \<Rightarrow> ('h, 's) nvml_globals \<Rightarrow> ('h, 's) nvml_globals \<times> bool" where
  "ResolveSymbol dl h symbol g = (case (dl_sym_error dl h symbol, dl_sym dl h symbol) of
     (None, Some fn) \<Rightarrow> (g\<lparr>g_members := (g_members g)(symbol \<mapsto> fn)\<rparr>, True)
   | (err, _) \<Rightarrow> (g\<lparr>g_load_error := ''dlsym('' @ symbol @ ''): '' @
       (case err of Some e \<Rightarrow> e | None \<Rightarrow> ''null symbol'')\<rparr>, False))"

text \<open>The conjunction stops at the first symbol that is missing.\<close>

fun ResolveAllSymbols :: "('h, 's) linker \<Rightarrow> 'h \<Rightarrow> string list \<Rightarrow> ('h, 's) nvml_globals \<Rightarrow> ('h, 's) nvml_globals \<times> bool" where
  "ResolveAllSymbols dl h [] g = (g, True)"
| "ResolveAllSymbols dl h (s # ss) g = (let (g, ok) = ResolveSymbol dl h s g in
     if ok then ResolveAllSymbols dl h ss g else (g, False))"

fun open_candidates :: "('h, 's) linker \<Rightarrow> string list \<Rightarrow> ('h, 's) nvml_globals \<Rightarrow> ('h, 's) nvml_globals \<times> 'h option" where
  "open_candidates dl [] g = (g, None)"
| "open_candidates dl (c # cs) g = (case dl_open dl c of
     Some h \<Rightarrow> (g\<lparr>g_library_path := c\<rparr>, Some h)
   | None \<Rightarrow> open_candidates dl cs
       (if g_load_error g = [] then (case dl_open_error dl c of None \<Rightarrow> g | Some e \<Rightarrow> g\<lparr>g_load_error := e\<rparr>) else g))"

definition NvmlLoadError :: "('h, 's) nvml_globals \<Rightarrow> string" where
  "NvmlLoadError g = g_load_error g"

text \<open>Whether the result is the address of \<^verbatim>\<open>g_nvml\<close> rather than null.\<close>

definition TryLoadNvml :: "('h, 's) linker \<Rightarrow> ('h, 's) nvml_globals \<Rightarrow> ('h, 's) nvml_globals \<times> bool" where
  "TryLoadNvml dl g =
     (if g_nvml_handle g \<noteq> None then (g, True)
      else case open_candidates dl kLibraryCandidates g of
        (g, None) \<Rightarrow> (if g_load_error g = [] then g\<lparr>g_load_error := ''libnvidia-ml not found in search paths''\<rparr> else g, False)
      | (g, Some h) \<Rightarrow> (let (g, ok) = ResolveAllSymbols dl h nvml_symbols g in
          if \<not> ok then (g\<lparr>g_closed := g_closed g @ [h]\<rparr>, False)
          else (g\<lparr>g_nvml_handle := Some h, g_load_error := []\<rparr>, True)))"

section \<open>The collector\<close>

text \<open>What the functions of \<^verbatim>\<open>struct NvmlApi\<close> answer; the output parameter matters on success only.
  \<^verbatim>\<open>Shutdown\<close> is an event below, \<^verbatim>\<open>ErrorString\<close> only labels log output and \<^verbatim>\<open>DeviceGetName\<close> is never called.\<close>

record 'd NvmlApi =
  nv_Init :: nvmlReturn_t
  nv_DeviceGetCount :: "nvmlReturn_t \<times> u32"
  nv_DeviceGetHandleByIndex :: "u32 \<Rightarrow> nvmlReturn_t \<times> 'd"
  nv_DeviceGetPciInfo :: "'d \<Rightarrow> nvmlReturn_t \<times> nvmlPciInfo_t"
  nv_DeviceGetPowerUsage :: "'d \<Rightarrow> nvmlReturn_t \<times> u32"
  nv_DeviceGetTemperature :: "'d \<Rightarrow> nvmlTemperatureSensors_t \<Rightarrow> nvmlReturn_t \<times> u32"
  nv_DeviceGetUtilizationRates :: "'d \<Rightarrow> nvmlReturn_t \<times> nvmlUtilization_t"
  nv_DeviceGetMemoryInfo :: "'d \<Rightarrow> nvmlReturn_t \<times> nvmlMemory_t"

datatype nvml_event = EInit | EShutdown

record 'd NvmlCollector =
  nc_requested_metrics :: "MetricType list"
  nc_gpu_id :: "GpuID option"
  nc_device_handle :: "'d option"
  nc_initialized :: bool

definition NvmlCollector_new :: "'d NvmlCollector" where
  "NvmlCollector_new = \<lparr>nc_requested_metrics = [], nc_gpu_id = None, nc_device_handle = None, nc_initialized = False\<rparr>"

definition NvmlCollector_destroy :: "'d NvmlCollector \<Rightarrow> nvml_event list" where
  "NvmlCollector_destroy c = (if nc_initialized c then [EShutdown] else [])"

definition Nvml_Init :: "'d NvmlApi option \<Rightarrow> 'd NvmlCollector \<Rightarrow> 'd NvmlCollector \<times> bool \<times> nvml_event list" where
  "Nvml_Init loaded c = (case loaded of
     None \<Rightarrow> (c, False, [])
   | Some nvml \<Rightarrow>
       if nv_Init nvml \<noteq> NVML_SUCCESS then (c, False, [])
       else case nv_DeviceGetHandleByIndex nvml 0 of (result, h) \<Rightarrow>
         if result \<noteq> NVML_SUCCESS then (c, False, [EInit, EShutdown])
         else let c = c\<lparr>nc_device_handle := Some h\<rparr> in
           case nv_DeviceGetPciInfo nvml h of (result, pci_info) \<Rightarrow>
             if result \<noteq> NVML_SUCCESS then (c, False, [EInit, EShutdown])
             else (c\<lparr>nc_gpu_id := Some \<lparr>pci_domain = nv_domain pci_info, pci_bus = nv_bus pci_info,
                       pci_device = nv_device pci_info, pci_function = 0\<rparr>,
                     nc_initialized := True\<rparr>, True, [EInit]))"

definition Nvml_IsSupported :: "'d NvmlApi option \<Rightarrow> bool \<times> nvml_event list" where
  "Nvml_IsSupported loaded = (case loaded of
     None \<Rightarrow> (False, [])
   | Some nvml \<Rightarrow>
       if nv_Init nvml \<noteq> NVML_SUCCESS then (False, [])
       else case nv_DeviceGetCount nvml of (result, device_count) \<Rightarrow>
         if result \<noteq> NVML_SUCCESS \<or> device_count = 0 then (False, [EInit, EShutdown])
         else (fst (nv_DeviceGetHandleByIndex nvml 0) = NVML_SUCCESS, [EInit, EShutdown]))"

definition Nvml_SetRequestedMetrics :: "MetricType list \<Rightarrow> 'd NvmlCollector \<Rightarrow> 'd NvmlCollector" where
  "Nvml_SetRequestedMetrics metrics c = c\<lparr>nc_requested_metrics := metrics\<rparr>"

definition Nvml_Satisfiable :: "MetricType list" where
  "Nvml_Satisfiable = [METRIC_TYPE_GPU_VRAM_USED, METRIC_TYPE_GPU_UTILIZATION,
     METRIC_TYPE_GPU_SHARED_MEMORY_UTILIZATION, METRIC_TYPE_GPU_TEMPERATURE, METRIC_TYPE_GPU_POWER]"

definition f_of_u32 :: "u32 \<Rightarrow> double" where
  "f_of_u32 w = f_of_int binary64 (uint w)"

definition vram_fraction :: "nvmlMemory_t \<Rightarrow> double" where
  "vram_fraction memory =
     fdiv binary64 (f_of_int binary64 (uint (mem_used memory))) (f_of_int binary64 (uint (mem_total memory)))"

text \<open>The metrics a successful call contributes; a call that is not wanted is not made.\<close>

definition asked :: "bool \<Rightarrow> 'a list \<Rightarrow> 'a list" where
  "asked wanted out = (if wanted then out else [])"

definition reading :: "bool \<Rightarrow> nvmlReturn_t \<times> 'v \<Rightarrow> ('v \<Rightarrow> 'a list) \<Rightarrow> 'a list" where
  "reading wanted call out = asked wanted (case call of (result, v) \<Rightarrow> asked (result = NVML_SUCCESS) (out v))"

text \<open>\<^verbatim>\<open>nvml_\<close> and the device handle are set whenever \<^verbatim>\<open>initialized_\<close> is.\<close>

definition Nvml_Collect :: "'d NvmlApi \<Rightarrow> i64 \<Rightarrow> 'd NvmlCollector \<Rightarrow> Metric list result" where
  "Nvml_Collect nvml now c =
     (let needs = (\<lambda>t. t \<in> set (nc_requested_metrics c));
          metric = (\<lambda>t v. \<lparr>metric_type = t, devId = map_option Gpu (nc_gpu_id c), metric_value = v, timestamp = now\<rparr>) in
      if \<not> nc_initialized c \<or> nc_requested_metrics c = [] then Inr []
      else case nc_device_handle c of
        None \<Rightarrow> Inl NullDeref
      | Some dev \<Rightarrow> Inr (
          reading (needs METRIC_TYPE_GPU_POWER) (nv_DeviceGetPowerUsage nvml dev)
            (\<lambda>power_mw. [metric METRIC_TYPE_GPU_POWER (fdiv binary64 (f_of_u32 power_mw) (Fin 1000))]) @
          reading (needs METRIC_TYPE_GPU_TEMPERATURE) (nv_DeviceGetTemperature nvml dev NVML_TEMPERATURE_GPU)
            (\<lambda>temp_c. [metric METRIC_TYPE_GPU_TEMPERATURE (f_of_u32 temp_c)]) @
          reading (needs METRIC_TYPE_GPU_UTILIZATION \<or> needs METRIC_TYPE_GPU_SHARED_MEMORY_UTILIZATION)
            (nv_DeviceGetUtilizationRates nvml dev)
            (\<lambda>utilization.
               asked (needs METRIC_TYPE_GPU_UTILIZATION)
                 [metric METRIC_TYPE_GPU_UTILIZATION (f_of_u32 (util_gpu utilization))] @
               asked (needs METRIC_TYPE_GPU_SHARED_MEMORY_UTILIZATION)
                 [metric METRIC_TYPE_GPU_SHARED_MEMORY_UTILIZATION (f_of_u32 (util_memory utilization))]) @
          reading (needs METRIC_TYPE_GPU_VRAM_USED) (nv_DeviceGetMemoryInfo nvml dev)
            (\<lambda>memory. [metric METRIC_TYPE_GPU_VRAM_USED (vram_fraction memory)])))"

lemma asked_simps [simp]: "asked True out = out" "asked False out = []"
  by (simp_all add: asked_def)

lemma set_asked [simp]: "set (asked b out) = {m \<in> set out. b}"
  by (cases b) simp_all

lemma map_asked [simp]: "map f (asked b out) = asked b (map f out)"
  by (cases b) simp_all

lemma distinct_asked [simp]: "distinct (asked b out) = (b \<longrightarrow> distinct out)"
  by (cases b) simp_all

lemma reading_beta: "reading b call out = asked (b \<and> fst call = NVML_SUCCESS) (out (snd call))"
  by (cases b; cases call) (simp_all add: reading_def)

section \<open>Loading\<close>

lemma ResolveSymbol_ok:
  "ResolveSymbol dl h s g = (g', True) \<Longrightarrow>
   dl_sym_error dl h s = None \<and> (\<exists>fn. dl_sym dl h s = Some fn \<and> g' = g\<lparr>g_members := (g_members g)(s \<mapsto> fn)\<rparr>)"
  by (auto simp: ResolveSymbol_def split: option.splits)

lemma ResolveSymbol_fails:
  "ResolveSymbol dl h s g = (g', False) \<Longrightarrow> g_load_error g' \<noteq> [] \<and> g_nvml_handle g' = g_nvml_handle g \<and>
   \<not> (dl_sym_error dl h s = None \<and> dl_sym dl h s \<noteq> None)"
  by (auto simp: ResolveSymbol_def split: option.splits)

lemma ResolveAllSymbols_ok:
  assumes "ResolveAllSymbols dl h ss g = (g', True)"
  shows "(\<forall>s \<in> set ss. dl_sym_error dl h s = None \<and> dl_sym dl h s \<noteq> None \<and> g_members g' s = dl_sym dl h s) \<and>
    (\<forall>s. s \<notin> set ss \<longrightarrow> g_members g' s = g_members g s)"
  using assms
proof (induction ss arbitrary: g)
  case (Cons s ss)
  obtain g1 ok where g1: "ResolveSymbol dl h s g = (g1, ok)" by fastforce
  with Cons.prems have ok: "ok" "ResolveAllSymbols dl h ss g1 = (g', True)" by (auto split: if_splits)
  from ResolveSymbol_ok [of dl h s g g1] g1 ok obtain fn where
    "dl_sym_error dl h s = None" "dl_sym dl h s = Some fn" "g1 = g\<lparr>g_members := (g_members g)(s \<mapsto> fn)\<rparr>" by auto
  then show ?case using Cons.IH [OF ok(2)] by (cases "s \<in> set ss") auto
qed simp

lemma ResolveAllSymbols_fails:
  "ResolveAllSymbols dl h ss g = (g', False) \<Longrightarrow> g_load_error g' \<noteq> [] \<and> g_nvml_handle g' = g_nvml_handle g \<and>
   (\<exists>s \<in> set ss. \<not> (dl_sym_error dl h s = None \<and> dl_sym dl h s \<noteq> None))"
proof (induction ss arbitrary: g)
  case (Cons s ss)
  obtain g1 ok where g1: "ResolveSymbol dl h s g = (g1, ok)" by fastforce
  show ?case
  proof (cases ok)
    case True
    with g1 Cons.prems have "ResolveAllSymbols dl h ss g1 = (g', False)" by simp
    with Cons.IH [OF this] ResolveSymbol_ok [of dl h s g g1] g1 True show ?thesis by auto
  next
    case False
    with g1 Cons.prems ResolveSymbol_fails [of dl h s g g1] show ?thesis by auto
  qed
qed simp

lemma open_candidates_handle: "g_nvml_handle (fst (open_candidates dl cs g)) = g_nvml_handle g"
  by (induction cs arbitrary: g) (auto split: option.splits)

lemma open_candidates_finds: "snd (open_candidates dl cs g) = (case find (\<lambda>c. dl_open dl c \<noteq> None) cs of
    None \<Rightarrow> None | Some c \<Rightarrow> dl_open dl c)"
  by (induction cs arbitrary: g) (auto split: option.splits)

text \<open>The library that will be used: the first candidate that opens.\<close>

definition nvml_library :: "('h, 's) linker \<Rightarrow> 'h option" where
  "nvml_library dl = (case find (\<lambda>c. dl_open dl c \<noteq> None) kLibraryCandidates of
     None \<Rightarrow> None | Some c \<Rightarrow> dl_open dl c)"

lemma nvml_library_candidates: "nvml_library dl = snd (open_candidates dl kLibraryCandidates g)"
  by (simp add: nvml_library_def open_candidates_finds)

section \<open>Properties\<close>



section \<open>Initialisation count and values\<close>

text \<open>The initialisations of NVML that are outstanding after a list of events.\<close>

fun outstanding :: "nvml_event list \<Rightarrow> int" where
  "outstanding [] = 0"
| "outstanding (EInit # es) = outstanding es + 1"
| "outstanding (EShutdown # es) = outstanding es - 1"

lemma outstanding_append [simp]: "outstanding (es @ fs) = outstanding es + outstanding fs"
  by (induction es rule: outstanding.induct) simp_all

lemma Nvml_IsSupported_balanced: "outstanding (snd (Nvml_IsSupported loaded)) = 0"
  by (simp add: Nvml_IsSupported_def split: option.split prod.split)

lemma Nvml_Init_cases:
  "Nvml_Init loaded c = (c', ok, es) \<Longrightarrow>
   (if ok then nc_initialized c' \<and> es = [EInit] \<and> nc_gpu_id c' \<noteq> None \<and> nc_device_handle c' \<noteq> None
    else nc_initialized c' = nc_initialized c \<and> outstanding es = 0)"
  by (cases loaded) (auto simp: Nvml_Init_def Let_def split: if_splits prod.splits)

lemma Nvml_set_initialized [simp]: "nc_initialized (Nvml_SetRequestedMetrics ms c) = nc_initialized c"
  by (simp add: Nvml_SetRequestedMetrics_def)

lemma vram_fraction_in_range:
  assumes "mem_used m \<le> mem_total m" "0 < mem_total m"
  shows "\<exists>p. vram_fraction m = Fin p \<and> 0 \<le> p \<and> p \<le> 1"
proof -
  let ?a = "of_int (uint (mem_used m)) :: rat" and ?b = "of_int (uint (mem_total m)) :: rat"
  have le: "uint (mem_used m) \<le> uint (mem_total m)" and pos: "0 < uint (mem_total m)"
    using assms by (simp_all add: word_le_def word_less_def)
  have f: "f_of_int binary64 (uint (mem_used m)) = Fin (rnd binary64 ?a)"
    "f_of_int binary64 (uint (mem_total m)) = Fin (rnd binary64 ?b)"
    by (rule f_of_int_u64(1); use unsigned_less [of "mem_used m"] unsigned_less [of "mem_total m"] in simp)+
  have "(1 :: rat) \<le> ?b" using pos by (simp del: of_int_uint)
  from b64.rd_mono [OF this] have rb: "0 < rnd binary64 ?b" by (simp add: b64.rd_one)
  let ?q = "rnd binary64 (rnd binary64 ?a / rnd binary64 ?b)"
  have q: "0 \<le> ?q" "?q \<le> 1"
    using b64.rd_fraction [of ?a ?b] le rb by (simp_all del: of_int_uint)
  have "(1 :: rat) < pow2 1" by (simp add: pow2_def)
  also have "\<dots> \<le> pow2 (emax binary64)" by (rule pow2_mono) (simp add: binary64_def)
  finally have "fround binary64 (rnd binary64 ?a / rnd binary64 ?b) = Fin ?q" using q by (intro fround_Fin) simp
  then show ?thesis using q rb by (simp add: vram_fraction_def f del: of_int_uint)
qed

text \<open>
  C34.  The collector holds one initialisation of NVML exactly from a successful \<^verbatim>\<open>Init\<close> to its
  destruction: probing with \<^verbatim>\<open>IsSupported\<close>, on every path, and a failed \<^verbatim>\<open>Init\<close> leave none behind.
\<close>

theorem Nvml_initialisation_balanced:
  assumes "Nvml_Init loaded (Nvml_SetRequestedMetrics ms NvmlCollector_new) = (c, ok, es)"
  shows "outstanding (snd (Nvml_IsSupported loaded0) @ es) = (if ok then 1 else 0) \<and>
    outstanding (snd (Nvml_IsSupported loaded0) @ es @ NvmlCollector_destroy c) = 0"
  using Nvml_Init_cases [OF assms] Nvml_IsSupported_balanced [of loaded0]
  by (auto simp: NvmlCollector_destroy_def NvmlCollector_new_def split: if_splits)

definition example_nvml :: "nat NvmlApi" where
  "example_nvml = \<lparr>nv_Init = NVML_SUCCESS, nv_DeviceGetCount = (NVML_SUCCESS, 1),
     nv_DeviceGetHandleByIndex = (\<lambda>i. (NVML_SUCCESS, 7)),
     nv_DeviceGetPciInfo = (\<lambda>_. (NVML_SUCCESS, \<lparr>pci_busIdLegacy = [], nv_domain = 0, nv_bus = 1, nv_device = 0,
        pciDeviceId = 0, pciSubSystemId = 0, pci_busId = []\<rparr>)),
     nv_DeviceGetPowerUsage = (\<lambda>_. (NVML_ERROR_NOT_SUPPORTED, 0)),
     nv_DeviceGetTemperature = (\<lambda>_ _. (NVML_SUCCESS, 55)),
     nv_DeviceGetUtilizationRates = (\<lambda>_. (NVML_SUCCESS, \<lparr>util_gpu = 90, util_memory = 40\<rparr>)),
     nv_DeviceGetMemoryInfo = (\<lambda>_. (NVML_SUCCESS, \<lparr>mem_total = 8, mem_free = 6, mem_used = 2\<rparr>))\<rparr>"

theorem Nvml_initialisation_balanced_witness:
  "\<exists>c es. Nvml_Init (Some example_nvml) (Nvml_SetRequestedMetrics Nvml_Satisfiable NvmlCollector_new) = (c, True, es) \<and>
     outstanding (snd (Nvml_IsSupported (Some example_nvml)) @ es) = 1 \<and>
     outstanding (snd (Nvml_IsSupported (Some example_nvml)) @ es @ NvmlCollector_destroy c) = 0"
proof -
  obtain c es where i: "Nvml_Init (Some example_nvml) (Nvml_SetRequestedMetrics Nvml_Satisfiable NvmlCollector_new) = (c, True, es)"
    by (simp add: Nvml_Init_def example_nvml_def Let_def)
  with Nvml_initialisation_balanced [OF i, of "Some example_nvml"] show ?thesis by auto
qed

text \<open>
  The share of video memory reported is a fraction between 0 and 1, rounding included.
\<close>

lemma Nvml_vram_fraction:
  assumes "Nvml_Collect nvml now c = Inr out" "m \<in> set out" "metric_type m = METRIC_TYPE_GPU_VRAM_USED"
    "nc_device_handle c = Some dev" "nv_DeviceGetMemoryInfo nvml dev = (r, memory)"
    "mem_used memory \<le> mem_total memory" "0 < mem_total memory"
  shows "\<exists>p. metric_value m = Fin p \<and> 0 \<le> p \<and> p \<le> 1"
proof -
  have "metric_value m = vram_fraction memory"
    using assms(1-5) by (auto simp: Nvml_Collect_def Let_def reading_beta split: if_splits)
  with vram_fraction_in_range [OF assms(6,7)] show ?thesis by simp
qed


lemma Nvml_vram_fraction_example:
  "\<exists>c m p. fst (Nvml_Init (Some example_nvml) (Nvml_SetRequestedMetrics [METRIC_TYPE_GPU_VRAM_USED] NvmlCollector_new)) = c \<and>
     Nvml_Collect example_nvml 5 c = Inr [m] \<and> metric_value m = Fin p \<and> 0 \<le> p \<and> p \<le> 1"
proof -
  let ?c = "fst (Nvml_Init (Some example_nvml) (Nvml_SetRequestedMetrics [METRIC_TYPE_GPU_VRAM_USED] NvmlCollector_new))"
  let ?m = "\<lparr>metric_type = METRIC_TYPE_GPU_VRAM_USED, devId = map_option Gpu (nc_gpu_id ?c),
    metric_value = vram_fraction \<lparr>mem_total = 8, mem_free = 6, mem_used = 2\<rparr>, timestamp = 5\<rparr>"
  have c: "nc_device_handle ?c = Some 7"
    by (simp add: Nvml_Init_def example_nvml_def Let_def)
  have out: "Nvml_Collect example_nvml 5 ?c = Inr [?m]"
    by (simp add: Nvml_Init_def Nvml_Collect_def Nvml_SetRequestedMetrics_def example_nvml_def Let_def reading_beta)
  have "\<exists>p. metric_value ?m = Fin p \<and> 0 \<le> p \<and> p \<le> 1"
    by (rule Nvml_vram_fraction [OF out _ _ c, of _ NVML_SUCCESS "\<lparr>mem_total = 8, mem_free = 6, mem_used = 2\<rparr>"])
      (simp_all add: example_nvml_def)
  with out show ?thesis by blast
qed

end
