(* ===== verification/C_Layout.thy ===== *)
theory C_Layout
  imports Prelude
begin

text \<open>
  Layout of C data types on the LP64 targets of the agent (the System V ABI): the size and the
  alignment of a type, and the offsets of the members of a structure.  The header nvml.h, whose
  structures the NVIDIA library fills in through pointers the agent passes, is described with it.

  Each member is placed at the next offset that its alignment divides; the structure is as
  aligned as its strictest member and is padded at its end.
\<close>

section \<open>Types\<close>

datatype ctype =
    CScalar nat                \<comment> \<open>a scalar of that many bytes, aligned to its size\<close>
  | CArray ctype nat
  | CStruct cfields
  | CUnion cfields
and cfields = FNil | FCons string ctype cfields

fun fields :: "(string \<times> ctype) list \<Rightarrow> cfields" where
  "fields [] = FNil"
| "fields ((f, t) # fs) = FCons f t (fields fs)"

definition c_char :: ctype where "c_char = CScalar 1"
definition c_uchar :: ctype where "c_uchar = CScalar 1"
definition c_short :: ctype where "c_short = CScalar 2"
definition c_ushort :: ctype where "c_ushort = CScalar 2"
definition c_int :: ctype where "c_int = CScalar 4"
definition c_uint :: ctype where "c_uint = CScalar 4"
definition c_ulong :: ctype where "c_ulong = CScalar 8"
definition c_llong :: ctype where "c_llong = CScalar 8"
definition c_ullong :: ctype where "c_ullong = CScalar 8"
definition c_double :: ctype where "c_double = CScalar 8"
definition c_ptr :: ctype where "c_ptr = CScalar 8"
definition c_enum :: ctype where "c_enum = CScalar 4"

lemmas c_scalars = c_char_def c_uchar_def c_short_def c_ushort_def c_int_def c_uint_def c_ulong_def c_llong_def
  c_ullong_def c_double_def c_ptr_def c_enum_def

section \<open>Layout\<close>

text \<open>The next multiple of an alignment.\<close>

definition pad_to :: "nat \<Rightarrow> nat \<Rightarrow> nat" where
  "pad_to a n = (n + a - 1) div a * a"

primrec align_of :: "ctype \<Rightarrow> nat" and fields_align :: "cfields \<Rightarrow> nat" where
  "align_of (CScalar n) = n"
| "align_of (CArray t n) = align_of t"
| "align_of (CStruct fs) = fields_align fs"
| "align_of (CUnion fs) = fields_align fs"
| "fields_align FNil = 1"
| "fields_align (FCons f t fs) = max (align_of t) (fields_align fs)"

fun size_of :: "ctype \<Rightarrow> nat" and fields_end :: "cfields \<Rightarrow> nat \<Rightarrow> nat" and fields_max :: "cfields \<Rightarrow> nat" where
  "size_of (CScalar n) = n"
| "size_of (CArray t n) = n * size_of t"
| "size_of (CStruct fs) = pad_to (fields_align fs) (fields_end fs 0)"
| "size_of (CUnion fs) = pad_to (fields_align fs) (fields_max fs)"
| "fields_end FNil off = off"
| "fields_end (FCons f t fs) off = fields_end fs (pad_to (align_of t) off + size_of t)"
| "fields_max FNil = 0"
| "fields_max (FCons f t fs) = max (size_of t) (fields_max fs)"

text \<open>The members of a structure: name, offset and type.\<close>

primrec offsets :: "cfields \<Rightarrow> nat \<Rightarrow> (string \<times> nat \<times> ctype) list" where
  "offsets FNil off = []"
| "offsets (FCons f t fs) off = (f, pad_to (align_of t) off, t) # offsets fs (pad_to (align_of t) off + size_of t)"

fun members :: "ctype \<Rightarrow> (string \<times> nat \<times> ctype) list" where
  "members (CStruct fs) = offsets fs 0"
| "members (CUnion fs) = map (\<lambda>(f, _, t). (f, 0, t)) (offsets fs 0)"
| "members _ = []"

text \<open>The scalars of the ABI have 1, 2, 4 or 8 bytes.\<close>

primrec c_ok :: "ctype \<Rightarrow> bool" and fields_ok :: "cfields \<Rightarrow> bool" where
  "c_ok (CScalar n) = (n \<in> {1, 2, 4, 8})"
| "c_ok (CArray t n) = c_ok t"
| "c_ok (CStruct fs) = fields_ok fs"
| "c_ok (CUnion fs) = fields_ok fs"
| "fields_ok FNil = True"
| "fields_ok (FCons f t fs) = (c_ok t \<and> fields_ok fs)"

section \<open>What a layout must satisfy\<close>

text \<open>Members are aligned and lie inside; those of a structure do not overlap and keep their order;
  an array of the type keeps its elements aligned.\<close>

definition members_inside :: "ctype \<Rightarrow> bool" where
  "members_inside t = (\<forall>(f, off, u) \<in> set (members t). align_of u dvd off \<and> align_of u dvd align_of t \<and> off + size_of u \<le> size_of t)"

definition members_apart :: "ctype \<Rightarrow> bool" where
  "members_apart t = sorted_wrt (\<lambda>(_, off, u) (_, off', _). off + size_of u \<le> off') (members t)"

definition layout_ok :: "ctype \<Rightarrow> bool" where
  "layout_ok t = (members_inside t \<and> align_of t dvd size_of t \<and> (case t of CStruct _ \<Rightarrow> members_apart t | _ \<Rightarrow> True))"

section \<open>Soundness of the layout\<close>

lemma pad_to_dvd [simp]: "a dvd pad_to a n"
  by (simp add: pad_to_def)

lemma pad_to_le: "0 < a \<Longrightarrow> n \<le> pad_to a n"
proof -
  assume "0 < a"
  then have "n + a - 1 < (n + a - 1) div a * a + a"
    using div_mult_mod_eq [of "n + a - 1" a] mod_less_divisor [of a "n + a - 1"] by linarith
  with \<open>0 < a\<close> show ?thesis by (simp add: pad_to_def)
qed

definition good_align :: "nat \<Rightarrow> bool" where
  "good_align a = (a \<in> {1, 2, 4, 8})"

lemma good_align_pos [simp]: "good_align a \<Longrightarrow> 0 < a"
  by (auto simp: good_align_def)

lemma good_align_max: "good_align a \<Longrightarrow> good_align b \<Longrightarrow> good_align (max a b)"
  by (auto simp: good_align_def)

lemma good_align_dvd: "good_align a \<Longrightarrow> good_align b \<Longrightarrow> a \<le> b \<Longrightarrow> a dvd b"
  by (auto simp: good_align_def)

lemma align_good: "c_ok t \<Longrightarrow> good_align (align_of t)" "fields_ok fs \<Longrightarrow> good_align (fields_align fs)"
  by (induction t and fs) (auto simp: good_align_max, simp_all add: good_align_def)

lemma align_dvd_size: "c_ok t \<Longrightarrow> align_of t dvd size_of t"
  by (induction t rule: ctype.induct [where ?P2.0 = "\<lambda>_. True"]) simp_all

lemma fields_end_ge: "fields_ok fs \<Longrightarrow> off \<le> fields_end fs off"
proof (induction fs arbitrary: off rule: cfields.induct [where ?P1.0 = "\<lambda>_. True"])
  case (FCons f t fs)
  then have "off \<le> pad_to (align_of t) off + size_of t"
    using pad_to_le [of "align_of t" off] align_good(1) [of t] by simp
  also have "\<dots> \<le> fields_end fs (pad_to (align_of t) off + size_of t)" using FCons by simp
  finally show ?case by simp
qed simp_all

lemma offsets_bounds:
  "fields_ok fs \<Longrightarrow> (f, o', u) \<in> set (offsets fs off) \<Longrightarrow>
   c_ok u \<and> align_of u dvd o' \<and> align_of u \<le> fields_align fs \<and> off \<le> o' \<and> o' + size_of u \<le> fields_end fs off"
proof (induction fs arbitrary: off rule: cfields.induct [where ?P1.0 = "\<lambda>_. True"])
  case (FCons g t fs)
  let ?o = "pad_to (align_of t) off"
  have t: "c_ok t" "fields_ok fs" using FCons.prems(1) by simp_all
  have le: "off \<le> ?o" using pad_to_le [of "align_of t" off] align_good(1) [OF t(1)] by simp
  from FCons.prems(2) consider "o' = ?o" "u = t" | "(f, o', u) \<in> set (offsets fs (?o + size_of t))" by auto
  then show ?case
  proof cases
    case 1
    with t le fields_end_ge [OF t(2), of "?o + size_of t"] show ?thesis by simp
  next
    case 2
    from FCons.IH [OF t(2) 2] le show ?thesis by auto
  qed
qed simp_all

lemma offsets_apart:
  "fields_ok fs \<Longrightarrow> sorted_wrt (\<lambda>(_, off, u) (_, off', _). off + size_of u \<le> off') (offsets fs off)"
proof (induction fs arbitrary: off rule: cfields.induct [where ?P1.0 = "\<lambda>_. True"])
  case (FCons f t fs)
  then show ?case using offsets_bounds [of fs _ _ _ "pad_to (align_of t) off + size_of t"] by auto
qed simp_all

lemma offsets_max:
  "fields_ok fs \<Longrightarrow> (f, o', u) \<in> set (offsets fs off) \<Longrightarrow> size_of u \<le> fields_max fs"
  by (induction fs arbitrary: off rule: cfields.induct [where ?P1.0 = "\<lambda>_. True"]) (auto simp: le_max_iff_disj)

lemma c_ok_layout:
  assumes "c_ok t"
  shows "layout_ok t"
proof (cases t)
  case (CStruct fs)
  with assms have fs: "fields_ok fs" by simp
  have "members_inside t" unfolding members_inside_def
  proof (clarify)
    fix f off u assume "(f, off, u) \<in> set (members t)"
    with CStruct offsets_bounds [OF fs, of f off u 0] have b: "c_ok u" "align_of u dvd off" "align_of u \<le> fields_align fs"
      "off + size_of u \<le> fields_end fs 0" by simp_all
    moreover have "fields_end fs 0 \<le> size_of t" using CStruct pad_to_le align_good(2) [OF fs] by simp
    moreover have "align_of u dvd align_of t" using CStruct good_align_dvd align_good b(1,3) fs by simp
    ultimately show "align_of u dvd off \<and> align_of u dvd align_of t \<and> off + size_of u \<le> size_of t" by linarith
  qed
  with CStruct offsets_apart [OF fs] show ?thesis by (simp add: layout_ok_def members_apart_def)
next
  case (CUnion fs)
  with assms have fs: "fields_ok fs" by simp
  have "members_inside t" unfolding members_inside_def
  proof (clarify)
    fix f off u assume "(f, off, u) \<in> set (members t)"
    with CUnion obtain o' where o': "off = 0" "(f, o', u) \<in> set (offsets fs 0)" by auto
    have "align_of u \<le> fields_align fs" "c_ok u" using offsets_bounds [OF fs o'(2)] by simp_all
    then have "align_of u dvd align_of t" using CUnion good_align_dvd align_good fs by simp
    moreover have "fields_max fs \<le> size_of t" using CUnion pad_to_le align_good(2) [OF fs] by simp
    ultimately show "align_of u dvd off \<and> align_of u dvd align_of t \<and> off + size_of u \<le> size_of t"
      using offsets_max [OF fs o'(2)] o'(1) by simp
  qed
  with CUnion show ?thesis by (simp add: layout_ok_def)
qed (use align_dvd_size [OF assms] in \<open>simp_all add: layout_ok_def members_inside_def\<close>)

end
