(* ===== verification/Nvml_Types.thy ===== *)
theory Nvml_Types
  imports C_Layout
begin

text \<open>
  The structures and unions of the vendored header nvml.h as C types, member by member and in
  the order of the header; array lengths are the values of the macros the header uses.  A handle
  is a pointer and an enumeration has the size of \<^verbatim>\<open>int\<close>.  The names are those of the \<^verbatim>\<open>typedef\<close>s (the
  first one, where a structure has two); those that \<^verbatim>\<open>Nvml\<close> declares as records end in \<open>_abi\<close> here.

  The callers of the library tell it the structure they were compiled with by a version word,
  which the macro \<^verbatim>\<open>NVML_STRUCT_VERSION\<close> makes from its size.
\<close>

section \<open>Structures and unions\<close>

definition nvmlPciInfoExt_v1_t :: ctype where
  "nvmlPciInfoExt_v1_t = CStruct (fields
     [(''version'', c_uint), (''domain'', c_uint), (''bus'', c_uint), (''device'', c_uint),
      (''pciDeviceId'', c_uint), (''pciSubSystemId'', c_uint), (''baseClass'', c_uint), (''subClass'', c_uint),
      (''busId'', (CArray c_char 32))])"

definition nvmlPciInfo_t_abi :: ctype where
  "nvmlPciInfo_t_abi = CStruct (fields
     [(''busIdLegacy'', (CArray c_char 16)), (''domain'', c_uint), (''bus'', c_uint), (''device'', c_uint),
      (''pciDeviceId'', c_uint), (''pciSubSystemId'', c_uint), (''busId'', (CArray c_char 32))])"

definition nvmlEccErrorCounts_t :: ctype where
  "nvmlEccErrorCounts_t = CStruct (fields
     [(''l1Cache'', c_ullong), (''l2Cache'', c_ullong), (''deviceMemory'', c_ullong),
      (''registerFile'', c_ullong)])"

definition nvmlUtilization_t_abi :: ctype where
  "nvmlUtilization_t_abi = CStruct (fields
     [(''gpu'', c_uint), (''memory'', c_uint)])"

definition nvmlMemory_t_abi :: ctype where
  "nvmlMemory_t_abi = CStruct (fields
     [(''total'', c_ullong), (''free'', c_ullong), (''used'', c_ullong)])"

definition nvmlMemory_v2_t :: ctype where
  "nvmlMemory_v2_t = CStruct (fields
     [(''version'', c_uint), (''total'', c_ullong), (''reserved'', c_ullong), (''free'', c_ullong),
      (''used'', c_ullong)])"

definition nvmlBAR1Memory_t :: ctype where
  "nvmlBAR1Memory_t = CStruct (fields
     [(''bar1Total'', c_ullong), (''bar1Free'', c_ullong), (''bar1Used'', c_ullong)])"

definition nvmlProcessInfo_v1_t :: ctype where
  "nvmlProcessInfo_v1_t = CStruct (fields
     [(''pid'', c_uint), (''usedGpuMemory'', c_ullong)])"

definition nvmlProcessInfo_v2_t :: ctype where
  "nvmlProcessInfo_v2_t = CStruct (fields
     [(''pid'', c_uint), (''usedGpuMemory'', c_ullong), (''gpuInstanceId'', c_uint),
      (''computeInstanceId'', c_uint)])"

definition nvmlProcessDetail_v1_t :: ctype where
  "nvmlProcessDetail_v1_t = CStruct (fields
     [(''pid'', c_uint), (''usedGpuMemory'', c_ullong), (''gpuInstanceId'', c_uint),
      (''computeInstanceId'', c_uint), (''usedGpuCcProtectedMemory'', c_ullong)])"

definition nvmlProcessDetailList_v1_t :: ctype where
  "nvmlProcessDetailList_v1_t = CStruct (fields
     [(''version'', c_uint), (''mode'', c_uint), (''numProcArrayEntries'', c_uint), (''procArray'', c_ptr)])"

definition nvmlDeviceAttributes_t :: ctype where
  "nvmlDeviceAttributes_t = CStruct (fields
     [(''multiprocessorCount'', c_uint), (''sharedCopyEngineCount'', c_uint), (''sharedDecoderCount'', c_uint),
      (''sharedEncoderCount'', c_uint), (''sharedJpegCount'', c_uint), (''sharedOfaCount'', c_uint),
      (''gpuInstanceSliceCount'', c_uint), (''computeInstanceSliceCount'', c_uint),
      (''memorySizeMB'', c_ullong)])"

definition nvmlC2cModeInfo_v1_t :: ctype where
  "nvmlC2cModeInfo_v1_t = CStruct (fields
     [(''isC2cEnabled'', c_uint)])"

definition nvmlDeviceAddressingMode_v1_t :: ctype where
  "nvmlDeviceAddressingMode_v1_t = CStruct (fields
     [(''version'', c_uint), (''value'', c_uint)])"

definition nvmlRepairStatus_v1_t :: ctype where
  "nvmlRepairStatus_v1_t = CStruct (fields
     [(''version'', c_uint), (''bChannelRepairPending'', c_uint), (''bTpcRepairPending'', c_uint)])"

definition nvmlRowRemapperHistogramValues_t :: ctype where
  "nvmlRowRemapperHistogramValues_t = CStruct (fields
     [(''max'', c_uint), (''high'', c_uint), (''partial'', c_uint), (''low'', c_uint), (''none'', c_uint)])"

definition nvmlNvLinkUtilizationControl_t :: ctype where
  "nvmlNvLinkUtilizationControl_t = CStruct (fields
     [(''units'', c_enum), (''pktfilter'', c_enum)])"

definition nvmlBridgeChipInfo_t :: ctype where
  "nvmlBridgeChipInfo_t = CStruct (fields
     [(''type'', c_enum), (''fwVersion'', c_uint)])"

definition nvmlBridgeChipHierarchy_t :: ctype where
  "nvmlBridgeChipHierarchy_t = CStruct (fields
     [(''bridgeCount'', c_uchar), (''bridgeChipInfo'', (CArray nvmlBridgeChipInfo_t 128))])"

definition nvmlValue_t :: ctype where
  "nvmlValue_t = CUnion (fields
     [(''dVal'', c_double), (''siVal'', c_int), (''uiVal'', c_uint), (''ulVal'', c_ulong),
      (''ullVal'', c_ullong), (''sllVal'', c_llong), (''usVal'', c_ushort)])"

definition nvmlSample_t :: ctype where
  "nvmlSample_t = CStruct (fields
     [(''timeStamp'', c_ullong), (''sampleValue'', nvmlValue_t)])"

definition nvmlViolationTime_t :: ctype where
  "nvmlViolationTime_t = CStruct (fields
     [(''referenceTime'', c_ullong), (''violationTime'', c_ullong)])"

definition nvmlGpuThermalSettings_t :: ctype where
  "nvmlGpuThermalSettings_t = CStruct (fields
     [(''count'', c_uint),
      (''sensor'', (CArray (CStruct (fields [(''controller'', c_enum), (''defaultMinTemp'', c_int), (''defaultMaxTemp'', c_int), (''currentTemp'', c_int), (''target'', c_enum)])) 3))])"

definition nvmlCoolerInfo_v1_t :: ctype where
  "nvmlCoolerInfo_v1_t = CStruct (fields
     [(''version'', c_uint), (''index'', c_uint), (''signalType'', c_enum), (''target'', c_enum)])"

definition nvmlUUIDValue_t :: ctype where
  "nvmlUUIDValue_t = CUnion (fields
     [(''str'', (CArray c_char 41)), (''bytes'', (CArray c_uchar 16))])"

definition nvmlUUID_v1_t :: ctype where
  "nvmlUUID_v1_t = CStruct (fields
     [(''version'', c_uint), (''type'', c_uint), (''value'', nvmlUUIDValue_t)])"

definition nvmlPdi_v1_t :: ctype where
  "nvmlPdi_v1_t = CStruct (fields
     [(''version'', c_uint), (''value'', c_ullong)])"

definition nvmlDramEncryptionInfo_v1_t :: ctype where
  "nvmlDramEncryptionInfo_v1_t = CStruct (fields
     [(''version'', c_uint), (''encryptionState'', c_enum)])"

definition nvmlMarginTemperature_v1_t :: ctype where
  "nvmlMarginTemperature_v1_t = CStruct (fields
     [(''version'', c_uint), (''marginTemperature'', c_int)])"

definition nvmlClkMonFaultInfo_t :: ctype where
  "nvmlClkMonFaultInfo_t = CStruct (fields
     [(''clkApiDomain'', c_uint), (''clkDomainFaultMask'', c_uint)])"

definition nvmlClkMonStatus_t :: ctype where
  "nvmlClkMonStatus_t = CStruct (fields
     [(''bGlobalStatus'', c_uint), (''clkMonListSize'', c_uint),
      (''clkMonList'', (CArray nvmlClkMonFaultInfo_t 32))])"

definition nvmlClockOffset_v1_t :: ctype where
  "nvmlClockOffset_v1_t = CStruct (fields
     [(''version'', c_uint), (''type'', c_enum), (''pstate'', c_enum), (''clockOffsetMHz'', c_int),
      (''minClockOffsetMHz'', c_int), (''maxClockOffsetMHz'', c_int)])"

definition nvmlFanSpeedInfo_v1_t :: ctype where
  "nvmlFanSpeedInfo_v1_t = CStruct (fields
     [(''version'', c_uint), (''fan'', c_uint), (''speed'', c_uint)])"

definition nvmlDevicePerfModes_v1_t :: ctype where
  "nvmlDevicePerfModes_v1_t = CStruct (fields
     [(''version'', c_uint), (''str'', (CArray c_char 2048))])"

definition nvmlDeviceCurrentClockFreqs_v1_t :: ctype where
  "nvmlDeviceCurrentClockFreqs_v1_t = CStruct (fields
     [(''version'', c_uint), (''str'', (CArray c_char 2048))])"

definition nvmlDevicePowerMizerModes_v1_t :: ctype where
  "nvmlDevicePowerMizerModes_v1_t = CStruct (fields
     [(''currentMode'', c_uint), (''mode'', c_uint), (''supportedPowerMizerModes'', c_uint)])"

definition nvmlProcessUtilizationSample_t :: ctype where
  "nvmlProcessUtilizationSample_t = CStruct (fields
     [(''pid'', c_uint), (''timeStamp'', c_ullong), (''smUtil'', c_uint), (''memUtil'', c_uint),
      (''encUtil'', c_uint), (''decUtil'', c_uint)])"

definition nvmlProcessUtilizationInfo_v1_t :: ctype where
  "nvmlProcessUtilizationInfo_v1_t = CStruct (fields
     [(''timeStamp'', c_ullong), (''pid'', c_uint), (''smUtil'', c_uint), (''memUtil'', c_uint),
      (''encUtil'', c_uint), (''decUtil'', c_uint), (''jpgUtil'', c_uint), (''ofaUtil'', c_uint)])"

definition nvmlProcessesUtilizationInfo_v1_t :: ctype where
  "nvmlProcessesUtilizationInfo_v1_t = CStruct (fields
     [(''version'', c_uint), (''processSamplesCount'', c_uint), (''lastSeenTimeStamp'', c_ullong),
      (''procUtilArray'', c_ptr)])"

definition nvmlEccSramErrorStatus_v1_t :: ctype where
  "nvmlEccSramErrorStatus_v1_t = CStruct (fields
     [(''version'', c_uint), (''aggregateUncParity'', c_ullong), (''aggregateUncSecDed'', c_ullong),
      (''aggregateCor'', c_ullong), (''volatileUncParity'', c_ullong), (''volatileUncSecDed'', c_ullong),
      (''volatileCor'', c_ullong), (''aggregateUncBucketL2'', c_ullong), (''aggregateUncBucketSm'', c_ullong),
      (''aggregateUncBucketPcie'', c_ullong), (''aggregateUncBucketMcu'', c_ullong),
      (''aggregateUncBucketOther'', c_ullong), (''bThresholdExceeded'', c_uint)])"

definition nvmlPlatformInfo_v1_t :: ctype where
  "nvmlPlatformInfo_v1_t = CStruct (fields
     [(''version'', c_uint), (''ibGuid'', (CArray c_uchar 16)), (''rackGuid'', (CArray c_uchar 16)),
      (''chassisPhysicalSlotNumber'', c_uchar), (''computeSlotIndex'', c_uchar), (''nodeIndex'', c_uchar),
      (''peerType'', c_uchar), (''moduleId'', c_uchar)])"

definition nvmlPlatformInfo_v2_t :: ctype where
  "nvmlPlatformInfo_v2_t = CStruct (fields
     [(''version'', c_uint), (''ibGuid'', (CArray c_uchar 16)), (''chassisSerialNumber'', (CArray c_uchar 16)),
      (''slotNumber'', c_uchar), (''trayIndex'', c_uchar), (''hostId'', c_uchar), (''peerType'', c_uchar),
      (''moduleId'', c_uchar)])"

definition nvmlHostname_v1_t :: ctype where
  "nvmlHostname_v1_t = CStruct (fields
     [(''value'', (CArray c_char 64))])"

definition nvmlEccSramUniqueUncorrectedErrorEntry_v1_t :: ctype where
  "nvmlEccSramUniqueUncorrectedErrorEntry_v1_t = CStruct (fields
     [(''unit'', c_uint), (''location'', c_uint), (''sublocation'', c_uint), (''extlocation'', c_uint),
      (''address'', c_uint), (''isParity'', c_uint), (''count'', c_uint)])"

definition nvmlEccSramUniqueUncorrectedErrorCounts_v1_t :: ctype where
  "nvmlEccSramUniqueUncorrectedErrorCounts_v1_t = CStruct (fields
     [(''version'', c_uint), (''entryCount'', c_uint), (''entries'', c_ptr)])"

definition nvmlGpuDynamicPstatesInfo_t :: ctype where
  "nvmlGpuDynamicPstatesInfo_t = CStruct (fields
     [(''flags'', c_uint),
      (''utilization'', (CArray (CStruct (fields [(''bIsPresent'', c_uint), (''percentage'', c_uint), (''incThreshold'', c_uint), (''decThreshold'', c_uint)])) 8))])"

definition nvmlPowerValue_v2_t :: ctype where
  "nvmlPowerValue_v2_t = CStruct (fields
     [(''version'', c_uint), (''powerScope'', c_uchar), (''powerValueMw'', c_uint)])"

definition nvmlVgpuHeterogeneousMode_v1_t :: ctype where
  "nvmlVgpuHeterogeneousMode_v1_t = CStruct (fields
     [(''version'', c_uint), (''mode'', c_uint)])"

definition nvmlVgpuPlacementId_v1_t :: ctype where
  "nvmlVgpuPlacementId_v1_t = CStruct (fields
     [(''version'', c_uint), (''placementId'', c_uint)])"

definition nvmlVgpuPlacementList_v1_t :: ctype where
  "nvmlVgpuPlacementList_v1_t = CStruct (fields
     [(''version'', c_uint), (''placementSize'', c_uint), (''count'', c_uint), (''placementIds'', c_ptr)])"

definition nvmlVgpuPlacementList_v2_t :: ctype where
  "nvmlVgpuPlacementList_v2_t = CStruct (fields
     [(''version'', c_uint), (''placementSize'', c_uint), (''count'', c_uint), (''placementIds'', c_ptr),
      (''mode'', c_uint)])"

definition nvmlVgpuTypeBar1Info_v1_t :: ctype where
  "nvmlVgpuTypeBar1Info_v1_t = CStruct (fields
     [(''version'', c_uint), (''bar1Size'', c_ullong)])"

definition nvmlVgpuInstanceUtilizationSample_t :: ctype where
  "nvmlVgpuInstanceUtilizationSample_t = CStruct (fields
     [(''vgpuInstance'', c_uint), (''timeStamp'', c_ullong), (''smUtil'', nvmlValue_t),
      (''memUtil'', nvmlValue_t), (''encUtil'', nvmlValue_t), (''decUtil'', nvmlValue_t)])"

definition nvmlVgpuInstanceUtilizationInfo_v1_t :: ctype where
  "nvmlVgpuInstanceUtilizationInfo_v1_t = CStruct (fields
     [(''timeStamp'', c_ullong), (''vgpuInstance'', c_uint), (''smUtil'', nvmlValue_t),
      (''memUtil'', nvmlValue_t), (''encUtil'', nvmlValue_t), (''decUtil'', nvmlValue_t),
      (''jpgUtil'', nvmlValue_t), (''ofaUtil'', nvmlValue_t)])"

definition nvmlVgpuInstancesUtilizationInfo_v1_t :: ctype where
  "nvmlVgpuInstancesUtilizationInfo_v1_t = CStruct (fields
     [(''version'', c_uint), (''sampleValType'', c_enum), (''vgpuInstanceCount'', c_uint),
      (''lastSeenTimeStamp'', c_ullong), (''vgpuUtilArray'', c_ptr)])"

definition nvmlVgpuProcessUtilizationSample_t :: ctype where
  "nvmlVgpuProcessUtilizationSample_t = CStruct (fields
     [(''vgpuInstance'', c_uint), (''pid'', c_uint), (''processName'', (CArray c_char 64)),
      (''timeStamp'', c_ullong), (''smUtil'', c_uint), (''memUtil'', c_uint), (''encUtil'', c_uint),
      (''decUtil'', c_uint)])"

definition nvmlVgpuProcessUtilizationInfo_v1_t :: ctype where
  "nvmlVgpuProcessUtilizationInfo_v1_t = CStruct (fields
     [(''processName'', (CArray c_char 64)), (''timeStamp'', c_ullong), (''vgpuInstance'', c_uint),
      (''pid'', c_uint), (''smUtil'', c_uint), (''memUtil'', c_uint), (''encUtil'', c_uint),
      (''decUtil'', c_uint), (''jpgUtil'', c_uint), (''ofaUtil'', c_uint)])"

definition nvmlVgpuProcessesUtilizationInfo_v1_t :: ctype where
  "nvmlVgpuProcessesUtilizationInfo_v1_t = CStruct (fields
     [(''version'', c_uint), (''vgpuProcessCount'', c_uint), (''lastSeenTimeStamp'', c_ullong),
      (''vgpuProcUtilArray'', c_ptr)])"

definition nvmlVgpuRuntimeState_v1_t :: ctype where
  "nvmlVgpuRuntimeState_v1_t = CStruct (fields
     [(''version'', c_uint), (''size'', c_ullong)])"

definition nvmlVgpuSchedulerParams_t :: ctype where
  "nvmlVgpuSchedulerParams_t = CUnion (fields
     [(''vgpuSchedDataWithARR'', (CStruct (fields [(''avgFactor'', c_uint), (''timeslice'', c_uint)]))),
      (''vgpuSchedData'', (CStruct (fields [(''timeslice'', c_uint)])))])"

definition nvmlVgpuSchedulerLogEntry_t :: ctype where
  "nvmlVgpuSchedulerLogEntry_t = CStruct (fields
     [(''timestamp'', c_ullong), (''timeRunTotal'', c_ullong), (''timeRun'', c_ullong),
      (''swRunlistId'', c_uint), (''targetTimeSlice'', c_ullong), (''cumulativePreemptionTime'', c_ullong)])"

definition nvmlVgpuSchedulerLog_t :: ctype where
  "nvmlVgpuSchedulerLog_t = CStruct (fields
     [(''engineId'', c_uint), (''schedulerPolicy'', c_uint), (''arrMode'', c_uint),
      (''schedulerParams'', nvmlVgpuSchedulerParams_t), (''entriesCount'', c_uint),
      (''logEntries'', (CArray nvmlVgpuSchedulerLogEntry_t 200))])"

definition nvmlVgpuSchedulerGetState_t :: ctype where
  "nvmlVgpuSchedulerGetState_t = CStruct (fields
     [(''schedulerPolicy'', c_uint), (''arrMode'', c_uint), (''schedulerParams'', nvmlVgpuSchedulerParams_t)])"

definition nvmlVgpuSchedulerSetParams_t :: ctype where
  "nvmlVgpuSchedulerSetParams_t = CUnion (fields
     [(''vgpuSchedDataWithARR'', (CStruct (fields [(''avgFactor'', c_uint), (''frequency'', c_uint)]))),
      (''vgpuSchedData'', (CStruct (fields [(''timeslice'', c_uint)])))])"

definition nvmlVgpuSchedulerSetState_t :: ctype where
  "nvmlVgpuSchedulerSetState_t = CStruct (fields
     [(''schedulerPolicy'', c_uint), (''enableARRMode'', c_uint),
      (''schedulerParams'', nvmlVgpuSchedulerSetParams_t)])"

definition nvmlVgpuSchedulerCapabilities_t :: ctype where
  "nvmlVgpuSchedulerCapabilities_t = CStruct (fields
     [(''supportedSchedulers'', (CArray c_uint 3)), (''maxTimeslice'', c_uint), (''minTimeslice'', c_uint),
      (''isArrModeSupported'', c_uint), (''maxFrequencyForARR'', c_uint), (''minFrequencyForARR'', c_uint),
      (''maxAvgFactorForARR'', c_uint), (''minAvgFactorForARR'', c_uint)])"

definition nvmlVgpuLicenseExpiry_t :: ctype where
  "nvmlVgpuLicenseExpiry_t = CStruct (fields
     [(''year'', c_uint), (''month'', c_ushort), (''day'', c_ushort), (''hour'', c_ushort),
      (''min'', c_ushort), (''sec'', c_ushort), (''status'', c_uchar)])"

definition nvmlVgpuLicenseInfo_t :: ctype where
  "nvmlVgpuLicenseInfo_t = CStruct (fields
     [(''isLicensed'', c_uchar), (''licenseExpiry'', nvmlVgpuLicenseExpiry_t), (''currentState'', c_uint)])"

definition nvmlGridLicenseExpiry_t :: ctype where
  "nvmlGridLicenseExpiry_t = CStruct (fields
     [(''year'', c_uint), (''month'', c_ushort), (''day'', c_ushort), (''hour'', c_ushort),
      (''min'', c_ushort), (''sec'', c_ushort), (''status'', c_uchar)])"

definition nvmlGridLicensableFeature_t :: ctype where
  "nvmlGridLicensableFeature_t = CStruct (fields
     [(''featureCode'', c_enum), (''featureState'', c_uint), (''licenseInfo'', (CArray c_char 128)),
      (''productName'', (CArray c_char 128)), (''featureEnabled'', c_uint),
      (''licenseExpiry'', nvmlGridLicenseExpiry_t)])"

definition nvmlGridLicensableFeatures_t :: ctype where
  "nvmlGridLicensableFeatures_t = CStruct (fields
     [(''isGridLicenseSupported'', c_int), (''licensableFeaturesCount'', c_uint),
      (''gridLicensableFeatures'', (CArray nvmlGridLicensableFeature_t 3))])"

definition nvmlVgpuTypeIdInfo_v1_t :: ctype where
  "nvmlVgpuTypeIdInfo_v1_t = CStruct (fields
     [(''version'', c_uint), (''vgpuCount'', c_uint), (''vgpuTypeIds'', c_ptr)])"

definition nvmlVgpuTypeMaxInstance_v1_t :: ctype where
  "nvmlVgpuTypeMaxInstance_v1_t = CStruct (fields
     [(''version'', c_uint), (''vgpuTypeId'', c_uint), (''maxInstancePerGI'', c_uint)])"

definition nvmlActiveVgpuInstanceInfo_v1_t :: ctype where
  "nvmlActiveVgpuInstanceInfo_v1_t = CStruct (fields
     [(''version'', c_uint), (''vgpuCount'', c_uint), (''vgpuInstances'', c_ptr)])"

definition nvmlVgpuSchedulerState_v1_t :: ctype where
  "nvmlVgpuSchedulerState_v1_t = CStruct (fields
     [(''version'', c_uint), (''engineId'', c_uint), (''schedulerPolicy'', c_uint),
      (''enableARRMode'', c_uint), (''schedulerParams'', nvmlVgpuSchedulerSetParams_t)])"

definition nvmlVgpuSchedulerStateInfo_v1_t :: ctype where
  "nvmlVgpuSchedulerStateInfo_v1_t = CStruct (fields
     [(''version'', c_uint), (''engineId'', c_uint), (''schedulerPolicy'', c_uint), (''arrMode'', c_uint),
      (''schedulerParams'', nvmlVgpuSchedulerParams_t)])"

definition nvmlVgpuSchedulerLogInfo_v1_t :: ctype where
  "nvmlVgpuSchedulerLogInfo_v1_t = CStruct (fields
     [(''version'', c_uint), (''engineId'', c_uint), (''schedulerPolicy'', c_uint), (''arrMode'', c_uint),
      (''schedulerParams'', nvmlVgpuSchedulerParams_t), (''entriesCount'', c_uint),
      (''logEntries'', (CArray nvmlVgpuSchedulerLogEntry_t 200))])"

definition nvmlVgpuCreatablePlacementInfo_v1_t :: ctype where
  "nvmlVgpuCreatablePlacementInfo_v1_t = CStruct (fields
     [(''version'', c_uint), (''vgpuTypeId'', c_uint), (''count'', c_uint), (''placementIds'', c_ptr),
      (''placementSize'', c_uint)])"

definition nvmlNvLinkPowerThres_t :: ctype where
  "nvmlNvLinkPowerThres_t = CStruct (fields
     [(''lowPwrThreshold'', c_uint)])"

definition nvmlFieldValue_t :: ctype where
  "nvmlFieldValue_t = CStruct (fields
     [(''fieldId'', c_uint), (''scopeId'', c_uint), (''timestamp'', c_llong), (''latencyUsec'', c_llong),
      (''valueType'', c_enum), (''nvmlReturn'', c_enum), (''value'', nvmlValue_t)])"

definition nvmlHwbcEntry_t :: ctype where
  "nvmlHwbcEntry_t = CStruct (fields
     [(''hwbcId'', c_uint), (''firmwareVersion'', (CArray c_char 32))])"

definition nvmlLedState_t :: ctype where
  "nvmlLedState_t = CStruct (fields
     [(''cause'', (CArray c_char 256)), (''color'', c_enum)])"

definition nvmlUnitInfo_t :: ctype where
  "nvmlUnitInfo_t = CStruct (fields
     [(''name'', (CArray c_char 96)), (''id'', (CArray c_char 96)), (''serial'', (CArray c_char 96)),
      (''firmwareVersion'', (CArray c_char 96))])"

definition nvmlPSUInfo_t :: ctype where
  "nvmlPSUInfo_t = CStruct (fields
     [(''state'', (CArray c_char 256)), (''current'', c_uint), (''voltage'', c_uint), (''power'', c_uint)])"

definition nvmlUnitFanInfo_t :: ctype where
  "nvmlUnitFanInfo_t = CStruct (fields
     [(''speed'', c_uint), (''state'', c_enum)])"

definition nvmlUnitFanSpeeds_t :: ctype where
  "nvmlUnitFanSpeeds_t = CStruct (fields
     [(''fans'', (CArray nvmlUnitFanInfo_t 24)), (''count'', c_uint)])"

definition nvmlEventData_t :: ctype where
  "nvmlEventData_t = CStruct (fields
     [(''device'', c_ptr), (''eventType'', c_ullong), (''eventData'', c_ullong), (''gpuInstanceId'', c_uint),
      (''computeInstanceId'', c_uint)])"

definition nvmlSystemEventSetCreateRequest_v1_t :: ctype where
  "nvmlSystemEventSetCreateRequest_v1_t = CStruct (fields
     [(''version'', c_uint), (''set'', c_ptr)])"

definition nvmlSystemEventSetFreeRequest_v1_t :: ctype where
  "nvmlSystemEventSetFreeRequest_v1_t = CStruct (fields
     [(''version'', c_uint), (''set'', c_ptr)])"

definition nvmlSystemRegisterEventRequest_v1_t :: ctype where
  "nvmlSystemRegisterEventRequest_v1_t = CStruct (fields
     [(''version'', c_uint), (''eventTypes'', c_ullong), (''set'', c_ptr)])"

definition nvmlSystemEventData_v1_t :: ctype where
  "nvmlSystemEventData_v1_t = CStruct (fields
     [(''eventType'', c_ullong), (''gpuId'', c_uint)])"

definition nvmlSystemEventSetWaitRequest_v1_t :: ctype where
  "nvmlSystemEventSetWaitRequest_v1_t = CStruct (fields
     [(''version'', c_uint), (''timeoutms'', c_uint), (''set'', c_ptr), (''data'', c_ptr),
      (''dataSize'', c_uint), (''numEvent'', c_uint)])"

definition nvmlAccountingStats_t :: ctype where
  "nvmlAccountingStats_t = CStruct (fields
     [(''gpuUtilization'', c_uint), (''memoryUtilization'', c_uint), (''maxMemoryUsage'', c_ullong),
      (''time'', c_ullong), (''startTime'', c_ullong), (''isRunning'', c_uint),
      (''reserved'', (CArray c_uint 5))])"

definition nvmlEncoderSessionInfo_t :: ctype where
  "nvmlEncoderSessionInfo_t = CStruct (fields
     [(''sessionId'', c_uint), (''pid'', c_uint), (''vgpuInstance'', c_uint), (''codecType'', c_enum),
      (''hResolution'', c_uint), (''vResolution'', c_uint), (''averageFps'', c_uint),
      (''averageLatency'', c_uint)])"

definition nvmlFBCStats_t :: ctype where
  "nvmlFBCStats_t = CStruct (fields
     [(''sessionsCount'', c_uint), (''averageFPS'', c_uint), (''averageLatency'', c_uint)])"

definition nvmlFBCSessionInfo_t :: ctype where
  "nvmlFBCSessionInfo_t = CStruct (fields
     [(''sessionId'', c_uint), (''pid'', c_uint), (''vgpuInstance'', c_uint), (''displayOrdinal'', c_uint),
      (''sessionType'', c_enum), (''sessionFlags'', c_uint), (''hMaxResolution'', c_uint),
      (''vMaxResolution'', c_uint), (''hResolution'', c_uint), (''vResolution'', c_uint),
      (''averageFPS'', c_uint), (''averageLatency'', c_uint)])"

definition nvmlConfComputeSystemCaps_t :: ctype where
  "nvmlConfComputeSystemCaps_t = CStruct (fields
     [(''cpuCaps'', c_uint), (''gpusCaps'', c_uint)])"

definition nvmlConfComputeSystemState_t :: ctype where
  "nvmlConfComputeSystemState_t = CStruct (fields
     [(''environment'', c_uint), (''ccFeature'', c_uint), (''devToolsMode'', c_uint)])"

definition nvmlSystemConfComputeSettings_v1_t :: ctype where
  "nvmlSystemConfComputeSettings_v1_t = CStruct (fields
     [(''version'', c_uint), (''environment'', c_uint), (''ccFeature'', c_uint), (''devToolsMode'', c_uint),
      (''multiGpuMode'', c_uint)])"

definition nvmlConfComputeMemSizeInfo_t :: ctype where
  "nvmlConfComputeMemSizeInfo_t = CStruct (fields
     [(''protectedMemSizeKib'', c_ullong), (''unprotectedMemSizeKib'', c_ullong)])"

definition nvmlConfComputeGpuCertificate_t :: ctype where
  "nvmlConfComputeGpuCertificate_t = CStruct (fields
     [(''certChainSize'', c_uint), (''attestationCertChainSize'', c_uint),
      (''certChain'', (CArray c_uchar 4096)), (''attestationCertChain'', (CArray c_uchar 5120))])"

definition nvmlConfComputeGpuAttestationReport_t :: ctype where
  "nvmlConfComputeGpuAttestationReport_t = CStruct (fields
     [(''isCecAttestationReportPresent'', c_uint), (''attestationReportSize'', c_uint),
      (''cecAttestationReportSize'', c_uint), (''nonce'', (CArray c_uchar 32)),
      (''attestationReport'', (CArray c_uchar 8192)), (''cecAttestationReport'', (CArray c_uchar 4096))])"

definition nvmlConfComputeSetKeyRotationThresholdInfo_v1_t :: ctype where
  "nvmlConfComputeSetKeyRotationThresholdInfo_v1_t = CStruct (fields
     [(''version'', c_uint), (''maxAttackerAdvantage'', c_ullong)])"

definition nvmlConfComputeGetKeyRotationThresholdInfo_v1_t :: ctype where
  "nvmlConfComputeGetKeyRotationThresholdInfo_v1_t = CStruct (fields
     [(''version'', c_uint), (''attackerAdvantage'', c_ullong)])"

definition nvmlGpuFabricInfo_t :: ctype where
  "nvmlGpuFabricInfo_t = CStruct (fields
     [(''clusterUuid'', (CArray c_uchar 16)), (''status'', c_enum), (''cliqueId'', c_uint),
      (''state'', c_uchar)])"

definition nvmlGpuFabricInfo_v2_t :: ctype where
  "nvmlGpuFabricInfo_v2_t = CStruct (fields
     [(''version'', c_uint), (''clusterUuid'', (CArray c_uchar 16)), (''status'', c_enum),
      (''cliqueId'', c_uint), (''state'', c_uchar), (''healthMask'', c_uint)])"

definition nvmlGpuFabricInfo_v3_t :: ctype where
  "nvmlGpuFabricInfo_v3_t = CStruct (fields
     [(''version'', c_uint), (''clusterUuid'', (CArray c_uchar 16)), (''status'', c_enum),
      (''cliqueId'', c_uint), (''state'', c_uchar), (''healthMask'', c_uint), (''healthSummary'', c_uchar)])"

definition nvmlSystemDriverBranchInfo_v1_t :: ctype where
  "nvmlSystemDriverBranchInfo_v1_t = CStruct (fields
     [(''version'', c_uint), (''branch'', (CArray c_char 80))])"

definition nvmlTemperature_v1_t :: ctype where
  "nvmlTemperature_v1_t = CStruct (fields
     [(''version'', c_uint), (''sensorType'', c_enum), (''temperature'', c_int)])"

definition nvmlNvlinkSupportedBwModes_v1_t :: ctype where
  "nvmlNvlinkSupportedBwModes_v1_t = CStruct (fields
     [(''version'', c_uint), (''bwModes'', (CArray c_uchar 23)), (''totalBwModes'', c_uchar)])"

definition nvmlNvlinkGetBwMode_v1_t :: ctype where
  "nvmlNvlinkGetBwMode_v1_t = CStruct (fields
     [(''version'', c_uint), (''bIsBest'', c_uint), (''bwMode'', c_uchar)])"

definition nvmlNvlinkSetBwMode_v1_t :: ctype where
  "nvmlNvlinkSetBwMode_v1_t = CStruct (fields
     [(''version'', c_uint), (''bSetBest'', c_uint), (''bwMode'', c_uchar)])"

definition nvmlNvLinkInfo_v1_t :: ctype where
  "nvmlNvLinkInfo_v1_t = CStruct (fields
     [(''version'', c_uint), (''isNvleEnabled'', c_uint)])"

definition nvmlNvlinkFirmwareVersion_t :: ctype where
  "nvmlNvlinkFirmwareVersion_t = CStruct (fields
     [(''ucodeType'', c_uchar), (''major'', c_uint), (''minor'', c_uint), (''subMinor'', c_uint)])"

definition nvmlNvlinkFirmwareInfo_t :: ctype where
  "nvmlNvlinkFirmwareInfo_t = CStruct (fields
     [(''firmwareVersion'', (CArray nvmlNvlinkFirmwareVersion_t 100)), (''numValidEntries'', c_uint)])"

definition nvmlNvLinkInfo_v2_t :: ctype where
  "nvmlNvLinkInfo_v2_t = CStruct (fields
     [(''version'', c_uint), (''isNvleEnabled'', c_uint), (''firmwareInfo'', nvmlNvlinkFirmwareInfo_t)])"

definition nvmlVgpuVersion_t :: ctype where
  "nvmlVgpuVersion_t = CStruct (fields
     [(''minVersion'', c_uint), (''maxVersion'', c_uint)])"

definition nvmlVgpuMetadata_t :: ctype where
  "nvmlVgpuMetadata_t = CStruct (fields
     [(''version'', c_uint), (''revision'', c_uint), (''guestInfoState'', c_enum),
      (''guestDriverVersion'', (CArray c_char 80)), (''hostDriverVersion'', (CArray c_char 80)),
      (''reserved'', (CArray c_uint 6)), (''vgpuVirtualizationCaps'', c_uint), (''guestVgpuVersion'', c_uint),
      (''opaqueDataSize'', c_uint), (''opaqueData'', (CArray c_char 4))])"

definition nvmlVgpuPgpuMetadata_t :: ctype where
  "nvmlVgpuPgpuMetadata_t = CStruct (fields
     [(''version'', c_uint), (''revision'', c_uint), (''hostDriverVersion'', (CArray c_char 80)),
      (''pgpuVirtualizationCaps'', c_uint), (''reserved'', (CArray c_uint 5)),
      (''hostSupportedVgpuRange'', nvmlVgpuVersion_t), (''opaqueDataSize'', c_uint),
      (''opaqueData'', (CArray c_char 4))])"

definition nvmlVgpuPgpuCompatibility_t :: ctype where
  "nvmlVgpuPgpuCompatibility_t = CStruct (fields
     [(''vgpuVmCompatibility'', c_enum), (''compatibilityLimitCode'', c_enum)])"

definition nvmlExcludedDeviceInfo_t :: ctype where
  "nvmlExcludedDeviceInfo_t = CStruct (fields
     [(''pciInfo'', nvmlPciInfo_t_abi), (''uuid'', (CArray c_char 80))])"

definition nvmlPRMTLV_v1_t :: ctype where
  "nvmlPRMTLV_v1_t = CStruct (fields
     [(''dataSize'', c_uint), (''status'', c_uint),
      (''anonymous'', (CUnion (fields [(''inData'', (CArray c_uchar 496)), (''outData'', (CArray c_uchar 496))])))])"

definition nvmlPRMCounterInput_v1_t :: ctype where
  "nvmlPRMCounterInput_v1_t = CStruct (fields
     [(''localPort'', c_uint)])"

definition nvmlPRMCounterValue_v1_t :: ctype where
  "nvmlPRMCounterValue_v1_t = CStruct (fields
     [(''status'', c_enum), (''outputType'', c_enum), (''outputValue'', nvmlValue_t)])"

definition nvmlPRMCounter_v1_t :: ctype where
  "nvmlPRMCounter_v1_t = CStruct (fields
     [(''counterId'', c_uint), (''inData'', nvmlPRMCounterInput_v1_t),
      (''counterValue'', nvmlPRMCounterValue_v1_t)])"

definition nvmlPRMCounterList_v1_t :: ctype where
  "nvmlPRMCounterList_v1_t = CStruct (fields
     [(''numCounters'', c_uint), (''counters'', c_ptr)])"

definition nvmlGpuInstancePlacement_t :: ctype where
  "nvmlGpuInstancePlacement_t = CStruct (fields
     [(''start'', c_uint), (''size'', c_uint)])"

definition nvmlGpuInstanceProfileInfo_t :: ctype where
  "nvmlGpuInstanceProfileInfo_t = CStruct (fields
     [(''id'', c_uint), (''isP2pSupported'', c_uint), (''sliceCount'', c_uint), (''instanceCount'', c_uint),
      (''multiprocessorCount'', c_uint), (''copyEngineCount'', c_uint), (''decoderCount'', c_uint),
      (''encoderCount'', c_uint), (''jpegCount'', c_uint), (''ofaCount'', c_uint), (''memorySizeMB'', c_ullong)])"

definition nvmlGpuInstanceProfileInfo_v2_t :: ctype where
  "nvmlGpuInstanceProfileInfo_v2_t = CStruct (fields
     [(''version'', c_uint), (''id'', c_uint), (''isP2pSupported'', c_uint), (''sliceCount'', c_uint),
      (''instanceCount'', c_uint), (''multiprocessorCount'', c_uint), (''copyEngineCount'', c_uint),
      (''decoderCount'', c_uint), (''encoderCount'', c_uint), (''jpegCount'', c_uint), (''ofaCount'', c_uint),
      (''memorySizeMB'', c_ullong), (''name'', (CArray c_char 96))])"

definition nvmlGpuInstanceProfileInfo_v3_t :: ctype where
  "nvmlGpuInstanceProfileInfo_v3_t = CStruct (fields
     [(''version'', c_uint), (''id'', c_uint), (''sliceCount'', c_uint), (''instanceCount'', c_uint),
      (''multiprocessorCount'', c_uint), (''copyEngineCount'', c_uint), (''decoderCount'', c_uint),
      (''encoderCount'', c_uint), (''jpegCount'', c_uint), (''ofaCount'', c_uint),
      (''memorySizeMB'', c_ullong), (''name'', (CArray c_char 96)), (''capabilities'', c_uint)])"

definition nvmlGpuInstanceInfo_t :: ctype where
  "nvmlGpuInstanceInfo_t = CStruct (fields
     [(''device'', c_ptr), (''id'', c_uint), (''profileId'', c_uint),
      (''placement'', nvmlGpuInstancePlacement_t)])"

definition nvmlComputeInstancePlacement_t :: ctype where
  "nvmlComputeInstancePlacement_t = CStruct (fields
     [(''start'', c_uint), (''size'', c_uint)])"

definition nvmlComputeInstanceProfileInfo_t :: ctype where
  "nvmlComputeInstanceProfileInfo_t = CStruct (fields
     [(''id'', c_uint), (''sliceCount'', c_uint), (''instanceCount'', c_uint),
      (''multiprocessorCount'', c_uint), (''sharedCopyEngineCount'', c_uint), (''sharedDecoderCount'', c_uint),
      (''sharedEncoderCount'', c_uint), (''sharedJpegCount'', c_uint), (''sharedOfaCount'', c_uint)])"

definition nvmlComputeInstanceProfileInfo_v2_t :: ctype where
  "nvmlComputeInstanceProfileInfo_v2_t = CStruct (fields
     [(''version'', c_uint), (''id'', c_uint), (''sliceCount'', c_uint), (''instanceCount'', c_uint),
      (''multiprocessorCount'', c_uint), (''sharedCopyEngineCount'', c_uint), (''sharedDecoderCount'', c_uint),
      (''sharedEncoderCount'', c_uint), (''sharedJpegCount'', c_uint), (''sharedOfaCount'', c_uint),
      (''name'', (CArray c_char 96))])"

definition nvmlComputeInstanceProfileInfo_v3_t :: ctype where
  "nvmlComputeInstanceProfileInfo_v3_t = CStruct (fields
     [(''version'', c_uint), (''id'', c_uint), (''sliceCount'', c_uint), (''instanceCount'', c_uint),
      (''multiprocessorCount'', c_uint), (''sharedCopyEngineCount'', c_uint), (''sharedDecoderCount'', c_uint),
      (''sharedEncoderCount'', c_uint), (''sharedJpegCount'', c_uint), (''sharedOfaCount'', c_uint),
      (''name'', (CArray c_char 96)), (''capabilities'', c_uint)])"

definition nvmlComputeInstanceInfo_t :: ctype where
  "nvmlComputeInstanceInfo_t = CStruct (fields
     [(''device'', c_ptr), (''gpuInstance'', c_ptr), (''id'', c_uint), (''profileId'', c_uint),
      (''placement'', nvmlComputeInstancePlacement_t)])"

definition nvmlGpmMetric_t :: ctype where
  "nvmlGpmMetric_t = CStruct (fields
     [(''metricId'', c_uint), (''nvmlReturn'', c_enum), (''value'', c_double),
      (''metricInfo'', (CStruct (fields [(''shortName'', c_ptr), (''longName'', c_ptr), (''unit'', c_ptr)])))])"

definition nvmlGpmMetricsGet_t :: ctype where
  "nvmlGpmMetricsGet_t = CStruct (fields
     [(''version'', c_uint), (''numMetrics'', c_uint), (''sample1'', c_ptr), (''sample2'', c_ptr),
      (''metrics'', (CArray nvmlGpmMetric_t 210))])"

definition nvmlGpmSupport_t :: ctype where
  "nvmlGpmSupport_t = CStruct (fields
     [(''version'', c_uint), (''isSupportedDevice'', c_uint)])"

definition nvmlDeviceCapabilities_v1_t :: ctype where
  "nvmlDeviceCapabilities_v1_t = CStruct (fields
     [(''version'', c_uint), (''capMask'', c_uint)])"

definition nvmlMask255_t :: ctype where
  "nvmlMask255_t = CStruct (fields
     [(''mask'', (CArray c_uint 8))])"

definition nvmlWorkloadPowerProfileInfo_v1_t :: ctype where
  "nvmlWorkloadPowerProfileInfo_v1_t = CStruct (fields
     [(''version'', c_uint), (''profileId'', c_uint), (''priority'', c_uint),
      (''conflictingMask'', nvmlMask255_t)])"

definition nvmlWorkloadPowerProfileProfilesInfo_v1_t :: ctype where
  "nvmlWorkloadPowerProfileProfilesInfo_v1_t = CStruct (fields
     [(''version'', c_uint), (''perfProfilesMask'', nvmlMask255_t),
      (''perfProfile'', (CArray nvmlWorkloadPowerProfileInfo_v1_t 255))])"

definition nvmlWorkloadPowerProfileCurrentProfiles_v1_t :: ctype where
  "nvmlWorkloadPowerProfileCurrentProfiles_v1_t = CStruct (fields
     [(''version'', c_uint), (''perfProfilesMask'', nvmlMask255_t), (''requestedProfilesMask'', nvmlMask255_t),
      (''enforcedProfilesMask'', nvmlMask255_t)])"

definition nvmlWorkloadPowerProfileRequestedProfiles_v1_t :: ctype where
  "nvmlWorkloadPowerProfileRequestedProfiles_v1_t = CStruct (fields
     [(''version'', c_uint), (''requestedProfilesMask'', nvmlMask255_t)])"

definition nvmlPowerSmoothingProfile_v1_t :: ctype where
  "nvmlPowerSmoothingProfile_v1_t = CStruct (fields
     [(''version'', c_uint), (''profileId'', c_uint), (''paramId'', c_uint), (''value'', c_double)])"

definition nvmlPowerSmoothingState_v1_t :: ctype where
  "nvmlPowerSmoothingState_v1_t = CStruct (fields
     [(''version'', c_uint), (''state'', c_enum)])"

section \<open>Version words\<close>

definition NVML_STRUCT_VERSION :: "ctype \<Rightarrow> nat \<Rightarrow> u32" where
  "NVML_STRUCT_VERSION t ver = of_nat (size_of t) OR push_bit 24 (of_nat ver)"

text \<open>The version macros of the header: name, structure and version.\<close>

definition nvml_struct_versions :: "(string \<times> ctype \<times> nat) list" where
  "nvml_struct_versions =
     [(''nvmlPciInfoExt_v1'', nvmlPciInfoExt_v1_t, 1), (''nvmlMemory_v2'', nvmlMemory_v2_t, 2),
      (''nvmlProcessDetailList_v1'', nvmlProcessDetailList_v1_t, 1),
      (''nvmlC2cModeInfo_v1'', nvmlC2cModeInfo_v1_t, 1),
      (''nvmlDeviceAddressingMode_v1'', nvmlDeviceAddressingMode_v1_t, 1),
      (''nvmlRepairStatus_v1'', nvmlRepairStatus_v1_t, 1), (''nvmlCoolerInfo_v1'', nvmlCoolerInfo_v1_t, 1),
      (''nvmlUUID_v1'', nvmlUUID_v1_t, 1), (''nvmlPdi_v1'', nvmlPdi_v1_t, 1),
      (''nvmlDramEncryptionInfo_v1'', nvmlDramEncryptionInfo_v1_t, 1),
      (''nvmlMarginTemperature_v1'', nvmlMarginTemperature_v1_t, 1),
      (''nvmlClockOffset_v1'', nvmlClockOffset_v1_t, 1), (''nvmlFanSpeedInfo_v1'', nvmlFanSpeedInfo_v1_t, 1),
      (''nvmlDevicePerfModes_v1'', nvmlDevicePerfModes_v1_t, 1),
      (''nvmlDeviceCurrentClockFreqs_v1'', nvmlDeviceCurrentClockFreqs_v1_t, 1),
      (''nvmlProcessesUtilizationInfo_v1'', nvmlProcessesUtilizationInfo_v1_t, 1),
      (''nvmlEccSramErrorStatus_v1'', nvmlEccSramErrorStatus_v1_t, 1),
      (''nvmlPlatformInfo_v1'', nvmlPlatformInfo_v1_t, 1), (''nvmlPlatformInfo_v2'', nvmlPlatformInfo_v2_t, 2),
      (''nvmlEccSramUniqueUncorrectedErrorCounts_v1'', nvmlEccSramUniqueUncorrectedErrorCounts_v1_t, 1),
      (''nvmlPowerValue_v2'', nvmlPowerValue_v2_t, 2),
      (''nvmlVgpuHeterogeneousMode_v1'', nvmlVgpuHeterogeneousMode_v1_t, 1),
      (''nvmlVgpuPlacementId_v1'', nvmlVgpuPlacementId_v1_t, 1),
      (''nvmlVgpuPlacementList_v1'', nvmlVgpuPlacementList_v1_t, 1),
      (''nvmlVgpuPlacementList_v2'', nvmlVgpuPlacementList_v2_t, 2),
      (''nvmlVgpuTypeBar1Info_v1'', nvmlVgpuTypeBar1Info_v1_t, 1),
      (''nvmlVgpuInstancesUtilizationInfo_v1'', nvmlVgpuInstancesUtilizationInfo_v1_t, 1),
      (''nvmlVgpuProcessesUtilizationInfo_v1'', nvmlVgpuProcessesUtilizationInfo_v1_t, 1),
      (''nvmlVgpuRuntimeState_v1'', nvmlVgpuRuntimeState_v1_t, 1),
      (''nvmlVgpuTypeIdInfo_v1'', nvmlVgpuTypeIdInfo_v1_t, 1),
      (''nvmlVgpuTypeMaxInstance_v1'', nvmlVgpuTypeMaxInstance_v1_t, 1),
      (''nvmlActiveVgpuInstanceInfo_v1'', nvmlActiveVgpuInstanceInfo_v1_t, 1),
      (''nvmlVgpuSchedulerState_v1'', nvmlVgpuSchedulerState_v1_t, 1),
      (''nvmlVgpuSchedulerStateInfo_v1'', nvmlVgpuSchedulerStateInfo_v1_t, 1),
      (''nvmlVgpuSchedulerLogInfo_v1'', nvmlVgpuSchedulerLogInfo_v1_t, 1),
      (''nvmlVgpuCreatablePlacementInfo_v1'', nvmlVgpuCreatablePlacementInfo_v1_t, 1),
      (''nvmlSystemEventSetCreateRequest_v1'', nvmlSystemEventSetCreateRequest_v1_t, 1),
      (''nvmlSystemEventSetFreeRequest_v1'', nvmlSystemEventSetFreeRequest_v1_t, 1),
      (''nvmlSystemRegisterEventRequest_v1'', nvmlSystemRegisterEventRequest_v1_t, 1),
      (''nvmlSystemEventSetWaitRequest_v1'', nvmlSystemEventSetWaitRequest_v1_t, 1),
      (''nvmlSystemConfComputeSettings_v1'', nvmlSystemConfComputeSettings_v1_t, 1),
      (''nvmlConfComputeSetKeyRotationThresholdInfo_v1'', nvmlConfComputeSetKeyRotationThresholdInfo_v1_t, 1),
      (''nvmlConfComputeGetKeyRotationThresholdInfo_v1'', nvmlConfComputeGetKeyRotationThresholdInfo_v1_t, 1),
      (''nvmlGpuFabricInfo_v2'', nvmlGpuFabricInfo_v2_t, 2),
      (''nvmlGpuFabricInfo_v3'', nvmlGpuFabricInfo_v3_t, 3),
      (''nvmlSystemDriverBranchInfo_v1'', nvmlSystemDriverBranchInfo_v1_t, 1),
      (''nvmlTemperature_v1'', nvmlTemperature_v1_t, 1),
      (''nvmlNvlinkSupportedBwModes_v1'', nvmlNvlinkSupportedBwModes_v1_t, 1),
      (''nvmlNvlinkGetBwMode_v1'', nvmlNvlinkGetBwMode_v1_t, 1),
      (''nvmlNvlinkSetBwMode_v1'', nvmlNvlinkSetBwMode_v1_t, 1),
      (''nvmlNvLinkInfo_v1'', nvmlNvLinkInfo_v1_t, 1), (''nvmlNvLinkInfo_v2'', nvmlNvLinkInfo_v2_t, 2),
      (''nvmlGpuInstanceProfileInfo_v2'', nvmlGpuInstanceProfileInfo_v2_t, 2),
      (''nvmlGpuInstanceProfileInfo_v3'', nvmlGpuInstanceProfileInfo_v3_t, 3),
      (''nvmlComputeInstanceProfileInfo_v2'', nvmlComputeInstanceProfileInfo_v2_t, 2),
      (''nvmlComputeInstanceProfileInfo_v3'', nvmlComputeInstanceProfileInfo_v3_t, 3),
      (''nvmlDeviceCapabilities_v1'', nvmlDeviceCapabilities_v1_t, 1),
      (''nvmlWorkloadPowerProfileInfo_v1'', nvmlWorkloadPowerProfileInfo_v1_t, 1),
      (''nvmlWorkloadPowerProfileProfilesInfo_v1'', nvmlWorkloadPowerProfileProfilesInfo_v1_t, 1),
      (''nvmlWorkloadPowerProfileCurrentProfiles_v1'', nvmlWorkloadPowerProfileCurrentProfiles_v1_t, 1),
      (''nvmlWorkloadPowerProfileRequestedProfiles_v1'', nvmlWorkloadPowerProfileRequestedProfiles_v1_t, 1),
      (''nvmlPowerSmoothingProfile_v1'', nvmlPowerSmoothingProfile_v1_t, 1),
      (''nvmlPowerSmoothingState_v1'', nvmlPowerSmoothingState_v1_t, 1)]"

text \<open>All of them, by name.\<close>

definition nvml_structs :: "(string \<times> ctype) list" where
  "nvml_structs =
     [(''nvmlPciInfoExt_v1_t'', nvmlPciInfoExt_v1_t), (''nvmlPciInfo_t_abi'', nvmlPciInfo_t_abi),
      (''nvmlEccErrorCounts_t'', nvmlEccErrorCounts_t), (''nvmlUtilization_t_abi'', nvmlUtilization_t_abi),
      (''nvmlMemory_t_abi'', nvmlMemory_t_abi), (''nvmlMemory_v2_t'', nvmlMemory_v2_t),
      (''nvmlBAR1Memory_t'', nvmlBAR1Memory_t), (''nvmlProcessInfo_v1_t'', nvmlProcessInfo_v1_t),
      (''nvmlProcessInfo_v2_t'', nvmlProcessInfo_v2_t), (''nvmlProcessDetail_v1_t'', nvmlProcessDetail_v1_t),
      (''nvmlProcessDetailList_v1_t'', nvmlProcessDetailList_v1_t),
      (''nvmlDeviceAttributes_t'', nvmlDeviceAttributes_t), (''nvmlC2cModeInfo_v1_t'', nvmlC2cModeInfo_v1_t),
      (''nvmlDeviceAddressingMode_v1_t'', nvmlDeviceAddressingMode_v1_t),
      (''nvmlRepairStatus_v1_t'', nvmlRepairStatus_v1_t),
      (''nvmlRowRemapperHistogramValues_t'', nvmlRowRemapperHistogramValues_t),
      (''nvmlNvLinkUtilizationControl_t'', nvmlNvLinkUtilizationControl_t),
      (''nvmlBridgeChipInfo_t'', nvmlBridgeChipInfo_t),
      (''nvmlBridgeChipHierarchy_t'', nvmlBridgeChipHierarchy_t), (''nvmlValue_t'', nvmlValue_t),
      (''nvmlSample_t'', nvmlSample_t), (''nvmlViolationTime_t'', nvmlViolationTime_t),
      (''nvmlGpuThermalSettings_t'', nvmlGpuThermalSettings_t), (''nvmlCoolerInfo_v1_t'', nvmlCoolerInfo_v1_t),
      (''nvmlUUIDValue_t'', nvmlUUIDValue_t), (''nvmlUUID_v1_t'', nvmlUUID_v1_t),
      (''nvmlPdi_v1_t'', nvmlPdi_v1_t), (''nvmlDramEncryptionInfo_v1_t'', nvmlDramEncryptionInfo_v1_t),
      (''nvmlMarginTemperature_v1_t'', nvmlMarginTemperature_v1_t),
      (''nvmlClkMonFaultInfo_t'', nvmlClkMonFaultInfo_t), (''nvmlClkMonStatus_t'', nvmlClkMonStatus_t),
      (''nvmlClockOffset_v1_t'', nvmlClockOffset_v1_t), (''nvmlFanSpeedInfo_v1_t'', nvmlFanSpeedInfo_v1_t),
      (''nvmlDevicePerfModes_v1_t'', nvmlDevicePerfModes_v1_t),
      (''nvmlDeviceCurrentClockFreqs_v1_t'', nvmlDeviceCurrentClockFreqs_v1_t),
      (''nvmlDevicePowerMizerModes_v1_t'', nvmlDevicePowerMizerModes_v1_t),
      (''nvmlProcessUtilizationSample_t'', nvmlProcessUtilizationSample_t),
      (''nvmlProcessUtilizationInfo_v1_t'', nvmlProcessUtilizationInfo_v1_t),
      (''nvmlProcessesUtilizationInfo_v1_t'', nvmlProcessesUtilizationInfo_v1_t),
      (''nvmlEccSramErrorStatus_v1_t'', nvmlEccSramErrorStatus_v1_t),
      (''nvmlPlatformInfo_v1_t'', nvmlPlatformInfo_v1_t), (''nvmlPlatformInfo_v2_t'', nvmlPlatformInfo_v2_t),
      (''nvmlHostname_v1_t'', nvmlHostname_v1_t),
      (''nvmlEccSramUniqueUncorrectedErrorEntry_v1_t'', nvmlEccSramUniqueUncorrectedErrorEntry_v1_t),
      (''nvmlEccSramUniqueUncorrectedErrorCounts_v1_t'', nvmlEccSramUniqueUncorrectedErrorCounts_v1_t),
      (''nvmlGpuDynamicPstatesInfo_t'', nvmlGpuDynamicPstatesInfo_t),
      (''nvmlPowerValue_v2_t'', nvmlPowerValue_v2_t),
      (''nvmlVgpuHeterogeneousMode_v1_t'', nvmlVgpuHeterogeneousMode_v1_t),
      (''nvmlVgpuPlacementId_v1_t'', nvmlVgpuPlacementId_v1_t),
      (''nvmlVgpuPlacementList_v1_t'', nvmlVgpuPlacementList_v1_t),
      (''nvmlVgpuPlacementList_v2_t'', nvmlVgpuPlacementList_v2_t),
      (''nvmlVgpuTypeBar1Info_v1_t'', nvmlVgpuTypeBar1Info_v1_t),
      (''nvmlVgpuInstanceUtilizationSample_t'', nvmlVgpuInstanceUtilizationSample_t),
      (''nvmlVgpuInstanceUtilizationInfo_v1_t'', nvmlVgpuInstanceUtilizationInfo_v1_t),
      (''nvmlVgpuInstancesUtilizationInfo_v1_t'', nvmlVgpuInstancesUtilizationInfo_v1_t),
      (''nvmlVgpuProcessUtilizationSample_t'', nvmlVgpuProcessUtilizationSample_t),
      (''nvmlVgpuProcessUtilizationInfo_v1_t'', nvmlVgpuProcessUtilizationInfo_v1_t),
      (''nvmlVgpuProcessesUtilizationInfo_v1_t'', nvmlVgpuProcessesUtilizationInfo_v1_t),
      (''nvmlVgpuRuntimeState_v1_t'', nvmlVgpuRuntimeState_v1_t),
      (''nvmlVgpuSchedulerParams_t'', nvmlVgpuSchedulerParams_t),
      (''nvmlVgpuSchedulerLogEntry_t'', nvmlVgpuSchedulerLogEntry_t),
      (''nvmlVgpuSchedulerLog_t'', nvmlVgpuSchedulerLog_t),
      (''nvmlVgpuSchedulerGetState_t'', nvmlVgpuSchedulerGetState_t),
      (''nvmlVgpuSchedulerSetParams_t'', nvmlVgpuSchedulerSetParams_t),
      (''nvmlVgpuSchedulerSetState_t'', nvmlVgpuSchedulerSetState_t),
      (''nvmlVgpuSchedulerCapabilities_t'', nvmlVgpuSchedulerCapabilities_t),
      (''nvmlVgpuLicenseExpiry_t'', nvmlVgpuLicenseExpiry_t),
      (''nvmlVgpuLicenseInfo_t'', nvmlVgpuLicenseInfo_t),
      (''nvmlGridLicenseExpiry_t'', nvmlGridLicenseExpiry_t),
      (''nvmlGridLicensableFeature_t'', nvmlGridLicensableFeature_t),
      (''nvmlGridLicensableFeatures_t'', nvmlGridLicensableFeatures_t),
      (''nvmlVgpuTypeIdInfo_v1_t'', nvmlVgpuTypeIdInfo_v1_t),
      (''nvmlVgpuTypeMaxInstance_v1_t'', nvmlVgpuTypeMaxInstance_v1_t),
      (''nvmlActiveVgpuInstanceInfo_v1_t'', nvmlActiveVgpuInstanceInfo_v1_t),
      (''nvmlVgpuSchedulerState_v1_t'', nvmlVgpuSchedulerState_v1_t),
      (''nvmlVgpuSchedulerStateInfo_v1_t'', nvmlVgpuSchedulerStateInfo_v1_t),
      (''nvmlVgpuSchedulerLogInfo_v1_t'', nvmlVgpuSchedulerLogInfo_v1_t),
      (''nvmlVgpuCreatablePlacementInfo_v1_t'', nvmlVgpuCreatablePlacementInfo_v1_t),
      (''nvmlNvLinkPowerThres_t'', nvmlNvLinkPowerThres_t), (''nvmlFieldValue_t'', nvmlFieldValue_t),
      (''nvmlHwbcEntry_t'', nvmlHwbcEntry_t), (''nvmlLedState_t'', nvmlLedState_t),
      (''nvmlUnitInfo_t'', nvmlUnitInfo_t), (''nvmlPSUInfo_t'', nvmlPSUInfo_t),
      (''nvmlUnitFanInfo_t'', nvmlUnitFanInfo_t), (''nvmlUnitFanSpeeds_t'', nvmlUnitFanSpeeds_t),
      (''nvmlEventData_t'', nvmlEventData_t),
      (''nvmlSystemEventSetCreateRequest_v1_t'', nvmlSystemEventSetCreateRequest_v1_t),
      (''nvmlSystemEventSetFreeRequest_v1_t'', nvmlSystemEventSetFreeRequest_v1_t),
      (''nvmlSystemRegisterEventRequest_v1_t'', nvmlSystemRegisterEventRequest_v1_t),
      (''nvmlSystemEventData_v1_t'', nvmlSystemEventData_v1_t),
      (''nvmlSystemEventSetWaitRequest_v1_t'', nvmlSystemEventSetWaitRequest_v1_t),
      (''nvmlAccountingStats_t'', nvmlAccountingStats_t),
      (''nvmlEncoderSessionInfo_t'', nvmlEncoderSessionInfo_t), (''nvmlFBCStats_t'', nvmlFBCStats_t),
      (''nvmlFBCSessionInfo_t'', nvmlFBCSessionInfo_t),
      (''nvmlConfComputeSystemCaps_t'', nvmlConfComputeSystemCaps_t),
      (''nvmlConfComputeSystemState_t'', nvmlConfComputeSystemState_t),
      (''nvmlSystemConfComputeSettings_v1_t'', nvmlSystemConfComputeSettings_v1_t),
      (''nvmlConfComputeMemSizeInfo_t'', nvmlConfComputeMemSizeInfo_t),
      (''nvmlConfComputeGpuCertificate_t'', nvmlConfComputeGpuCertificate_t),
      (''nvmlConfComputeGpuAttestationReport_t'', nvmlConfComputeGpuAttestationReport_t),
      (''nvmlConfComputeSetKeyRotationThresholdInfo_v1_t'', nvmlConfComputeSetKeyRotationThresholdInfo_v1_t),
      (''nvmlConfComputeGetKeyRotationThresholdInfo_v1_t'', nvmlConfComputeGetKeyRotationThresholdInfo_v1_t),
      (''nvmlGpuFabricInfo_t'', nvmlGpuFabricInfo_t), (''nvmlGpuFabricInfo_v2_t'', nvmlGpuFabricInfo_v2_t),
      (''nvmlGpuFabricInfo_v3_t'', nvmlGpuFabricInfo_v3_t),
      (''nvmlSystemDriverBranchInfo_v1_t'', nvmlSystemDriverBranchInfo_v1_t),
      (''nvmlTemperature_v1_t'', nvmlTemperature_v1_t),
      (''nvmlNvlinkSupportedBwModes_v1_t'', nvmlNvlinkSupportedBwModes_v1_t),
      (''nvmlNvlinkGetBwMode_v1_t'', nvmlNvlinkGetBwMode_v1_t),
      (''nvmlNvlinkSetBwMode_v1_t'', nvmlNvlinkSetBwMode_v1_t), (''nvmlNvLinkInfo_v1_t'', nvmlNvLinkInfo_v1_t),
      (''nvmlNvlinkFirmwareVersion_t'', nvmlNvlinkFirmwareVersion_t),
      (''nvmlNvlinkFirmwareInfo_t'', nvmlNvlinkFirmwareInfo_t), (''nvmlNvLinkInfo_v2_t'', nvmlNvLinkInfo_v2_t),
      (''nvmlVgpuVersion_t'', nvmlVgpuVersion_t), (''nvmlVgpuMetadata_t'', nvmlVgpuMetadata_t),
      (''nvmlVgpuPgpuMetadata_t'', nvmlVgpuPgpuMetadata_t),
      (''nvmlVgpuPgpuCompatibility_t'', nvmlVgpuPgpuCompatibility_t),
      (''nvmlExcludedDeviceInfo_t'', nvmlExcludedDeviceInfo_t), (''nvmlPRMTLV_v1_t'', nvmlPRMTLV_v1_t),
      (''nvmlPRMCounterInput_v1_t'', nvmlPRMCounterInput_v1_t),
      (''nvmlPRMCounterValue_v1_t'', nvmlPRMCounterValue_v1_t), (''nvmlPRMCounter_v1_t'', nvmlPRMCounter_v1_t),
      (''nvmlPRMCounterList_v1_t'', nvmlPRMCounterList_v1_t),
      (''nvmlGpuInstancePlacement_t'', nvmlGpuInstancePlacement_t),
      (''nvmlGpuInstanceProfileInfo_t'', nvmlGpuInstanceProfileInfo_t),
      (''nvmlGpuInstanceProfileInfo_v2_t'', nvmlGpuInstanceProfileInfo_v2_t),
      (''nvmlGpuInstanceProfileInfo_v3_t'', nvmlGpuInstanceProfileInfo_v3_t),
      (''nvmlGpuInstanceInfo_t'', nvmlGpuInstanceInfo_t),
      (''nvmlComputeInstancePlacement_t'', nvmlComputeInstancePlacement_t),
      (''nvmlComputeInstanceProfileInfo_t'', nvmlComputeInstanceProfileInfo_t),
      (''nvmlComputeInstanceProfileInfo_v2_t'', nvmlComputeInstanceProfileInfo_v2_t),
      (''nvmlComputeInstanceProfileInfo_v3_t'', nvmlComputeInstanceProfileInfo_v3_t),
      (''nvmlComputeInstanceInfo_t'', nvmlComputeInstanceInfo_t), (''nvmlGpmMetric_t'', nvmlGpmMetric_t),
      (''nvmlGpmMetricsGet_t'', nvmlGpmMetricsGet_t), (''nvmlGpmSupport_t'', nvmlGpmSupport_t),
      (''nvmlDeviceCapabilities_v1_t'', nvmlDeviceCapabilities_v1_t), (''nvmlMask255_t'', nvmlMask255_t),
      (''nvmlWorkloadPowerProfileInfo_v1_t'', nvmlWorkloadPowerProfileInfo_v1_t),
      (''nvmlWorkloadPowerProfileProfilesInfo_v1_t'', nvmlWorkloadPowerProfileProfilesInfo_v1_t),
      (''nvmlWorkloadPowerProfileCurrentProfiles_v1_t'', nvmlWorkloadPowerProfileCurrentProfiles_v1_t),
      (''nvmlWorkloadPowerProfileRequestedProfiles_v1_t'', nvmlWorkloadPowerProfileRequestedProfiles_v1_t),
      (''nvmlPowerSmoothingProfile_v1_t'', nvmlPowerSmoothingProfile_v1_t),
      (''nvmlPowerSmoothingState_v1_t'', nvmlPowerSmoothingState_v1_t)]"

lemmas nvml_struct_defs =
  nvmlPciInfoExt_v1_t_def nvmlPciInfo_t_abi_def nvmlEccErrorCounts_t_def nvmlUtilization_t_abi_def
  nvmlMemory_t_abi_def nvmlMemory_v2_t_def nvmlBAR1Memory_t_def nvmlProcessInfo_v1_t_def
  nvmlProcessInfo_v2_t_def nvmlProcessDetail_v1_t_def nvmlProcessDetailList_v1_t_def nvmlDeviceAttributes_t_def
  nvmlC2cModeInfo_v1_t_def nvmlDeviceAddressingMode_v1_t_def nvmlRepairStatus_v1_t_def
  nvmlRowRemapperHistogramValues_t_def nvmlNvLinkUtilizationControl_t_def nvmlBridgeChipInfo_t_def
  nvmlBridgeChipHierarchy_t_def nvmlValue_t_def nvmlSample_t_def nvmlViolationTime_t_def
  nvmlGpuThermalSettings_t_def nvmlCoolerInfo_v1_t_def nvmlUUIDValue_t_def nvmlUUID_v1_t_def nvmlPdi_v1_t_def
  nvmlDramEncryptionInfo_v1_t_def nvmlMarginTemperature_v1_t_def nvmlClkMonFaultInfo_t_def
  nvmlClkMonStatus_t_def nvmlClockOffset_v1_t_def nvmlFanSpeedInfo_v1_t_def nvmlDevicePerfModes_v1_t_def
  nvmlDeviceCurrentClockFreqs_v1_t_def nvmlDevicePowerMizerModes_v1_t_def nvmlProcessUtilizationSample_t_def
  nvmlProcessUtilizationInfo_v1_t_def nvmlProcessesUtilizationInfo_v1_t_def nvmlEccSramErrorStatus_v1_t_def
  nvmlPlatformInfo_v1_t_def nvmlPlatformInfo_v2_t_def nvmlHostname_v1_t_def
  nvmlEccSramUniqueUncorrectedErrorEntry_v1_t_def nvmlEccSramUniqueUncorrectedErrorCounts_v1_t_def
  nvmlGpuDynamicPstatesInfo_t_def nvmlPowerValue_v2_t_def nvmlVgpuHeterogeneousMode_v1_t_def
  nvmlVgpuPlacementId_v1_t_def nvmlVgpuPlacementList_v1_t_def nvmlVgpuPlacementList_v2_t_def
  nvmlVgpuTypeBar1Info_v1_t_def nvmlVgpuInstanceUtilizationSample_t_def nvmlVgpuInstanceUtilizationInfo_v1_t_def
  nvmlVgpuInstancesUtilizationInfo_v1_t_def nvmlVgpuProcessUtilizationSample_t_def
  nvmlVgpuProcessUtilizationInfo_v1_t_def nvmlVgpuProcessesUtilizationInfo_v1_t_def
  nvmlVgpuRuntimeState_v1_t_def nvmlVgpuSchedulerParams_t_def nvmlVgpuSchedulerLogEntry_t_def
  nvmlVgpuSchedulerLog_t_def nvmlVgpuSchedulerGetState_t_def nvmlVgpuSchedulerSetParams_t_def
  nvmlVgpuSchedulerSetState_t_def nvmlVgpuSchedulerCapabilities_t_def nvmlVgpuLicenseExpiry_t_def
  nvmlVgpuLicenseInfo_t_def nvmlGridLicenseExpiry_t_def nvmlGridLicensableFeature_t_def
  nvmlGridLicensableFeatures_t_def nvmlVgpuTypeIdInfo_v1_t_def nvmlVgpuTypeMaxInstance_v1_t_def
  nvmlActiveVgpuInstanceInfo_v1_t_def nvmlVgpuSchedulerState_v1_t_def nvmlVgpuSchedulerStateInfo_v1_t_def
  nvmlVgpuSchedulerLogInfo_v1_t_def nvmlVgpuCreatablePlacementInfo_v1_t_def nvmlNvLinkPowerThres_t_def
  nvmlFieldValue_t_def nvmlHwbcEntry_t_def nvmlLedState_t_def nvmlUnitInfo_t_def nvmlPSUInfo_t_def
  nvmlUnitFanInfo_t_def nvmlUnitFanSpeeds_t_def nvmlEventData_t_def nvmlSystemEventSetCreateRequest_v1_t_def
  nvmlSystemEventSetFreeRequest_v1_t_def nvmlSystemRegisterEventRequest_v1_t_def nvmlSystemEventData_v1_t_def
  nvmlSystemEventSetWaitRequest_v1_t_def nvmlAccountingStats_t_def nvmlEncoderSessionInfo_t_def
  nvmlFBCStats_t_def nvmlFBCSessionInfo_t_def nvmlConfComputeSystemCaps_t_def nvmlConfComputeSystemState_t_def
  nvmlSystemConfComputeSettings_v1_t_def nvmlConfComputeMemSizeInfo_t_def nvmlConfComputeGpuCertificate_t_def
  nvmlConfComputeGpuAttestationReport_t_def nvmlConfComputeSetKeyRotationThresholdInfo_v1_t_def
  nvmlConfComputeGetKeyRotationThresholdInfo_v1_t_def nvmlGpuFabricInfo_t_def nvmlGpuFabricInfo_v2_t_def
  nvmlGpuFabricInfo_v3_t_def nvmlSystemDriverBranchInfo_v1_t_def nvmlTemperature_v1_t_def
  nvmlNvlinkSupportedBwModes_v1_t_def nvmlNvlinkGetBwMode_v1_t_def nvmlNvlinkSetBwMode_v1_t_def
  nvmlNvLinkInfo_v1_t_def nvmlNvlinkFirmwareVersion_t_def nvmlNvlinkFirmwareInfo_t_def nvmlNvLinkInfo_v2_t_def
  nvmlVgpuVersion_t_def nvmlVgpuMetadata_t_def nvmlVgpuPgpuMetadata_t_def nvmlVgpuPgpuCompatibility_t_def
  nvmlExcludedDeviceInfo_t_def nvmlPRMTLV_v1_t_def nvmlPRMCounterInput_v1_t_def nvmlPRMCounterValue_v1_t_def
  nvmlPRMCounter_v1_t_def nvmlPRMCounterList_v1_t_def nvmlGpuInstancePlacement_t_def
  nvmlGpuInstanceProfileInfo_t_def nvmlGpuInstanceProfileInfo_v2_t_def nvmlGpuInstanceProfileInfo_v3_t_def
  nvmlGpuInstanceInfo_t_def nvmlComputeInstancePlacement_t_def nvmlComputeInstanceProfileInfo_t_def
  nvmlComputeInstanceProfileInfo_v2_t_def nvmlComputeInstanceProfileInfo_v3_t_def nvmlComputeInstanceInfo_t_def
  nvmlGpmMetric_t_def nvmlGpmMetricsGet_t_def nvmlGpmSupport_t_def nvmlDeviceCapabilities_v1_t_def
  nvmlMask255_t_def nvmlWorkloadPowerProfileInfo_v1_t_def nvmlWorkloadPowerProfileProfilesInfo_v1_t_def
  nvmlWorkloadPowerProfileCurrentProfiles_v1_t_def nvmlWorkloadPowerProfileRequestedProfiles_v1_t_def
  nvmlPowerSmoothingProfile_v1_t_def nvmlPowerSmoothingState_v1_t_def
section \<open>Layout of every structure\<close>

lemma nvml_structs_ok: "list_all (\<lambda>(_, t). c_ok t) nvml_structs"
  unfolding nvml_structs_def list.pred_inject prod.case
  by (simp add: nvml_struct_defs c_scalars)

lemma version_word:
  assumes "n < 2 ^ 24" "v < 2 ^ 8"
  shows "unat ((of_nat n OR push_bit 24 (of_nat v) :: u32) AND 0xFFFFFF) = n" "unat (drop_bit 24 (of_nat n OR push_bit 24 (of_nat v) :: u32)) = v"
proof -
  have n: "unat (of_nat n :: u32) = n" "unat (of_nat v :: u32) = v" using assms by (simp_all add: unat_of_nat take_bit_nat_eq_self)
  have m: "(0xFFFFFF :: u32) = mask 24" by (simp add: mask_eq_exp_minus_1)
  have "take_bit 24 (of_nat n OR push_bit 24 (of_nat v) :: u32) = take_bit 24 (of_nat n)"
    by (simp add: take_bit_push_bit)
  also have "unat \<dots> = n" using assms(1) by (simp add: unsigned_take_bit_eq n take_bit_nat_eq_self)
  finally show "unat ((of_nat n OR push_bit 24 (of_nat v) :: u32) AND 0xFFFFFF) = n" unfolding m take_bit_eq_mask .
  have "drop_bit 24 n = 0" using assms(1) by (simp add: drop_bit_eq_div)
  moreover have "take_bit 8 v = v" using assms(2) by (simp add: take_bit_nat_eq_self)
  ultimately show "unat (drop_bit 24 (of_nat n OR push_bit 24 (of_nat v) :: u32)) = v"
    by (simp add: unsigned_drop_bit_eq unsigned_or_eq n unsigned_push_bit_eq drop_bit_take_bit drop_bit_push_bit)
qed

lemma nvml_sizes: "list_all (\<lambda>(_, t, v). size_of t < 2 ^ 24 \<and> v < 2 ^ 8) nvml_struct_versions"
  unfolding nvml_struct_versions_def list.pred_inject prod.case
  by (simp add: nvml_struct_defs c_scalars pad_to_def)

section \<open>Properties\<close>



text \<open>
  A version word identifies the structure it was made for: the library can read the size
  back from the low 24 bits and the version from the high 8, for every version macro of the header.
\<close>

lemma nvml_version_words_decode:
  assumes "(name, t, v) \<in> set nvml_struct_versions"
  shows "unat (NVML_STRUCT_VERSION t v AND 0xFFFFFF) = size_of t \<and> unat (drop_bit 24 (NVML_STRUCT_VERSION t v)) = v"
proof -
  have "size_of t < 2 ^ 24" "v < 2 ^ 8" using nvml_sizes assms by (auto simp: list_all_iff)
  with version_word [of "size_of t" v] show ?thesis by (simp add: NVML_STRUCT_VERSION_def)
qed

lemma nvml_version_words_decode_example:
  "unat (NVML_STRUCT_VERSION nvmlMemory_v2_t 2 AND 0xFFFFFF) = 40"
proof -
  have "(''nvmlMemory_v2'', nvmlMemory_v2_t, 2) \<in> set nvml_struct_versions" by (simp add: nvml_struct_versions_def)
  from nvml_version_words_decode [OF this] show ?thesis by (simp add: nvmlMemory_v2_t_def c_scalars pad_to_def)
qed

text \<open>
  Where the library writes what \<^verbatim>\<open>NvmlCollector\<close> reads: the offsets of the members of the three
  structures the agent passes to it, which leave no padding, and their sizes.
\<close>

lemma nvml_agent_structs:
  "map (\<lambda>(f, off, t). (f, off, size_of t)) (members nvmlPciInfo_t_abi) =
     [(''busIdLegacy'', 0, 16), (''domain'', 16, 4), (''bus'', 20, 4), (''device'', 24, 4), (''pciDeviceId'', 28, 4),
      (''pciSubSystemId'', 32, 4), (''busId'', 36, 32)] \<and> size_of nvmlPciInfo_t_abi = 68 \<and>
   map (\<lambda>(f, off, t). (f, off, size_of t)) (members nvmlUtilization_t_abi) = [(''gpu'', 0, 4), (''memory'', 4, 4)] \<and>
   size_of nvmlUtilization_t_abi = 8 \<and>
   map (\<lambda>(f, off, t). (f, off, size_of t)) (members nvmlMemory_t_abi) = [(''total'', 0, 8), (''free'', 8, 8), (''used'', 16, 8)] \<and>
   size_of nvmlMemory_t_abi = 24"
  by (simp add: nvmlPciInfo_t_abi_def nvmlUtilization_t_abi_def nvmlMemory_t_abi_def c_scalars pad_to_def)

end
