(* ===== verification/Nvml_Enums.thy ===== *)
theory Nvml_Enums
  imports Nvml
begin

text \<open>
  The enumerations of the vendored header nvml.h, each as the list of its enumerators with their
  values.  Where the header gives no value it is one more than the one before, as in C.
\<close>

section \<open>Enumerations\<close>

definition nvmlDeviceAddressingModeType_t :: "(string \<times> int) list" where
  "nvmlDeviceAddressingModeType_t =
     [(''NVML_DEVICE_ADDRESSING_MODE_NONE'', 0), (''NVML_DEVICE_ADDRESSING_MODE_HMM'', 1),
      (''NVML_DEVICE_ADDRESSING_MODE_ATS'', 2)]"

definition nvmlBridgeChipType_t :: "(string \<times> int) list" where
  "nvmlBridgeChipType_t =
     [(''NVML_BRIDGE_CHIP_PLX'', 0), (''NVML_BRIDGE_CHIP_BRO4'', 1)]"

definition nvmlNvLinkUtilizationCountUnits_t :: "(string \<times> int) list" where
  "nvmlNvLinkUtilizationCountUnits_t =
     [(''NVML_NVLINK_COUNTER_UNIT_CYCLES'', 0), (''NVML_NVLINK_COUNTER_UNIT_PACKETS'', 1),
      (''NVML_NVLINK_COUNTER_UNIT_BYTES'', 2), (''NVML_NVLINK_COUNTER_UNIT_RESERVED'', 3),
      (''NVML_NVLINK_COUNTER_UNIT_COUNT'', 4)]"

definition nvmlNvLinkUtilizationCountPktTypes_t :: "(string \<times> int) list" where
  "nvmlNvLinkUtilizationCountPktTypes_t =
     [(''NVML_NVLINK_COUNTER_PKTFILTER_NOP'', 1), (''NVML_NVLINK_COUNTER_PKTFILTER_READ'', 2),
      (''NVML_NVLINK_COUNTER_PKTFILTER_WRITE'', 4), (''NVML_NVLINK_COUNTER_PKTFILTER_RATOM'', 8),
      (''NVML_NVLINK_COUNTER_PKTFILTER_NRATOM'', 16), (''NVML_NVLINK_COUNTER_PKTFILTER_FLUSH'', 32),
      (''NVML_NVLINK_COUNTER_PKTFILTER_RESPDATA'', 64), (''NVML_NVLINK_COUNTER_PKTFILTER_RESPNODATA'', 128),
      (''NVML_NVLINK_COUNTER_PKTFILTER_ALL'', 255)]"

definition nvmlNvLinkCapability_t :: "(string \<times> int) list" where
  "nvmlNvLinkCapability_t =
     [(''NVML_NVLINK_CAP_P2P_SUPPORTED'', 0), (''NVML_NVLINK_CAP_SYSMEM_ACCESS'', 1),
      (''NVML_NVLINK_CAP_P2P_ATOMICS'', 2), (''NVML_NVLINK_CAP_SYSMEM_ATOMICS'', 3),
      (''NVML_NVLINK_CAP_SLI_BRIDGE'', 4), (''NVML_NVLINK_CAP_VALID'', 5), (''NVML_NVLINK_CAP_COUNT'', 6)]"

definition nvmlNvLinkErrorCounter_t :: "(string \<times> int) list" where
  "nvmlNvLinkErrorCounter_t =
     [(''NVML_NVLINK_ERROR_DL_REPLAY'', 0), (''NVML_NVLINK_ERROR_DL_RECOVERY'', 1),
      (''NVML_NVLINK_ERROR_DL_CRC_FLIT'', 2), (''NVML_NVLINK_ERROR_DL_CRC_DATA'', 3),
      (''NVML_NVLINK_ERROR_DL_ECC_DATA'', 4), (''NVML_NVLINK_ERROR_COUNT'', 5)]"

definition nvmlIntNvLinkDeviceType_t :: "(string \<times> int) list" where
  "nvmlIntNvLinkDeviceType_t =
     [(''NVML_NVLINK_DEVICE_TYPE_GPU'', 0), (''NVML_NVLINK_DEVICE_TYPE_IBMNPU'', 1),
      (''NVML_NVLINK_DEVICE_TYPE_SWITCH'', 2), (''NVML_NVLINK_DEVICE_TYPE_UNKNOWN'', 255)]"

definition nvmlGpuTopologyLevel_t :: "(string \<times> int) list" where
  "nvmlGpuTopologyLevel_t =
     [(''NVML_TOPOLOGY_INTERNAL'', 0), (''NVML_TOPOLOGY_SINGLE'', 10), (''NVML_TOPOLOGY_MULTIPLE'', 20),
      (''NVML_TOPOLOGY_HOSTBRIDGE'', 30), (''NVML_TOPOLOGY_NODE'', 40), (''NVML_TOPOLOGY_SYSTEM'', 50)]"

definition nvmlGpuP2PStatus_t :: "(string \<times> int) list" where
  "nvmlGpuP2PStatus_t =
     [(''NVML_P2P_STATUS_OK'', 0), (''NVML_P2P_STATUS_CHIPSET_NOT_SUPPORED'', 1),
      (''NVML_P2P_STATUS_CHIPSET_NOT_SUPPORTED'', 1), (''NVML_P2P_STATUS_GPU_NOT_SUPPORTED'', 2),
      (''NVML_P2P_STATUS_IOH_TOPOLOGY_NOT_SUPPORTED'', 3), (''NVML_P2P_STATUS_DISABLED_BY_REGKEY'', 4),
      (''NVML_P2P_STATUS_NOT_SUPPORTED'', 5), (''NVML_P2P_STATUS_UNKNOWN'', 6)]"

definition nvmlGpuP2PCapsIndex_t :: "(string \<times> int) list" where
  "nvmlGpuP2PCapsIndex_t =
     [(''NVML_P2P_CAPS_INDEX_READ'', 0), (''NVML_P2P_CAPS_INDEX_WRITE'', 1),
      (''NVML_P2P_CAPS_INDEX_NVLINK'', 2), (''NVML_P2P_CAPS_INDEX_ATOMICS'', 3),
      (''NVML_P2P_CAPS_INDEX_PCI'', 4), (''NVML_P2P_CAPS_INDEX_PROP'', 4), (''NVML_P2P_CAPS_INDEX_UNKNOWN'', 5)]"

definition nvmlSamplingType_t :: "(string \<times> int) list" where
  "nvmlSamplingType_t =
     [(''NVML_TOTAL_POWER_SAMPLES'', 0), (''NVML_GPU_UTILIZATION_SAMPLES'', 1),
      (''NVML_MEMORY_UTILIZATION_SAMPLES'', 2), (''NVML_ENC_UTILIZATION_SAMPLES'', 3),
      (''NVML_DEC_UTILIZATION_SAMPLES'', 4), (''NVML_PROCESSOR_CLK_SAMPLES'', 5),
      (''NVML_MEMORY_CLK_SAMPLES'', 6), (''NVML_MODULE_POWER_SAMPLES'', 7),
      (''NVML_JPG_UTILIZATION_SAMPLES'', 8), (''NVML_OFA_UTILIZATION_SAMPLES'', 9),
      (''NVML_SAMPLINGTYPE_COUNT'', 10)]"

definition nvmlPcieUtilCounter_t :: "(string \<times> int) list" where
  "nvmlPcieUtilCounter_t =
     [(''NVML_PCIE_UTIL_TX_BYTES'', 0), (''NVML_PCIE_UTIL_RX_BYTES'', 1), (''NVML_PCIE_UTIL_COUNT'', 2)]"

definition nvmlValueType_t :: "(string \<times> int) list" where
  "nvmlValueType_t =
     [(''NVML_VALUE_TYPE_DOUBLE'', 0), (''NVML_VALUE_TYPE_UNSIGNED_INT'', 1),
      (''NVML_VALUE_TYPE_UNSIGNED_LONG'', 2), (''NVML_VALUE_TYPE_UNSIGNED_LONG_LONG'', 3),
      (''NVML_VALUE_TYPE_SIGNED_LONG_LONG'', 4), (''NVML_VALUE_TYPE_SIGNED_INT'', 5),
      (''NVML_VALUE_TYPE_UNSIGNED_SHORT'', 6), (''NVML_VALUE_TYPE_COUNT'', 7)]"

definition nvmlPerfPolicyType_t :: "(string \<times> int) list" where
  "nvmlPerfPolicyType_t =
     [(''NVML_PERF_POLICY_POWER'', 0), (''NVML_PERF_POLICY_THERMAL'', 1), (''NVML_PERF_POLICY_SYNC_BOOST'', 2),
      (''NVML_PERF_POLICY_BOARD_LIMIT'', 3), (''NVML_PERF_POLICY_LOW_UTILIZATION'', 4),
      (''NVML_PERF_POLICY_RELIABILITY'', 5), (''NVML_PERF_POLICY_TOTAL_APP_CLOCKS'', 10),
      (''NVML_PERF_POLICY_TOTAL_BASE_CLOCKS'', 11), (''NVML_PERF_POLICY_COUNT'', 12)]"

definition nvmlThermalTarget_t :: "(string \<times> int) list" where
  "nvmlThermalTarget_t =
     [(''NVML_THERMAL_TARGET_NONE'', 0), (''NVML_THERMAL_TARGET_GPU'', 1), (''NVML_THERMAL_TARGET_MEMORY'', 2),
      (''NVML_THERMAL_TARGET_POWER_SUPPLY'', 4), (''NVML_THERMAL_TARGET_BOARD'', 8),
      (''NVML_THERMAL_TARGET_VCD_BOARD'', 9), (''NVML_THERMAL_TARGET_VCD_INLET'', 10),
      (''NVML_THERMAL_TARGET_VCD_OUTLET'', 11), (''NVML_THERMAL_TARGET_ALL'', 15),
      (''NVML_THERMAL_TARGET_UNKNOWN'', - 1)]"

definition nvmlThermalController_t :: "(string \<times> int) list" where
  "nvmlThermalController_t =
     [(''NVML_THERMAL_CONTROLLER_NONE'', 0), (''NVML_THERMAL_CONTROLLER_GPU_INTERNAL'', 1),
      (''NVML_THERMAL_CONTROLLER_ADM1032'', 2), (''NVML_THERMAL_CONTROLLER_ADT7461'', 3),
      (''NVML_THERMAL_CONTROLLER_MAX6649'', 4), (''NVML_THERMAL_CONTROLLER_MAX1617'', 5),
      (''NVML_THERMAL_CONTROLLER_LM99'', 6), (''NVML_THERMAL_CONTROLLER_LM89'', 7),
      (''NVML_THERMAL_CONTROLLER_LM64'', 8), (''NVML_THERMAL_CONTROLLER_G781'', 9),
      (''NVML_THERMAL_CONTROLLER_ADT7473'', 10), (''NVML_THERMAL_CONTROLLER_SBMAX6649'', 11),
      (''NVML_THERMAL_CONTROLLER_VBIOSEVT'', 12), (''NVML_THERMAL_CONTROLLER_OS'', 13),
      (''NVML_THERMAL_CONTROLLER_NVSYSCON_CANOAS'', 14), (''NVML_THERMAL_CONTROLLER_NVSYSCON_E551'', 15),
      (''NVML_THERMAL_CONTROLLER_MAX6649R'', 16), (''NVML_THERMAL_CONTROLLER_ADT7473S'', 17),
      (''NVML_THERMAL_CONTROLLER_UNKNOWN'', - 1)]"

definition nvmlCoolerControl_t :: "(string \<times> int) list" where
  "nvmlCoolerControl_t =
     [(''NVML_THERMAL_COOLER_SIGNAL_NONE'', 0), (''NVML_THERMAL_COOLER_SIGNAL_TOGGLE'', 1),
      (''NVML_THERMAL_COOLER_SIGNAL_VARIABLE'', 2), (''NVML_THERMAL_COOLER_SIGNAL_COUNT'', 3)]"

definition nvmlCoolerTarget_t :: "(string \<times> int) list" where
  "nvmlCoolerTarget_t =
     [(''NVML_THERMAL_COOLER_TARGET_NONE'', 1), (''NVML_THERMAL_COOLER_TARGET_GPU'', 2),
      (''NVML_THERMAL_COOLER_TARGET_MEMORY'', 4), (''NVML_THERMAL_COOLER_TARGET_POWER_SUPPLY'', 8),
      (''NVML_THERMAL_COOLER_TARGET_GPU_RELATED'', 14)]"

definition nvmlUUIDType_t :: "(string \<times> int) list" where
  "nvmlUUIDType_t =
     [(''NVML_UUID_TYPE_NONE'', 0), (''NVML_UUID_TYPE_ASCII'', 1), (''NVML_UUID_TYPE_BINARY'', 2)]"

definition nvmlEnableState_t :: "(string \<times> int) list" where
  "nvmlEnableState_t =
     [(''NVML_FEATURE_DISABLED'', 0), (''NVML_FEATURE_ENABLED'', 1)]"

definition nvmlBrandType_t :: "(string \<times> int) list" where
  "nvmlBrandType_t =
     [(''NVML_BRAND_UNKNOWN'', 0), (''NVML_BRAND_QUADRO'', 1), (''NVML_BRAND_TESLA'', 2),
      (''NVML_BRAND_NVS'', 3), (''NVML_BRAND_GRID'', 4), (''NVML_BRAND_GEFORCE'', 5),
      (''NVML_BRAND_TITAN'', 6), (''NVML_BRAND_NVIDIA_VAPPS'', 7), (''NVML_BRAND_NVIDIA_VPC'', 8),
      (''NVML_BRAND_NVIDIA_VCS'', 9), (''NVML_BRAND_NVIDIA_VWS'', 10),
      (''NVML_BRAND_NVIDIA_CLOUD_GAMING'', 11), (''NVML_BRAND_NVIDIA_VGAMING'', 11),
      (''NVML_BRAND_QUADRO_RTX'', 12), (''NVML_BRAND_NVIDIA_RTX'', 13), (''NVML_BRAND_NVIDIA'', 14),
      (''NVML_BRAND_GEFORCE_RTX'', 15), (''NVML_BRAND_TITAN_RTX'', 16), (''NVML_BRAND_COUNT'', 18)]"

definition nvmlTemperatureThresholds_t :: "(string \<times> int) list" where
  "nvmlTemperatureThresholds_t =
     [(''NVML_TEMPERATURE_THRESHOLD_SHUTDOWN'', 0), (''NVML_TEMPERATURE_THRESHOLD_SLOWDOWN'', 1),
      (''NVML_TEMPERATURE_THRESHOLD_MEM_MAX'', 2), (''NVML_TEMPERATURE_THRESHOLD_GPU_MAX'', 3),
      (''NVML_TEMPERATURE_THRESHOLD_ACOUSTIC_MIN'', 4), (''NVML_TEMPERATURE_THRESHOLD_ACOUSTIC_CURR'', 5),
      (''NVML_TEMPERATURE_THRESHOLD_ACOUSTIC_MAX'', 6), (''NVML_TEMPERATURE_THRESHOLD_GPS_CURR'', 7),
      (''NVML_TEMPERATURE_THRESHOLD_COUNT'', 8)]"

definition nvmlTemperatureSensors_t_abi :: "(string \<times> int) list" where
  "nvmlTemperatureSensors_t_abi =
     [(''NVML_TEMPERATURE_GPU'', 0), (''NVML_TEMPERATURE_COUNT'', 1)]"

definition nvmlComputeMode_t :: "(string \<times> int) list" where
  "nvmlComputeMode_t =
     [(''NVML_COMPUTEMODE_DEFAULT'', 0), (''NVML_COMPUTEMODE_EXCLUSIVE_THREAD'', 1),
      (''NVML_COMPUTEMODE_PROHIBITED'', 2), (''NVML_COMPUTEMODE_EXCLUSIVE_PROCESS'', 3),
      (''NVML_COMPUTEMODE_COUNT'', 4)]"

definition nvmlMemoryErrorType_t :: "(string \<times> int) list" where
  "nvmlMemoryErrorType_t =
     [(''NVML_MEMORY_ERROR_TYPE_CORRECTED'', 0), (''NVML_MEMORY_ERROR_TYPE_UNCORRECTED'', 1),
      (''NVML_MEMORY_ERROR_TYPE_COUNT'', 2)]"

definition nvmlNvlinkVersion_t :: "(string \<times> int) list" where
  "nvmlNvlinkVersion_t =
     [(''NVML_NVLINK_VERSION_INVALID'', 0), (''NVML_NVLINK_VERSION_1_0'', 1), (''NVML_NVLINK_VERSION_2_0'', 2),
      (''NVML_NVLINK_VERSION_2_2'', 3), (''NVML_NVLINK_VERSION_3_0'', 4), (''NVML_NVLINK_VERSION_3_1'', 5),
      (''NVML_NVLINK_VERSION_4_0'', 6), (''NVML_NVLINK_VERSION_5_0'', 7)]"

definition nvmlEccCounterType_t :: "(string \<times> int) list" where
  "nvmlEccCounterType_t =
     [(''NVML_VOLATILE_ECC'', 0), (''NVML_AGGREGATE_ECC'', 1), (''NVML_ECC_COUNTER_TYPE_COUNT'', 2)]"

definition nvmlClockType_t :: "(string \<times> int) list" where
  "nvmlClockType_t =
     [(''NVML_CLOCK_GRAPHICS'', 0), (''NVML_CLOCK_SM'', 1), (''NVML_CLOCK_MEM'', 2), (''NVML_CLOCK_VIDEO'', 3),
      (''NVML_CLOCK_COUNT'', 4)]"

definition nvmlClockId_t :: "(string \<times> int) list" where
  "nvmlClockId_t =
     [(''NVML_CLOCK_ID_CURRENT'', 0), (''NVML_CLOCK_ID_APP_CLOCK_TARGET'', 1),
      (''NVML_CLOCK_ID_APP_CLOCK_DEFAULT'', 2), (''NVML_CLOCK_ID_CUSTOMER_BOOST_MAX'', 3),
      (''NVML_CLOCK_ID_COUNT'', 4)]"

definition nvmlDriverModel_t :: "(string \<times> int) list" where
  "nvmlDriverModel_t =
     [(''NVML_DRIVER_WDDM'', 0), (''NVML_DRIVER_WDM'', 1), (''NVML_DRIVER_MCDM'', 2)]"

definition nvmlPstates_t :: "(string \<times> int) list" where
  "nvmlPstates_t =
     [(''NVML_PSTATE_0'', 0), (''NVML_PSTATE_1'', 1), (''NVML_PSTATE_2'', 2), (''NVML_PSTATE_3'', 3),
      (''NVML_PSTATE_4'', 4), (''NVML_PSTATE_5'', 5), (''NVML_PSTATE_6'', 6), (''NVML_PSTATE_7'', 7),
      (''NVML_PSTATE_8'', 8), (''NVML_PSTATE_9'', 9), (''NVML_PSTATE_10'', 10), (''NVML_PSTATE_11'', 11),
      (''NVML_PSTATE_12'', 12), (''NVML_PSTATE_13'', 13), (''NVML_PSTATE_14'', 14), (''NVML_PSTATE_15'', 15),
      (''NVML_PSTATE_UNKNOWN'', 32)]"

definition nvmlGpuOperationMode_t :: "(string \<times> int) list" where
  "nvmlGpuOperationMode_t =
     [(''NVML_GOM_ALL_ON'', 0), (''NVML_GOM_COMPUTE'', 1), (''NVML_GOM_LOW_DP'', 2)]"

definition nvmlInforomObject_t :: "(string \<times> int) list" where
  "nvmlInforomObject_t =
     [(''NVML_INFOROM_OEM'', 0), (''NVML_INFOROM_ECC'', 1), (''NVML_INFOROM_POWER'', 2),
      (''NVML_INFOROM_DEN'', 3), (''NVML_INFOROM_COUNT'', 4)]"

definition nvmlReturn_t_abi :: "(string \<times> int) list" where
  "nvmlReturn_t_abi =
     [(''NVML_SUCCESS'', 0), (''NVML_ERROR_UNINITIALIZED'', 1), (''NVML_ERROR_INVALID_ARGUMENT'', 2),
      (''NVML_ERROR_NOT_SUPPORTED'', 3), (''NVML_ERROR_NO_PERMISSION'', 4),
      (''NVML_ERROR_ALREADY_INITIALIZED'', 5), (''NVML_ERROR_NOT_FOUND'', 6),
      (''NVML_ERROR_INSUFFICIENT_SIZE'', 7), (''NVML_ERROR_INSUFFICIENT_POWER'', 8),
      (''NVML_ERROR_DRIVER_NOT_LOADED'', 9), (''NVML_ERROR_TIMEOUT'', 10), (''NVML_ERROR_IRQ_ISSUE'', 11),
      (''NVML_ERROR_LIBRARY_NOT_FOUND'', 12), (''NVML_ERROR_FUNCTION_NOT_FOUND'', 13),
      (''NVML_ERROR_CORRUPTED_INFOROM'', 14), (''NVML_ERROR_GPU_IS_LOST'', 15),
      (''NVML_ERROR_RESET_REQUIRED'', 16), (''NVML_ERROR_OPERATING_SYSTEM'', 17),
      (''NVML_ERROR_LIB_RM_VERSION_MISMATCH'', 18), (''NVML_ERROR_IN_USE'', 19), (''NVML_ERROR_MEMORY'', 20),
      (''NVML_ERROR_NO_DATA'', 21), (''NVML_ERROR_VGPU_ECC_NOT_SUPPORTED'', 22),
      (''NVML_ERROR_INSUFFICIENT_RESOURCES'', 23), (''NVML_ERROR_FREQ_NOT_SUPPORTED'', 24),
      (''NVML_ERROR_ARGUMENT_VERSION_MISMATCH'', 25), (''NVML_ERROR_DEPRECATED'', 26),
      (''NVML_ERROR_NOT_READY'', 27), (''NVML_ERROR_GPU_NOT_FOUND'', 28), (''NVML_ERROR_INVALID_STATE'', 29),
      (''NVML_ERROR_RESET_TYPE_NOT_SUPPORTED'', 30), (''NVML_ERROR_UNKNOWN'', 999)]"

definition nvmlMemoryLocation_t :: "(string \<times> int) list" where
  "nvmlMemoryLocation_t =
     [(''NVML_MEMORY_LOCATION_L1_CACHE'', 0), (''NVML_MEMORY_LOCATION_L2_CACHE'', 1),
      (''NVML_MEMORY_LOCATION_DRAM'', 2), (''NVML_MEMORY_LOCATION_DEVICE_MEMORY'', 2),
      (''NVML_MEMORY_LOCATION_REGISTER_FILE'', 3), (''NVML_MEMORY_LOCATION_TEXTURE_MEMORY'', 4),
      (''NVML_MEMORY_LOCATION_TEXTURE_SHM'', 5), (''NVML_MEMORY_LOCATION_CBU'', 6),
      (''NVML_MEMORY_LOCATION_SRAM'', 7), (''NVML_MEMORY_LOCATION_COUNT'', 8)]"

definition nvmlPageRetirementCause_t :: "(string \<times> int) list" where
  "nvmlPageRetirementCause_t =
     [(''NVML_PAGE_RETIREMENT_CAUSE_MULTIPLE_SINGLE_BIT_ECC_ERRORS'', 0),
      (''NVML_PAGE_RETIREMENT_CAUSE_DOUBLE_BIT_ECC_ERROR'', 1), (''NVML_PAGE_RETIREMENT_CAUSE_COUNT'', 2)]"

definition nvmlRestrictedAPI_t :: "(string \<times> int) list" where
  "nvmlRestrictedAPI_t =
     [(''NVML_RESTRICTED_API_SET_APPLICATION_CLOCKS'', 0),
      (''NVML_RESTRICTED_API_SET_AUTO_BOOSTED_CLOCKS'', 1), (''NVML_RESTRICTED_API_COUNT'', 2)]"

definition nvmlGpuUtilizationDomainId_t :: "(string \<times> int) list" where
  "nvmlGpuUtilizationDomainId_t =
     [(''NVML_GPU_UTILIZATION_DOMAIN_GPU'', 0), (''NVML_GPU_UTILIZATION_DOMAIN_FB'', 1),
      (''NVML_GPU_UTILIZATION_DOMAIN_VID'', 2), (''NVML_GPU_UTILIZATION_DOMAIN_BUS'', 3)]"

definition nvmlGpuVirtualizationMode_t :: "(string \<times> int) list" where
  "nvmlGpuVirtualizationMode_t =
     [(''NVML_GPU_VIRTUALIZATION_MODE_NONE'', 0), (''NVML_GPU_VIRTUALIZATION_MODE_PASSTHROUGH'', 1),
      (''NVML_GPU_VIRTUALIZATION_MODE_VGPU'', 2), (''NVML_GPU_VIRTUALIZATION_MODE_HOST_VGPU'', 3),
      (''NVML_GPU_VIRTUALIZATION_MODE_HOST_VSGA'', 4)]"

definition nvmlHostVgpuMode_t :: "(string \<times> int) list" where
  "nvmlHostVgpuMode_t =
     [(''NVML_HOST_VGPU_MODE_NON_SRIOV'', 0), (''NVML_HOST_VGPU_MODE_SRIOV'', 1)]"

definition nvmlVgpuVmIdType_t :: "(string \<times> int) list" where
  "nvmlVgpuVmIdType_t =
     [(''NVML_VGPU_VM_ID_DOMAIN_ID'', 0), (''NVML_VGPU_VM_ID_UUID'', 1)]"

definition nvmlVgpuGuestInfoState_t :: "(string \<times> int) list" where
  "nvmlVgpuGuestInfoState_t =
     [(''NVML_VGPU_INSTANCE_GUEST_INFO_STATE_UNINITIALIZED'', 0),
      (''NVML_VGPU_INSTANCE_GUEST_INFO_STATE_INITIALIZED'', 1)]"

definition nvmlGridLicenseFeatureCode_t :: "(string \<times> int) list" where
  "nvmlGridLicenseFeatureCode_t =
     [(''NVML_GRID_LICENSE_FEATURE_CODE_UNKNOWN'', 0), (''NVML_GRID_LICENSE_FEATURE_CODE_VGPU'', 1),
      (''NVML_GRID_LICENSE_FEATURE_CODE_NVIDIA_RTX'', 2), (''NVML_GRID_LICENSE_FEATURE_CODE_VWORKSTATION'', 2),
      (''NVML_GRID_LICENSE_FEATURE_CODE_GAMING'', 3), (''NVML_GRID_LICENSE_FEATURE_CODE_COMPUTE'', 4)]"

definition nvmlVgpuCapability_t :: "(string \<times> int) list" where
  "nvmlVgpuCapability_t =
     [(''NVML_VGPU_CAP_NVLINK_P2P'', 0), (''NVML_VGPU_CAP_GPUDIRECT'', 1),
      (''NVML_VGPU_CAP_MULTI_VGPU_EXCLUSIVE'', 2), (''NVML_VGPU_CAP_EXCLUSIVE_TYPE'', 3),
      (''NVML_VGPU_CAP_EXCLUSIVE_SIZE'', 4), (''NVML_VGPU_CAP_COUNT'', 5)]"

definition nvmlVgpuDriverCapability_t :: "(string \<times> int) list" where
  "nvmlVgpuDriverCapability_t =
     [(''NVML_VGPU_DRIVER_CAP_HETEROGENEOUS_MULTI_VGPU'', 0), (''NVML_VGPU_DRIVER_CAP_WARM_UPDATE'', 1),
      (''NVML_VGPU_DRIVER_CAP_COUNT'', 2)]"

definition nvmlDeviceVgpuCapability_t :: "(string \<times> int) list" where
  "nvmlDeviceVgpuCapability_t =
     [(''NVML_DEVICE_VGPU_CAP_FRACTIONAL_MULTI_VGPU'', 0),
      (''NVML_DEVICE_VGPU_CAP_HETEROGENEOUS_TIMESLICE_PROFILES'', 1),
      (''NVML_DEVICE_VGPU_CAP_HETEROGENEOUS_TIMESLICE_SIZES'', 2),
      (''NVML_DEVICE_VGPU_CAP_READ_DEVICE_BUFFER_BW'', 3),
      (''NVML_DEVICE_VGPU_CAP_WRITE_DEVICE_BUFFER_BW'', 4), (''NVML_DEVICE_VGPU_CAP_DEVICE_STREAMING'', 5),
      (''NVML_DEVICE_VGPU_CAP_MINI_QUARTER_GPU'', 6), (''NVML_DEVICE_VGPU_CAP_COMPUTE_MEDIA_ENGINE_GPU'', 7),
      (''NVML_DEVICE_VGPU_CAP_WARM_UPDATE'', 8), (''NVML_DEVICE_VGPU_CAP_HOMOGENEOUS_PLACEMENTS'', 9),
      (''NVML_DEVICE_VGPU_CAP_MIG_TIMESLICING_SUPPORTED'', 10),
      (''NVML_DEVICE_VGPU_CAP_MIG_TIMESLICING_ENABLED'', 11), (''NVML_DEVICE_VGPU_CAP_COUNT'', 12)]"

definition nvmlDeviceGpuRecoveryAction_t :: "(string \<times> int) list" where
  "nvmlDeviceGpuRecoveryAction_t =
     [(''NVML_GPU_RECOVERY_ACTION_NONE'', 0), (''NVML_GPU_RECOVERY_ACTION_GPU_RESET'', 1),
      (''NVML_GPU_RECOVERY_ACTION_NODE_REBOOT'', 2), (''NVML_GPU_RECOVERY_ACTION_DRAIN_P2P'', 3),
      (''NVML_GPU_RECOVERY_ACTION_DRAIN_AND_RESET'', 4)]"

definition nvmlFanState_t :: "(string \<times> int) list" where
  "nvmlFanState_t =
     [(''NVML_FAN_NORMAL'', 0), (''NVML_FAN_FAILED'', 1)]"

definition nvmlLedColor_t :: "(string \<times> int) list" where
  "nvmlLedColor_t =
     [(''NVML_LED_COLOR_GREEN'', 0), (''NVML_LED_COLOR_AMBER'', 1)]"

definition nvmlEncoderType_t :: "(string \<times> int) list" where
  "nvmlEncoderType_t =
     [(''NVML_ENCODER_QUERY_H264'', 0), (''NVML_ENCODER_QUERY_HEVC'', 1), (''NVML_ENCODER_QUERY_AV1'', 2),
      (''NVML_ENCODER_QUERY_UNKNOWN'', 255)]"

definition nvmlFBCSessionType_t :: "(string \<times> int) list" where
  "nvmlFBCSessionType_t =
     [(''NVML_FBC_SESSION_TYPE_UNKNOWN'', 0), (''NVML_FBC_SESSION_TYPE_TOSYS'', 1),
      (''NVML_FBC_SESSION_TYPE_CUDA'', 2), (''NVML_FBC_SESSION_TYPE_VID'', 3),
      (''NVML_FBC_SESSION_TYPE_HWENC'', 4)]"

definition nvmlDetachGpuState_t :: "(string \<times> int) list" where
  "nvmlDetachGpuState_t =
     [(''NVML_DETACH_GPU_KEEP'', 0), (''NVML_DETACH_GPU_REMOVE'', 1)]"

definition nvmlPcieLinkState_t :: "(string \<times> int) list" where
  "nvmlPcieLinkState_t =
     [(''NVML_PCIE_LINK_KEEP'', 0), (''NVML_PCIE_LINK_SHUT_DOWN'', 1)]"

definition nvmlClockLimitId_t :: "(string \<times> int) list" where
  "nvmlClockLimitId_t =
     [(''NVML_CLOCK_LIMIT_ID_RANGE_START'', 4294967040), (''NVML_CLOCK_LIMIT_ID_TDP'', 4294967041),
      (''NVML_CLOCK_LIMIT_ID_UNLIMITED'', 4294967042)]"

definition nvmlVgpuVmCompatibility_t :: "(string \<times> int) list" where
  "nvmlVgpuVmCompatibility_t =
     [(''NVML_VGPU_VM_COMPATIBILITY_NONE'', 0), (''NVML_VGPU_VM_COMPATIBILITY_COLD'', 1),
      (''NVML_VGPU_VM_COMPATIBILITY_HIBERNATE'', 2), (''NVML_VGPU_VM_COMPATIBILITY_SLEEP'', 4),
      (''NVML_VGPU_VM_COMPATIBILITY_LIVE'', 8)]"

definition nvmlVgpuPgpuCompatibilityLimitCode_t :: "(string \<times> int) list" where
  "nvmlVgpuPgpuCompatibilityLimitCode_t =
     [(''NVML_VGPU_COMPATIBILITY_LIMIT_NONE'', 0), (''NVML_VGPU_COMPATIBILITY_LIMIT_HOST_DRIVER'', 1),
      (''NVML_VGPU_COMPATIBILITY_LIMIT_GUEST_DRIVER'', 2), (''NVML_VGPU_COMPATIBILITY_LIMIT_GPU'', 4),
      (''NVML_VGPU_COMPATIBILITY_LIMIT_OTHER'', 2147483648)]"

definition nvmlPRMCounterId_t :: "(string \<times> int) list" where
  "nvmlPRMCounterId_t =
     [(''NVML_PRM_COUNTER_ID_NONE'', 0),
      (''NVML_PRM_COUNTER_ID_PPCNT_PHYSICAL_LAYER_CTRS_LINK_DOWN_EVENTS'', 1),
      (''NVML_PRM_COUNTER_ID_PPCNT_PHYSICAL_LAYER_CTRS_SUCCESSFUL_RECOVERY_EVENTS'', 2),
      (''NVML_PRM_COUNTER_ID_PPCNT_RECOVERY_CTRS_TOTAL_SUCCESSFUL_RECOVERY_EVENTS'', 101),
      (''NVML_PRM_COUNTER_ID_PPCNT_RECOVERY_CTRS_TIME_SINCE_LAST_RECOVERY'', 102),
      (''NVML_PRM_COUNTER_ID_PPCNT_RECOVERY_CTRS_TIME_BETWEEN_LAST_TWO_RECOVERIES'', 103),
      (''NVML_PRM_COUNTER_ID_PPCNT_PORTCOUNTERS_PORT_XMIT_WAIT'', 201),
      (''NVML_PRM_COUNTER_ID_PPCNT_PLR_RCV_CODES'', 301),
      (''NVML_PRM_COUNTER_ID_PPCNT_PLR_RCV_CODE_ERR'', 302),
      (''NVML_PRM_COUNTER_ID_PPCNT_PLR_RCV_UNCORRECTABLE_CODE'', 303),
      (''NVML_PRM_COUNTER_ID_PPCNT_PLR_XMIT_CODES'', 304),
      (''NVML_PRM_COUNTER_ID_PPCNT_PLR_XMIT_RETRY_CODES'', 305),
      (''NVML_PRM_COUNTER_ID_PPCNT_PLR_XMIT_RETRY_EVENTS'', 306),
      (''NVML_PRM_COUNTER_ID_PPCNT_PLR_SYNC_EVENTS'', 307), (''NVML_PRM_COUNTER_ID_PPRM_OPER_RECOVERY'', 1001)]"

definition nvmlGpmMetricId_t :: "(string \<times> int) list" where
  "nvmlGpmMetricId_t =
     [(''NVML_GPM_METRIC_GRAPHICS_UTIL'', 1), (''NVML_GPM_METRIC_SM_UTIL'', 2),
      (''NVML_GPM_METRIC_SM_OCCUPANCY'', 3), (''NVML_GPM_METRIC_INTEGER_UTIL'', 4),
      (''NVML_GPM_METRIC_ANY_TENSOR_UTIL'', 5), (''NVML_GPM_METRIC_DFMA_TENSOR_UTIL'', 6),
      (''NVML_GPM_METRIC_HMMA_TENSOR_UTIL'', 7), (''NVML_GPM_METRIC_IMMA_TENSOR_UTIL'', 9),
      (''NVML_GPM_METRIC_DRAM_BW_UTIL'', 10), (''NVML_GPM_METRIC_FP64_UTIL'', 11),
      (''NVML_GPM_METRIC_FP32_UTIL'', 12), (''NVML_GPM_METRIC_FP16_UTIL'', 13),
      (''NVML_GPM_METRIC_PCIE_TX_PER_SEC'', 20), (''NVML_GPM_METRIC_PCIE_RX_PER_SEC'', 21),
      (''NVML_GPM_METRIC_NVDEC_0_UTIL'', 30), (''NVML_GPM_METRIC_NVDEC_1_UTIL'', 31),
      (''NVML_GPM_METRIC_NVDEC_2_UTIL'', 32), (''NVML_GPM_METRIC_NVDEC_3_UTIL'', 33),
      (''NVML_GPM_METRIC_NVDEC_4_UTIL'', 34), (''NVML_GPM_METRIC_NVDEC_5_UTIL'', 35),
      (''NVML_GPM_METRIC_NVDEC_6_UTIL'', 36), (''NVML_GPM_METRIC_NVDEC_7_UTIL'', 37),
      (''NVML_GPM_METRIC_NVJPG_0_UTIL'', 40), (''NVML_GPM_METRIC_NVJPG_1_UTIL'', 41),
      (''NVML_GPM_METRIC_NVJPG_2_UTIL'', 42), (''NVML_GPM_METRIC_NVJPG_3_UTIL'', 43),
      (''NVML_GPM_METRIC_NVJPG_4_UTIL'', 44), (''NVML_GPM_METRIC_NVJPG_5_UTIL'', 45),
      (''NVML_GPM_METRIC_NVJPG_6_UTIL'', 46), (''NVML_GPM_METRIC_NVJPG_7_UTIL'', 47),
      (''NVML_GPM_METRIC_NVOFA_0_UTIL'', 50), (''NVML_GPM_METRIC_NVOFA_1_UTIL'', 51),
      (''NVML_GPM_METRIC_NVLINK_TOTAL_RX_PER_SEC'', 60), (''NVML_GPM_METRIC_NVLINK_TOTAL_TX_PER_SEC'', 61),
      (''NVML_GPM_METRIC_NVLINK_L0_RX_PER_SEC'', 62), (''NVML_GPM_METRIC_NVLINK_L0_TX_PER_SEC'', 63),
      (''NVML_GPM_METRIC_NVLINK_L1_RX_PER_SEC'', 64), (''NVML_GPM_METRIC_NVLINK_L1_TX_PER_SEC'', 65),
      (''NVML_GPM_METRIC_NVLINK_L2_RX_PER_SEC'', 66), (''NVML_GPM_METRIC_NVLINK_L2_TX_PER_SEC'', 67),
      (''NVML_GPM_METRIC_NVLINK_L3_RX_PER_SEC'', 68), (''NVML_GPM_METRIC_NVLINK_L3_TX_PER_SEC'', 69),
      (''NVML_GPM_METRIC_NVLINK_L4_RX_PER_SEC'', 70), (''NVML_GPM_METRIC_NVLINK_L4_TX_PER_SEC'', 71),
      (''NVML_GPM_METRIC_NVLINK_L5_RX_PER_SEC'', 72), (''NVML_GPM_METRIC_NVLINK_L5_TX_PER_SEC'', 73),
      (''NVML_GPM_METRIC_NVLINK_L6_RX_PER_SEC'', 74), (''NVML_GPM_METRIC_NVLINK_L6_TX_PER_SEC'', 75),
      (''NVML_GPM_METRIC_NVLINK_L7_RX_PER_SEC'', 76), (''NVML_GPM_METRIC_NVLINK_L7_TX_PER_SEC'', 77),
      (''NVML_GPM_METRIC_NVLINK_L8_RX_PER_SEC'', 78), (''NVML_GPM_METRIC_NVLINK_L8_TX_PER_SEC'', 79),
      (''NVML_GPM_METRIC_NVLINK_L9_RX_PER_SEC'', 80), (''NVML_GPM_METRIC_NVLINK_L9_TX_PER_SEC'', 81),
      (''NVML_GPM_METRIC_NVLINK_L10_RX_PER_SEC'', 82), (''NVML_GPM_METRIC_NVLINK_L10_TX_PER_SEC'', 83),
      (''NVML_GPM_METRIC_NVLINK_L11_RX_PER_SEC'', 84), (''NVML_GPM_METRIC_NVLINK_L11_TX_PER_SEC'', 85),
      (''NVML_GPM_METRIC_NVLINK_L12_RX_PER_SEC'', 86), (''NVML_GPM_METRIC_NVLINK_L12_TX_PER_SEC'', 87),
      (''NVML_GPM_METRIC_NVLINK_L13_RX_PER_SEC'', 88), (''NVML_GPM_METRIC_NVLINK_L13_TX_PER_SEC'', 89),
      (''NVML_GPM_METRIC_NVLINK_L14_RX_PER_SEC'', 90), (''NVML_GPM_METRIC_NVLINK_L14_TX_PER_SEC'', 91),
      (''NVML_GPM_METRIC_NVLINK_L15_RX_PER_SEC'', 92), (''NVML_GPM_METRIC_NVLINK_L15_TX_PER_SEC'', 93),
      (''NVML_GPM_METRIC_NVLINK_L16_RX_PER_SEC'', 94), (''NVML_GPM_METRIC_NVLINK_L16_TX_PER_SEC'', 95),
      (''NVML_GPM_METRIC_NVLINK_L17_RX_PER_SEC'', 96), (''NVML_GPM_METRIC_NVLINK_L17_TX_PER_SEC'', 97),
      (''NVML_GPM_METRIC_C2C_TOTAL_TX_PER_SEC'', 100), (''NVML_GPM_METRIC_C2C_TOTAL_RX_PER_SEC'', 101),
      (''NVML_GPM_METRIC_C2C_DATA_TX_PER_SEC'', 102), (''NVML_GPM_METRIC_C2C_DATA_RX_PER_SEC'', 103),
      (''NVML_GPM_METRIC_C2C_LINK0_TOTAL_TX_PER_SEC'', 104),
      (''NVML_GPM_METRIC_C2C_LINK0_TOTAL_RX_PER_SEC'', 105),
      (''NVML_GPM_METRIC_C2C_LINK0_DATA_TX_PER_SEC'', 106),
      (''NVML_GPM_METRIC_C2C_LINK0_DATA_RX_PER_SEC'', 107),
      (''NVML_GPM_METRIC_C2C_LINK1_TOTAL_TX_PER_SEC'', 108),
      (''NVML_GPM_METRIC_C2C_LINK1_TOTAL_RX_PER_SEC'', 109),
      (''NVML_GPM_METRIC_C2C_LINK1_DATA_TX_PER_SEC'', 110),
      (''NVML_GPM_METRIC_C2C_LINK1_DATA_RX_PER_SEC'', 111),
      (''NVML_GPM_METRIC_C2C_LINK2_TOTAL_TX_PER_SEC'', 112),
      (''NVML_GPM_METRIC_C2C_LINK2_TOTAL_RX_PER_SEC'', 113),
      (''NVML_GPM_METRIC_C2C_LINK2_DATA_TX_PER_SEC'', 114),
      (''NVML_GPM_METRIC_C2C_LINK2_DATA_RX_PER_SEC'', 115),
      (''NVML_GPM_METRIC_C2C_LINK3_TOTAL_TX_PER_SEC'', 116),
      (''NVML_GPM_METRIC_C2C_LINK3_TOTAL_RX_PER_SEC'', 117),
      (''NVML_GPM_METRIC_C2C_LINK3_DATA_TX_PER_SEC'', 118),
      (''NVML_GPM_METRIC_C2C_LINK3_DATA_RX_PER_SEC'', 119),
      (''NVML_GPM_METRIC_C2C_LINK4_TOTAL_TX_PER_SEC'', 120),
      (''NVML_GPM_METRIC_C2C_LINK4_TOTAL_RX_PER_SEC'', 121),
      (''NVML_GPM_METRIC_C2C_LINK4_DATA_TX_PER_SEC'', 122),
      (''NVML_GPM_METRIC_C2C_LINK4_DATA_RX_PER_SEC'', 123),
      (''NVML_GPM_METRIC_C2C_LINK5_TOTAL_TX_PER_SEC'', 124),
      (''NVML_GPM_METRIC_C2C_LINK5_TOTAL_RX_PER_SEC'', 125),
      (''NVML_GPM_METRIC_C2C_LINK5_DATA_TX_PER_SEC'', 126),
      (''NVML_GPM_METRIC_C2C_LINK5_DATA_RX_PER_SEC'', 127),
      (''NVML_GPM_METRIC_C2C_LINK6_TOTAL_TX_PER_SEC'', 128),
      (''NVML_GPM_METRIC_C2C_LINK6_TOTAL_RX_PER_SEC'', 129),
      (''NVML_GPM_METRIC_C2C_LINK6_DATA_TX_PER_SEC'', 130),
      (''NVML_GPM_METRIC_C2C_LINK6_DATA_RX_PER_SEC'', 131),
      (''NVML_GPM_METRIC_C2C_LINK7_TOTAL_TX_PER_SEC'', 132),
      (''NVML_GPM_METRIC_C2C_LINK7_TOTAL_RX_PER_SEC'', 133),
      (''NVML_GPM_METRIC_C2C_LINK7_DATA_TX_PER_SEC'', 134),
      (''NVML_GPM_METRIC_C2C_LINK7_DATA_RX_PER_SEC'', 135),
      (''NVML_GPM_METRIC_C2C_LINK8_TOTAL_TX_PER_SEC'', 136),
      (''NVML_GPM_METRIC_C2C_LINK8_TOTAL_RX_PER_SEC'', 137),
      (''NVML_GPM_METRIC_C2C_LINK8_DATA_TX_PER_SEC'', 138),
      (''NVML_GPM_METRIC_C2C_LINK8_DATA_RX_PER_SEC'', 139),
      (''NVML_GPM_METRIC_C2C_LINK9_TOTAL_TX_PER_SEC'', 140),
      (''NVML_GPM_METRIC_C2C_LINK9_TOTAL_RX_PER_SEC'', 141),
      (''NVML_GPM_METRIC_C2C_LINK9_DATA_TX_PER_SEC'', 142),
      (''NVML_GPM_METRIC_C2C_LINK9_DATA_RX_PER_SEC'', 143),
      (''NVML_GPM_METRIC_C2C_LINK10_TOTAL_TX_PER_SEC'', 144),
      (''NVML_GPM_METRIC_C2C_LINK10_TOTAL_RX_PER_SEC'', 145),
      (''NVML_GPM_METRIC_C2C_LINK10_DATA_TX_PER_SEC'', 146),
      (''NVML_GPM_METRIC_C2C_LINK10_DATA_RX_PER_SEC'', 147),
      (''NVML_GPM_METRIC_C2C_LINK11_TOTAL_TX_PER_SEC'', 148),
      (''NVML_GPM_METRIC_C2C_LINK11_TOTAL_RX_PER_SEC'', 149),
      (''NVML_GPM_METRIC_C2C_LINK11_DATA_TX_PER_SEC'', 150),
      (''NVML_GPM_METRIC_C2C_LINK11_DATA_RX_PER_SEC'', 151),
      (''NVML_GPM_METRIC_C2C_LINK12_TOTAL_TX_PER_SEC'', 152),
      (''NVML_GPM_METRIC_C2C_LINK12_TOTAL_RX_PER_SEC'', 153),
      (''NVML_GPM_METRIC_C2C_LINK12_DATA_TX_PER_SEC'', 154),
      (''NVML_GPM_METRIC_C2C_LINK12_DATA_RX_PER_SEC'', 155),
      (''NVML_GPM_METRIC_C2C_LINK13_TOTAL_TX_PER_SEC'', 156),
      (''NVML_GPM_METRIC_C2C_LINK13_TOTAL_RX_PER_SEC'', 157),
      (''NVML_GPM_METRIC_C2C_LINK13_DATA_TX_PER_SEC'', 158),
      (''NVML_GPM_METRIC_C2C_LINK13_DATA_RX_PER_SEC'', 159), (''NVML_GPM_METRIC_HOSTMEM_CACHE_HIT'', 160),
      (''NVML_GPM_METRIC_HOSTMEM_CACHE_MISS'', 161), (''NVML_GPM_METRIC_PEERMEM_CACHE_HIT'', 162),
      (''NVML_GPM_METRIC_PEERMEM_CACHE_MISS'', 163), (''NVML_GPM_METRIC_DRAM_CACHE_HIT'', 164),
      (''NVML_GPM_METRIC_DRAM_CACHE_MISS'', 165), (''NVML_GPM_METRIC_NVENC_0_UTIL'', 166),
      (''NVML_GPM_METRIC_NVENC_1_UTIL'', 167), (''NVML_GPM_METRIC_NVENC_2_UTIL'', 168),
      (''NVML_GPM_METRIC_NVENC_3_UTIL'', 169), (''NVML_GPM_METRIC_GR0_CTXSW_CYCLES_ELAPSED'', 170),
      (''NVML_GPM_METRIC_GR0_CTXSW_CYCLES_ACTIVE'', 171), (''NVML_GPM_METRIC_GR0_CTXSW_REQUESTS'', 172),
      (''NVML_GPM_METRIC_GR0_CTXSW_CYCLES_PER_REQ'', 173), (''NVML_GPM_METRIC_GR0_CTXSW_ACTIVE_PCT'', 174),
      (''NVML_GPM_METRIC_GR1_CTXSW_CYCLES_ELAPSED'', 175), (''NVML_GPM_METRIC_GR1_CTXSW_CYCLES_ACTIVE'', 176),
      (''NVML_GPM_METRIC_GR1_CTXSW_REQUESTS'', 177), (''NVML_GPM_METRIC_GR1_CTXSW_CYCLES_PER_REQ'', 178),
      (''NVML_GPM_METRIC_GR1_CTXSW_ACTIVE_PCT'', 179), (''NVML_GPM_METRIC_GR2_CTXSW_CYCLES_ELAPSED'', 180),
      (''NVML_GPM_METRIC_GR2_CTXSW_CYCLES_ACTIVE'', 181), (''NVML_GPM_METRIC_GR2_CTXSW_REQUESTS'', 182),
      (''NVML_GPM_METRIC_GR2_CTXSW_CYCLES_PER_REQ'', 183), (''NVML_GPM_METRIC_GR2_CTXSW_ACTIVE_PCT'', 184),
      (''NVML_GPM_METRIC_GR3_CTXSW_CYCLES_ELAPSED'', 185), (''NVML_GPM_METRIC_GR3_CTXSW_CYCLES_ACTIVE'', 186),
      (''NVML_GPM_METRIC_GR3_CTXSW_REQUESTS'', 187), (''NVML_GPM_METRIC_GR3_CTXSW_CYCLES_PER_REQ'', 188),
      (''NVML_GPM_METRIC_GR3_CTXSW_ACTIVE_PCT'', 189), (''NVML_GPM_METRIC_GR4_CTXSW_CYCLES_ELAPSED'', 190),
      (''NVML_GPM_METRIC_GR4_CTXSW_CYCLES_ACTIVE'', 191), (''NVML_GPM_METRIC_GR4_CTXSW_REQUESTS'', 192),
      (''NVML_GPM_METRIC_GR4_CTXSW_CYCLES_PER_REQ'', 193), (''NVML_GPM_METRIC_GR4_CTXSW_ACTIVE_PCT'', 194),
      (''NVML_GPM_METRIC_GR5_CTXSW_CYCLES_ELAPSED'', 195), (''NVML_GPM_METRIC_GR5_CTXSW_CYCLES_ACTIVE'', 196),
      (''NVML_GPM_METRIC_GR5_CTXSW_REQUESTS'', 197), (''NVML_GPM_METRIC_GR5_CTXSW_CYCLES_PER_REQ'', 198),
      (''NVML_GPM_METRIC_GR5_CTXSW_ACTIVE_PCT'', 199), (''NVML_GPM_METRIC_GR6_CTXSW_CYCLES_ELAPSED'', 200),
      (''NVML_GPM_METRIC_GR6_CTXSW_CYCLES_ACTIVE'', 201), (''NVML_GPM_METRIC_GR6_CTXSW_REQUESTS'', 202),
      (''NVML_GPM_METRIC_GR6_CTXSW_CYCLES_PER_REQ'', 203), (''NVML_GPM_METRIC_GR6_CTXSW_ACTIVE_PCT'', 204),
      (''NVML_GPM_METRIC_GR7_CTXSW_CYCLES_ELAPSED'', 205), (''NVML_GPM_METRIC_GR7_CTXSW_CYCLES_ACTIVE'', 206),
      (''NVML_GPM_METRIC_GR7_CTXSW_REQUESTS'', 207), (''NVML_GPM_METRIC_GR7_CTXSW_CYCLES_PER_REQ'', 208),
      (''NVML_GPM_METRIC_GR7_CTXSW_ACTIVE_PCT'', 209), (''NVML_GPM_METRIC_MAX'', 210)]"

definition nvmlPowerProfileType_t :: "(string \<times> int) list" where
  "nvmlPowerProfileType_t =
     [(''NVML_POWER_PROFILE_MAX_P'', 0), (''NVML_POWER_PROFILE_MAX_Q'', 1),
      (''NVML_POWER_PROFILE_COMPUTE'', 2), (''NVML_POWER_PROFILE_MEMORY_BOUND'', 3),
      (''NVML_POWER_PROFILE_NETWORK'', 4), (''NVML_POWER_PROFILE_BALANCED'', 5),
      (''NVML_POWER_PROFILE_LLM_INFERENCE'', 6), (''NVML_POWER_PROFILE_LLM_TRAINING'', 7),
      (''NVML_POWER_PROFILE_RBM'', 8), (''NVML_POWER_PROFILE_DCPCIE'', 9),
      (''NVML_POWER_PROFILE_HMMA_SPARSE'', 10), (''NVML_POWER_PROFILE_HMMA_DENSE'', 11),
      (''NVML_POWER_PROFILE_SYNC_BALANCED'', 12), (''NVML_POWER_PROFILE_HPC'', 13),
      (''NVML_POWER_PROFILE_MIG'', 14), (''NVML_POWER_PROFILE_MAX'', 15)]"

text \<open>All of them, by name.\<close>

definition nvml_enums :: "(string \<times> (string \<times> int) list) list" where
  "nvml_enums =
     [(''nvmlDeviceAddressingModeType_t'', nvmlDeviceAddressingModeType_t),
      (''nvmlBridgeChipType_t'', nvmlBridgeChipType_t),
      (''nvmlNvLinkUtilizationCountUnits_t'', nvmlNvLinkUtilizationCountUnits_t),
      (''nvmlNvLinkUtilizationCountPktTypes_t'', nvmlNvLinkUtilizationCountPktTypes_t),
      (''nvmlNvLinkCapability_t'', nvmlNvLinkCapability_t),
      (''nvmlNvLinkErrorCounter_t'', nvmlNvLinkErrorCounter_t),
      (''nvmlIntNvLinkDeviceType_t'', nvmlIntNvLinkDeviceType_t),
      (''nvmlGpuTopologyLevel_t'', nvmlGpuTopologyLevel_t), (''nvmlGpuP2PStatus_t'', nvmlGpuP2PStatus_t),
      (''nvmlGpuP2PCapsIndex_t'', nvmlGpuP2PCapsIndex_t), (''nvmlSamplingType_t'', nvmlSamplingType_t),
      (''nvmlPcieUtilCounter_t'', nvmlPcieUtilCounter_t), (''nvmlValueType_t'', nvmlValueType_t),
      (''nvmlPerfPolicyType_t'', nvmlPerfPolicyType_t), (''nvmlThermalTarget_t'', nvmlThermalTarget_t),
      (''nvmlThermalController_t'', nvmlThermalController_t), (''nvmlCoolerControl_t'', nvmlCoolerControl_t),
      (''nvmlCoolerTarget_t'', nvmlCoolerTarget_t), (''nvmlUUIDType_t'', nvmlUUIDType_t),
      (''nvmlEnableState_t'', nvmlEnableState_t), (''nvmlBrandType_t'', nvmlBrandType_t),
      (''nvmlTemperatureThresholds_t'', nvmlTemperatureThresholds_t),
      (''nvmlTemperatureSensors_t_abi'', nvmlTemperatureSensors_t_abi),
      (''nvmlComputeMode_t'', nvmlComputeMode_t), (''nvmlMemoryErrorType_t'', nvmlMemoryErrorType_t),
      (''nvmlNvlinkVersion_t'', nvmlNvlinkVersion_t), (''nvmlEccCounterType_t'', nvmlEccCounterType_t),
      (''nvmlClockType_t'', nvmlClockType_t), (''nvmlClockId_t'', nvmlClockId_t),
      (''nvmlDriverModel_t'', nvmlDriverModel_t), (''nvmlPstates_t'', nvmlPstates_t),
      (''nvmlGpuOperationMode_t'', nvmlGpuOperationMode_t), (''nvmlInforomObject_t'', nvmlInforomObject_t),
      (''nvmlReturn_t_abi'', nvmlReturn_t_abi), (''nvmlMemoryLocation_t'', nvmlMemoryLocation_t),
      (''nvmlPageRetirementCause_t'', nvmlPageRetirementCause_t),
      (''nvmlRestrictedAPI_t'', nvmlRestrictedAPI_t),
      (''nvmlGpuUtilizationDomainId_t'', nvmlGpuUtilizationDomainId_t),
      (''nvmlGpuVirtualizationMode_t'', nvmlGpuVirtualizationMode_t),
      (''nvmlHostVgpuMode_t'', nvmlHostVgpuMode_t), (''nvmlVgpuVmIdType_t'', nvmlVgpuVmIdType_t),
      (''nvmlVgpuGuestInfoState_t'', nvmlVgpuGuestInfoState_t),
      (''nvmlGridLicenseFeatureCode_t'', nvmlGridLicenseFeatureCode_t),
      (''nvmlVgpuCapability_t'', nvmlVgpuCapability_t),
      (''nvmlVgpuDriverCapability_t'', nvmlVgpuDriverCapability_t),
      (''nvmlDeviceVgpuCapability_t'', nvmlDeviceVgpuCapability_t),
      (''nvmlDeviceGpuRecoveryAction_t'', nvmlDeviceGpuRecoveryAction_t), (''nvmlFanState_t'', nvmlFanState_t),
      (''nvmlLedColor_t'', nvmlLedColor_t), (''nvmlEncoderType_t'', nvmlEncoderType_t),
      (''nvmlFBCSessionType_t'', nvmlFBCSessionType_t), (''nvmlDetachGpuState_t'', nvmlDetachGpuState_t),
      (''nvmlPcieLinkState_t'', nvmlPcieLinkState_t), (''nvmlClockLimitId_t'', nvmlClockLimitId_t),
      (''nvmlVgpuVmCompatibility_t'', nvmlVgpuVmCompatibility_t),
      (''nvmlVgpuPgpuCompatibilityLimitCode_t'', nvmlVgpuPgpuCompatibilityLimitCode_t),
      (''nvmlPRMCounterId_t'', nvmlPRMCounterId_t), (''nvmlGpmMetricId_t'', nvmlGpmMetricId_t),
      (''nvmlPowerProfileType_t'', nvmlPowerProfileType_t)]"
section \<open>Status codes\<close>

text \<open>The codes behind the constructors of \<^verbatim>\<open>nvmlReturn_t\<close>.\<close>

fun nvmlReturn_code :: "nvmlReturn_t \<Rightarrow> int" where
  "nvmlReturn_code NVML_SUCCESS = 0"
| "nvmlReturn_code NVML_ERROR_UNINITIALIZED = 1"
| "nvmlReturn_code NVML_ERROR_INVALID_ARGUMENT = 2"
| "nvmlReturn_code NVML_ERROR_NOT_SUPPORTED = 3"
| "nvmlReturn_code NVML_ERROR_NO_PERMISSION = 4"
| "nvmlReturn_code NVML_ERROR_ALREADY_INITIALIZED = 5"
| "nvmlReturn_code NVML_ERROR_NOT_FOUND = 6"
| "nvmlReturn_code NVML_ERROR_INSUFFICIENT_SIZE = 7"
| "nvmlReturn_code NVML_ERROR_INSUFFICIENT_POWER = 8"
| "nvmlReturn_code NVML_ERROR_DRIVER_NOT_LOADED = 9"
| "nvmlReturn_code NVML_ERROR_TIMEOUT = 10"
| "nvmlReturn_code NVML_ERROR_IRQ_ISSUE = 11"
| "nvmlReturn_code NVML_ERROR_LIBRARY_NOT_FOUND = 12"
| "nvmlReturn_code NVML_ERROR_FUNCTION_NOT_FOUND = 13"
| "nvmlReturn_code NVML_ERROR_CORRUPTED_INFOROM = 14"
| "nvmlReturn_code NVML_ERROR_GPU_IS_LOST = 15"
| "nvmlReturn_code NVML_ERROR_RESET_REQUIRED = 16"
| "nvmlReturn_code NVML_ERROR_OPERATING_SYSTEM = 17"
| "nvmlReturn_code NVML_ERROR_LIB_RM_VERSION_MISMATCH = 18"
| "nvmlReturn_code NVML_ERROR_IN_USE = 19"
| "nvmlReturn_code NVML_ERROR_MEMORY = 20"
| "nvmlReturn_code NVML_ERROR_NO_DATA = 21"
| "nvmlReturn_code NVML_ERROR_VGPU_ECC_NOT_SUPPORTED = 22"
| "nvmlReturn_code NVML_ERROR_INSUFFICIENT_RESOURCES = 23"
| "nvmlReturn_code NVML_ERROR_FREQ_NOT_SUPPORTED = 24"
| "nvmlReturn_code NVML_ERROR_ARGUMENT_VERSION_MISMATCH = 25"
| "nvmlReturn_code NVML_ERROR_DEPRECATED = 26"
| "nvmlReturn_code NVML_ERROR_NOT_READY = 27"
| "nvmlReturn_code NVML_ERROR_GPU_NOT_FOUND = 28"
| "nvmlReturn_code NVML_ERROR_INVALID_STATE = 29"
| "nvmlReturn_code NVML_ERROR_RESET_TYPE_NOT_SUPPORTED = 30"
| "nvmlReturn_code NVML_ERROR_UNKNOWN = 999"

definition nvmlReturn_all :: "nvmlReturn_t list" where
  "nvmlReturn_all =
     [NVML_SUCCESS,
      NVML_ERROR_UNINITIALIZED,
      NVML_ERROR_INVALID_ARGUMENT,
      NVML_ERROR_NOT_SUPPORTED,
      NVML_ERROR_NO_PERMISSION,
      NVML_ERROR_ALREADY_INITIALIZED,
      NVML_ERROR_NOT_FOUND,
      NVML_ERROR_INSUFFICIENT_SIZE,
      NVML_ERROR_INSUFFICIENT_POWER,
      NVML_ERROR_DRIVER_NOT_LOADED,
      NVML_ERROR_TIMEOUT,
      NVML_ERROR_IRQ_ISSUE,
      NVML_ERROR_LIBRARY_NOT_FOUND,
      NVML_ERROR_FUNCTION_NOT_FOUND,
      NVML_ERROR_CORRUPTED_INFOROM,
      NVML_ERROR_GPU_IS_LOST,
      NVML_ERROR_RESET_REQUIRED,
      NVML_ERROR_OPERATING_SYSTEM,
      NVML_ERROR_LIB_RM_VERSION_MISMATCH,
      NVML_ERROR_IN_USE,
      NVML_ERROR_MEMORY,
      NVML_ERROR_NO_DATA,
      NVML_ERROR_VGPU_ECC_NOT_SUPPORTED,
      NVML_ERROR_INSUFFICIENT_RESOURCES,
      NVML_ERROR_FREQ_NOT_SUPPORTED,
      NVML_ERROR_ARGUMENT_VERSION_MISMATCH,
      NVML_ERROR_DEPRECATED,
      NVML_ERROR_NOT_READY,
      NVML_ERROR_GPU_NOT_FOUND,
      NVML_ERROR_INVALID_STATE,
      NVML_ERROR_RESET_TYPE_NOT_SUPPORTED,
      NVML_ERROR_UNKNOWN]"

lemma nvmlReturn_all_complete: "r \<in> set nvmlReturn_all"
  by (cases r) (simp_all add: nvmlReturn_all_def)

lemma nvmlReturn_codes: "map nvmlReturn_code nvmlReturn_all = map snd nvmlReturn_t_abi"
  by (simp add: nvmlReturn_all_def nvmlReturn_t_abi_def)

lemma nvmlReturn_codes_distinct: "distinct (map nvmlReturn_code nvmlReturn_all)"
  by (simp add: nvmlReturn_all_def)

section \<open>Properties\<close>

text \<open>
  The status codes of the header are distinct and \<^verbatim>\<open>NVML_SUCCESS\<close> alone is 0, so comparing codes, as
  the collector does, is comparing the constructors of the model.
\<close>

lemma nvmlReturn_code_injective:
  "map nvmlReturn_code nvmlReturn_all = map snd nvmlReturn_t_abi \<and> (nvmlReturn_code r = nvmlReturn_code r') = (r = r') \<and>
   (nvmlReturn_code r = 0) = (r = NVML_SUCCESS)"
proof -
  have "inj_on nvmlReturn_code (set nvmlReturn_all)" using nvmlReturn_codes_distinct by (simp add: distinct_map)
  then have inj: "nvmlReturn_code a = nvmlReturn_code b \<longleftrightarrow> a = b" for a b
    using nvmlReturn_all_complete by (auto simp: inj_on_def)
  then show ?thesis using nvmlReturn_codes inj [of r NVML_SUCCESS] by simp
qed

end
