(* ===== verification/Nvml_Fields.thy ===== *)
theory Nvml_Fields
  imports Nvml_Enums
begin

unbundle bit_operations_syntax

text \<open>
  The constants that the vendored header nvml.h defines as macros: the field identifiers of
  \<^verbatim>\<open>nvmlFieldValue_t\<close>, the event types and clock event reasons with their masks, the groups of
  numbered codes, and the macros that compute: the fields of the fabric health mask and of the
  bit error rate, the 255 bit mask, the index of a power smoothing field and the parts of the CUDA
  driver version.
\<close>

section \<open>Field identifiers\<close>

definition nvml_field_ids_1 :: "(string \<times> int) list" where
  "nvml_field_ids_1 =
     [(''NVML_FI_DEV_ECC_CURRENT'', 1), (''NVML_FI_DEV_ECC_PENDING'', 2),
      (''NVML_FI_DEV_ECC_SBE_VOL_TOTAL'', 3), (''NVML_FI_DEV_ECC_DBE_VOL_TOTAL'', 4),
      (''NVML_FI_DEV_ECC_SBE_AGG_TOTAL'', 5), (''NVML_FI_DEV_ECC_DBE_AGG_TOTAL'', 6),
      (''NVML_FI_DEV_ECC_SBE_VOL_L1'', 7), (''NVML_FI_DEV_ECC_DBE_VOL_L1'', 8),
      (''NVML_FI_DEV_ECC_SBE_VOL_L2'', 9), (''NVML_FI_DEV_ECC_DBE_VOL_L2'', 10),
      (''NVML_FI_DEV_ECC_SBE_VOL_DEV'', 11), (''NVML_FI_DEV_ECC_DBE_VOL_DEV'', 12),
      (''NVML_FI_DEV_ECC_SBE_VOL_REG'', 13), (''NVML_FI_DEV_ECC_DBE_VOL_REG'', 14),
      (''NVML_FI_DEV_ECC_SBE_VOL_TEX'', 15), (''NVML_FI_DEV_ECC_DBE_VOL_TEX'', 16),
      (''NVML_FI_DEV_ECC_DBE_VOL_CBU'', 17), (''NVML_FI_DEV_ECC_SBE_AGG_L1'', 18),
      (''NVML_FI_DEV_ECC_DBE_AGG_L1'', 19), (''NVML_FI_DEV_ECC_SBE_AGG_L2'', 20),
      (''NVML_FI_DEV_ECC_DBE_AGG_L2'', 21), (''NVML_FI_DEV_ECC_SBE_AGG_DEV'', 22),
      (''NVML_FI_DEV_ECC_DBE_AGG_DEV'', 23), (''NVML_FI_DEV_ECC_SBE_AGG_REG'', 24),
      (''NVML_FI_DEV_ECC_DBE_AGG_REG'', 25), (''NVML_FI_DEV_ECC_SBE_AGG_TEX'', 26),
      (''NVML_FI_DEV_ECC_DBE_AGG_TEX'', 27), (''NVML_FI_DEV_ECC_DBE_AGG_CBU'', 28),
      (''NVML_FI_DEV_RETIRED_SBE'', 29), (''NVML_FI_DEV_RETIRED_DBE'', 30),
      (''NVML_FI_DEV_RETIRED_PENDING'', 31), (''NVML_FI_DEV_NVLINK_CRC_FLIT_ERROR_COUNT_L0'', 32),
      (''NVML_FI_DEV_NVLINK_CRC_FLIT_ERROR_COUNT_L1'', 33),
      (''NVML_FI_DEV_NVLINK_CRC_FLIT_ERROR_COUNT_L2'', 34),
      (''NVML_FI_DEV_NVLINK_CRC_FLIT_ERROR_COUNT_L3'', 35),
      (''NVML_FI_DEV_NVLINK_CRC_FLIT_ERROR_COUNT_L4'', 36),
      (''NVML_FI_DEV_NVLINK_CRC_FLIT_ERROR_COUNT_L5'', 37),
      (''NVML_FI_DEV_NVLINK_CRC_FLIT_ERROR_COUNT_TOTAL'', 38),
      (''NVML_FI_DEV_NVLINK_CRC_DATA_ERROR_COUNT_L0'', 39),
      (''NVML_FI_DEV_NVLINK_CRC_DATA_ERROR_COUNT_L1'', 40),
      (''NVML_FI_DEV_NVLINK_CRC_DATA_ERROR_COUNT_L2'', 41),
      (''NVML_FI_DEV_NVLINK_CRC_DATA_ERROR_COUNT_L3'', 42),
      (''NVML_FI_DEV_NVLINK_CRC_DATA_ERROR_COUNT_L4'', 43),
      (''NVML_FI_DEV_NVLINK_CRC_DATA_ERROR_COUNT_L5'', 44),
      (''NVML_FI_DEV_NVLINK_CRC_DATA_ERROR_COUNT_TOTAL'', 45),
      (''NVML_FI_DEV_NVLINK_REPLAY_ERROR_COUNT_L0'', 46),
      (''NVML_FI_DEV_NVLINK_REPLAY_ERROR_COUNT_L1'', 47),
      (''NVML_FI_DEV_NVLINK_REPLAY_ERROR_COUNT_L2'', 48),
      (''NVML_FI_DEV_NVLINK_REPLAY_ERROR_COUNT_L3'', 49),
      (''NVML_FI_DEV_NVLINK_REPLAY_ERROR_COUNT_L4'', 50),
      (''NVML_FI_DEV_NVLINK_REPLAY_ERROR_COUNT_L5'', 51),
      (''NVML_FI_DEV_NVLINK_REPLAY_ERROR_COUNT_TOTAL'', 52),
      (''NVML_FI_DEV_NVLINK_RECOVERY_ERROR_COUNT_L0'', 53),
      (''NVML_FI_DEV_NVLINK_RECOVERY_ERROR_COUNT_L1'', 54),
      (''NVML_FI_DEV_NVLINK_RECOVERY_ERROR_COUNT_L2'', 55),
      (''NVML_FI_DEV_NVLINK_RECOVERY_ERROR_COUNT_L3'', 56),
      (''NVML_FI_DEV_NVLINK_RECOVERY_ERROR_COUNT_L4'', 57),
      (''NVML_FI_DEV_NVLINK_RECOVERY_ERROR_COUNT_L5'', 58),
      (''NVML_FI_DEV_NVLINK_RECOVERY_ERROR_COUNT_TOTAL'', 59),
      (''NVML_FI_DEV_NVLINK_BANDWIDTH_C0_L0'', 60), (''NVML_FI_DEV_NVLINK_BANDWIDTH_C0_L1'', 61),
      (''NVML_FI_DEV_NVLINK_BANDWIDTH_C0_L2'', 62), (''NVML_FI_DEV_NVLINK_BANDWIDTH_C0_L3'', 63),
      (''NVML_FI_DEV_NVLINK_BANDWIDTH_C0_L4'', 64), (''NVML_FI_DEV_NVLINK_BANDWIDTH_C0_L5'', 65),
      (''NVML_FI_DEV_NVLINK_BANDWIDTH_C0_TOTAL'', 66), (''NVML_FI_DEV_NVLINK_BANDWIDTH_C1_L0'', 67),
      (''NVML_FI_DEV_NVLINK_BANDWIDTH_C1_L1'', 68), (''NVML_FI_DEV_NVLINK_BANDWIDTH_C1_L2'', 69),
      (''NVML_FI_DEV_NVLINK_BANDWIDTH_C1_L3'', 70), (''NVML_FI_DEV_NVLINK_BANDWIDTH_C1_L4'', 71),
      (''NVML_FI_DEV_NVLINK_BANDWIDTH_C1_L5'', 72), (''NVML_FI_DEV_NVLINK_BANDWIDTH_C1_TOTAL'', 73),
      (''NVML_FI_DEV_PERF_POLICY_POWER'', 74), (''NVML_FI_DEV_PERF_POLICY_THERMAL'', 75),
      (''NVML_FI_DEV_PERF_POLICY_SYNC_BOOST'', 76), (''NVML_FI_DEV_PERF_POLICY_BOARD_LIMIT'', 77),
      (''NVML_FI_DEV_PERF_POLICY_LOW_UTILIZATION'', 78),
      (''NVML_FI_DEV_PERF_POLICY_RELIABILITY'', 79),
      (''NVML_FI_DEV_PERF_POLICY_TOTAL_APP_CLOCKS'', 80),
      (''NVML_FI_DEV_PERF_POLICY_TOTAL_BASE_CLOCKS'', 81), (''NVML_FI_DEV_MEMORY_TEMP'', 82),
      (''NVML_FI_DEV_TOTAL_ENERGY_CONSUMPTION'', 83), (''NVML_FI_DEV_NVLINK_SPEED_MBPS_L0'', 84),
      (''NVML_FI_DEV_NVLINK_SPEED_MBPS_L1'', 85), (''NVML_FI_DEV_NVLINK_SPEED_MBPS_L2'', 86),
      (''NVML_FI_DEV_NVLINK_SPEED_MBPS_L3'', 87), (''NVML_FI_DEV_NVLINK_SPEED_MBPS_L4'', 88),
      (''NVML_FI_DEV_NVLINK_SPEED_MBPS_L5'', 89), (''NVML_FI_DEV_NVLINK_SPEED_MBPS_COMMON'', 90),
      (''NVML_FI_DEV_NVLINK_LINK_COUNT'', 91), (''NVML_FI_DEV_RETIRED_PENDING_SBE'', 92),
      (''NVML_FI_DEV_RETIRED_PENDING_DBE'', 93)]"

definition nvml_field_ids_2 :: "(string \<times> int) list" where
  "nvml_field_ids_2 =
     [(''NVML_FI_DEV_PCIE_REPLAY_COUNTER'', 94), (''NVML_FI_DEV_PCIE_REPLAY_ROLLOVER_COUNTER'', 95),
      (''NVML_FI_DEV_NVLINK_CRC_FLIT_ERROR_COUNT_L6'', 96),
      (''NVML_FI_DEV_NVLINK_CRC_FLIT_ERROR_COUNT_L7'', 97),
      (''NVML_FI_DEV_NVLINK_CRC_FLIT_ERROR_COUNT_L8'', 98),
      (''NVML_FI_DEV_NVLINK_CRC_FLIT_ERROR_COUNT_L9'', 99),
      (''NVML_FI_DEV_NVLINK_CRC_FLIT_ERROR_COUNT_L10'', 100),
      (''NVML_FI_DEV_NVLINK_CRC_FLIT_ERROR_COUNT_L11'', 101),
      (''NVML_FI_DEV_NVLINK_CRC_DATA_ERROR_COUNT_L6'', 102),
      (''NVML_FI_DEV_NVLINK_CRC_DATA_ERROR_COUNT_L7'', 103),
      (''NVML_FI_DEV_NVLINK_CRC_DATA_ERROR_COUNT_L8'', 104),
      (''NVML_FI_DEV_NVLINK_CRC_DATA_ERROR_COUNT_L9'', 105),
      (''NVML_FI_DEV_NVLINK_CRC_DATA_ERROR_COUNT_L10'', 106),
      (''NVML_FI_DEV_NVLINK_CRC_DATA_ERROR_COUNT_L11'', 107),
      (''NVML_FI_DEV_NVLINK_REPLAY_ERROR_COUNT_L6'', 108),
      (''NVML_FI_DEV_NVLINK_REPLAY_ERROR_COUNT_L7'', 109),
      (''NVML_FI_DEV_NVLINK_REPLAY_ERROR_COUNT_L8'', 110),
      (''NVML_FI_DEV_NVLINK_REPLAY_ERROR_COUNT_L9'', 111),
      (''NVML_FI_DEV_NVLINK_REPLAY_ERROR_COUNT_L10'', 112),
      (''NVML_FI_DEV_NVLINK_REPLAY_ERROR_COUNT_L11'', 113),
      (''NVML_FI_DEV_NVLINK_RECOVERY_ERROR_COUNT_L6'', 114),
      (''NVML_FI_DEV_NVLINK_RECOVERY_ERROR_COUNT_L7'', 115),
      (''NVML_FI_DEV_NVLINK_RECOVERY_ERROR_COUNT_L8'', 116),
      (''NVML_FI_DEV_NVLINK_RECOVERY_ERROR_COUNT_L9'', 117),
      (''NVML_FI_DEV_NVLINK_RECOVERY_ERROR_COUNT_L10'', 118),
      (''NVML_FI_DEV_NVLINK_RECOVERY_ERROR_COUNT_L11'', 119),
      (''NVML_FI_DEV_NVLINK_BANDWIDTH_C0_L6'', 120), (''NVML_FI_DEV_NVLINK_BANDWIDTH_C0_L7'', 121),
      (''NVML_FI_DEV_NVLINK_BANDWIDTH_C0_L8'', 122), (''NVML_FI_DEV_NVLINK_BANDWIDTH_C0_L9'', 123),
      (''NVML_FI_DEV_NVLINK_BANDWIDTH_C0_L10'', 124),
      (''NVML_FI_DEV_NVLINK_BANDWIDTH_C0_L11'', 125), (''NVML_FI_DEV_NVLINK_BANDWIDTH_C1_L6'', 126),
      (''NVML_FI_DEV_NVLINK_BANDWIDTH_C1_L7'', 127), (''NVML_FI_DEV_NVLINK_BANDWIDTH_C1_L8'', 128),
      (''NVML_FI_DEV_NVLINK_BANDWIDTH_C1_L9'', 129), (''NVML_FI_DEV_NVLINK_BANDWIDTH_C1_L10'', 130),
      (''NVML_FI_DEV_NVLINK_BANDWIDTH_C1_L11'', 131), (''NVML_FI_DEV_NVLINK_SPEED_MBPS_L6'', 132),
      (''NVML_FI_DEV_NVLINK_SPEED_MBPS_L7'', 133), (''NVML_FI_DEV_NVLINK_SPEED_MBPS_L8'', 134),
      (''NVML_FI_DEV_NVLINK_SPEED_MBPS_L9'', 135), (''NVML_FI_DEV_NVLINK_SPEED_MBPS_L10'', 136),
      (''NVML_FI_DEV_NVLINK_SPEED_MBPS_L11'', 137),
      (''NVML_FI_DEV_NVLINK_THROUGHPUT_DATA_TX'', 138),
      (''NVML_FI_DEV_NVLINK_THROUGHPUT_DATA_RX'', 139),
      (''NVML_FI_DEV_NVLINK_THROUGHPUT_RAW_TX'', 140),
      (''NVML_FI_DEV_NVLINK_THROUGHPUT_RAW_RX'', 141), (''NVML_FI_DEV_REMAPPED_COR'', 142),
      (''NVML_FI_DEV_REMAPPED_UNC'', 143), (''NVML_FI_DEV_REMAPPED_PENDING'', 144),
      (''NVML_FI_DEV_REMAPPED_FAILURE'', 145), (''NVML_FI_DEV_NVLINK_REMOTE_NVLINK_ID'', 146),
      (''NVML_FI_DEV_NVSWITCH_CONNECTED_LINK_COUNT'', 147),
      (''NVML_FI_DEV_NVLINK_ECC_DATA_ERROR_COUNT_L0'', 148),
      (''NVML_FI_DEV_NVLINK_ECC_DATA_ERROR_COUNT_L1'', 149),
      (''NVML_FI_DEV_NVLINK_ECC_DATA_ERROR_COUNT_L2'', 150),
      (''NVML_FI_DEV_NVLINK_ECC_DATA_ERROR_COUNT_L3'', 151),
      (''NVML_FI_DEV_NVLINK_ECC_DATA_ERROR_COUNT_L4'', 152),
      (''NVML_FI_DEV_NVLINK_ECC_DATA_ERROR_COUNT_L5'', 153),
      (''NVML_FI_DEV_NVLINK_ECC_DATA_ERROR_COUNT_L6'', 154),
      (''NVML_FI_DEV_NVLINK_ECC_DATA_ERROR_COUNT_L7'', 155),
      (''NVML_FI_DEV_NVLINK_ECC_DATA_ERROR_COUNT_L8'', 156),
      (''NVML_FI_DEV_NVLINK_ECC_DATA_ERROR_COUNT_L9'', 157),
      (''NVML_FI_DEV_NVLINK_ECC_DATA_ERROR_COUNT_L10'', 158),
      (''NVML_FI_DEV_NVLINK_ECC_DATA_ERROR_COUNT_L11'', 159),
      (''NVML_FI_DEV_NVLINK_ECC_DATA_ERROR_COUNT_TOTAL'', 160),
      (''NVML_FI_DEV_NVLINK_ERROR_DL_REPLAY'', 161)]"

definition nvml_field_ids_3 :: "(string \<times> int) list" where
  "nvml_field_ids_3 =
     [(''NVML_FI_DEV_NVLINK_ERROR_DL_RECOVERY'', 162), (''NVML_FI_DEV_NVLINK_ERROR_DL_CRC'', 163),
      (''NVML_FI_DEV_NVLINK_GET_SPEED'', 164), (''NVML_FI_DEV_NVLINK_GET_STATE'', 165),
      (''NVML_FI_DEV_NVLINK_GET_VERSION'', 166), (''NVML_FI_DEV_NVLINK_GET_POWER_STATE'', 167),
      (''NVML_FI_DEV_NVLINK_GET_POWER_THRESHOLD'', 168),
      (''NVML_FI_DEV_PCIE_L0_TO_RECOVERY_COUNTER'', 169), (''NVML_FI_DEV_C2C_LINK_COUNT'', 170),
      (''NVML_FI_DEV_C2C_LINK_GET_STATUS'', 171), (''NVML_FI_DEV_C2C_LINK_GET_MAX_BW'', 172),
      (''NVML_FI_DEV_PCIE_COUNT_CORRECTABLE_ERRORS'', 173),
      (''NVML_FI_DEV_PCIE_COUNT_NAKS_RECEIVED'', 174),
      (''NVML_FI_DEV_PCIE_COUNT_RECEIVER_ERROR'', 175), (''NVML_FI_DEV_PCIE_COUNT_BAD_TLP'', 176),
      (''NVML_FI_DEV_PCIE_COUNT_NAKS_SENT'', 177), (''NVML_FI_DEV_PCIE_COUNT_BAD_DLLP'', 178),
      (''NVML_FI_DEV_PCIE_COUNT_NON_FATAL_ERROR'', 179),
      (''NVML_FI_DEV_PCIE_COUNT_FATAL_ERROR'', 180),
      (''NVML_FI_DEV_PCIE_COUNT_UNSUPPORTED_REQ'', 181),
      (''NVML_FI_DEV_PCIE_COUNT_LCRC_ERROR'', 182), (''NVML_FI_DEV_PCIE_COUNT_LANE_ERROR'', 183),
      (''NVML_FI_DEV_IS_RESETLESS_MIG_SUPPORTED'', 184), (''NVML_FI_DEV_POWER_AVERAGE'', 185),
      (''NVML_FI_DEV_POWER_INSTANT'', 186), (''NVML_FI_DEV_POWER_MIN_LIMIT'', 187),
      (''NVML_FI_DEV_POWER_MAX_LIMIT'', 188), (''NVML_FI_DEV_POWER_DEFAULT_LIMIT'', 189),
      (''NVML_FI_DEV_POWER_CURRENT_LIMIT'', 190), (''NVML_FI_DEV_ENERGY'', 191),
      (''NVML_FI_DEV_POWER_REQUESTED_LIMIT'', 192),
      (''NVML_FI_DEV_TEMPERATURE_SHUTDOWN_TLIMIT'', 193),
      (''NVML_FI_DEV_TEMPERATURE_SLOWDOWN_TLIMIT'', 194),
      (''NVML_FI_DEV_TEMPERATURE_MEM_MAX_TLIMIT'', 195),
      (''NVML_FI_DEV_TEMPERATURE_GPU_MAX_TLIMIT'', 196), (''NVML_FI_DEV_PCIE_COUNT_TX_BYTES'', 197),
      (''NVML_FI_DEV_PCIE_COUNT_RX_BYTES'', 198),
      (''NVML_FI_DEV_IS_MIG_MODE_INDEPENDENT_MIG_QUERY_CAPABLE'', 199),
      (''NVML_FI_DEV_NVLINK_GET_POWER_THRESHOLD_MAX'', 200),
      (''NVML_FI_DEV_NVLINK_COUNT_XMIT_PACKETS'', 201),
      (''NVML_FI_DEV_NVLINK_COUNT_XMIT_BYTES'', 202),
      (''NVML_FI_DEV_NVLINK_COUNT_RCV_PACKETS'', 203),
      (''NVML_FI_DEV_NVLINK_COUNT_RCV_BYTES'', 204),
      (''NVML_FI_DEV_NVLINK_COUNT_VL15_DROPPED'', 205),
      (''NVML_FI_DEV_NVLINK_COUNT_MALFORMED_PACKET_ERRORS'', 206),
      (''NVML_FI_DEV_NVLINK_COUNT_BUFFER_OVERRUN_ERRORS'', 207),
      (''NVML_FI_DEV_NVLINK_COUNT_RCV_ERRORS'', 208),
      (''NVML_FI_DEV_NVLINK_COUNT_RCV_REMOTE_ERRORS'', 209),
      (''NVML_FI_DEV_NVLINK_COUNT_RCV_GENERAL_ERRORS'', 210),
      (''NVML_FI_DEV_NVLINK_COUNT_LOCAL_LINK_INTEGRITY_ERRORS'', 211),
      (''NVML_FI_DEV_NVLINK_COUNT_XMIT_DISCARDS'', 212),
      (''NVML_FI_DEV_NVLINK_COUNT_LINK_RECOVERY_SUCCESSFUL_EVENTS'', 213),
      (''NVML_FI_DEV_NVLINK_COUNT_LINK_RECOVERY_FAILED_EVENTS'', 214),
      (''NVML_FI_DEV_NVLINK_COUNT_LINK_RECOVERY_EVENTS'', 215),
      (''NVML_FI_DEV_NVLINK_COUNT_RAW_BER_LANE0'', 216),
      (''NVML_FI_DEV_NVLINK_COUNT_RAW_BER_LANE1'', 217),
      (''NVML_FI_DEV_NVLINK_COUNT_RAW_BER'', 218),
      (''NVML_FI_DEV_NVLINK_COUNT_EFFECTIVE_ERRORS'', 219),
      (''NVML_FI_DEV_NVLINK_COUNT_EFFECTIVE_BER'', 220),
      (''NVML_FI_DEV_NVLINK_COUNT_SYMBOL_ERRORS'', 221)]"

definition nvml_field_ids_4 :: "(string \<times> int) list" where
  "nvml_field_ids_4 =
     [(''NVML_FI_DEV_NVLINK_COUNT_SYMBOL_BER'', 222),
      (''NVML_FI_DEV_NVLINK_GET_POWER_THRESHOLD_MIN'', 223),
      (''NVML_FI_DEV_NVLINK_GET_POWER_THRESHOLD_UNITS'', 224),
      (''NVML_FI_DEV_NVLINK_GET_POWER_THRESHOLD_SUPPORTED'', 225),
      (''NVML_FI_DEV_RESET_STATUS'', 226), (''NVML_FI_DEV_DRAIN_AND_RESET_STATUS'', 227),
      (''NVML_FI_DEV_PCIE_OUTBOUND_ATOMICS_MASK'', 228),
      (''NVML_FI_DEV_PCIE_INBOUND_ATOMICS_MASK'', 229),
      (''NVML_FI_DEV_GET_GPU_RECOVERY_ACTION'', 230), (''NVML_FI_DEV_C2C_LINK_ERROR_INTR'', 231),
      (''NVML_FI_DEV_C2C_LINK_ERROR_REPLAY'', 232),
      (''NVML_FI_DEV_C2C_LINK_ERROR_REPLAY_B2B'', 233), (''NVML_FI_DEV_C2C_LINK_POWER_STATE'', 234),
      (''NVML_FI_DEV_NVLINK_COUNT_FEC_HISTORY_0'', 235),
      (''NVML_FI_DEV_NVLINK_COUNT_FEC_HISTORY_1'', 236),
      (''NVML_FI_DEV_NVLINK_COUNT_FEC_HISTORY_2'', 237),
      (''NVML_FI_DEV_NVLINK_COUNT_FEC_HISTORY_3'', 238),
      (''NVML_FI_DEV_NVLINK_COUNT_FEC_HISTORY_4'', 239),
      (''NVML_FI_DEV_NVLINK_COUNT_FEC_HISTORY_5'', 240),
      (''NVML_FI_DEV_NVLINK_COUNT_FEC_HISTORY_6'', 241),
      (''NVML_FI_DEV_NVLINK_COUNT_FEC_HISTORY_7'', 242),
      (''NVML_FI_DEV_NVLINK_COUNT_FEC_HISTORY_8'', 243),
      (''NVML_FI_DEV_NVLINK_COUNT_FEC_HISTORY_9'', 244),
      (''NVML_FI_DEV_NVLINK_COUNT_FEC_HISTORY_10'', 245),
      (''NVML_FI_DEV_NVLINK_COUNT_FEC_HISTORY_11'', 246),
      (''NVML_FI_DEV_NVLINK_COUNT_FEC_HISTORY_12'', 247),
      (''NVML_FI_DEV_NVLINK_COUNT_FEC_HISTORY_13'', 248),
      (''NVML_FI_DEV_NVLINK_COUNT_FEC_HISTORY_14'', 249),
      (''NVML_FI_DEV_NVLINK_COUNT_FEC_HISTORY_15'', 250), (''NVML_FI_PWR_SMOOTHING_ENABLED'', 251),
      (''NVML_FI_PWR_SMOOTHING_PRIV_LVL'', 252),
      (''NVML_FI_PWR_SMOOTHING_IMM_RAMP_DOWN_ENABLED'', 253),
      (''NVML_FI_PWR_SMOOTHING_APPLIED_TMP_CEIL'', 254),
      (''NVML_FI_PWR_SMOOTHING_APPLIED_TMP_FLOOR'', 255),
      (''NVML_FI_PWR_SMOOTHING_MAX_PERCENT_TMP_FLOOR_SETTING'', 256),
      (''NVML_FI_PWR_SMOOTHING_MIN_PERCENT_TMP_FLOOR_SETTING'', 257),
      (''NVML_FI_PWR_SMOOTHING_HW_CIRCUITRY_PERCENT_LIFETIME_REMAINING'', 258),
      (''NVML_FI_PWR_SMOOTHING_MAX_NUM_PRESET_PROFILES'', 259),
      (''NVML_FI_PWR_SMOOTHING_PROFILE_PERCENT_TMP_FLOOR'', 260),
      (''NVML_FI_PWR_SMOOTHING_PROFILE_RAMP_UP_RATE'', 261),
      (''NVML_FI_PWR_SMOOTHING_PROFILE_RAMP_DOWN_RATE'', 262),
      (''NVML_FI_PWR_SMOOTHING_PROFILE_RAMP_DOWN_HYST_VAL'', 263),
      (''NVML_FI_PWR_SMOOTHING_ACTIVE_PRESET_PROFILE'', 264),
      (''NVML_FI_PWR_SMOOTHING_ADMIN_OVERRIDE_PERCENT_TMP_FLOOR'', 265),
      (''NVML_FI_PWR_SMOOTHING_ADMIN_OVERRIDE_RAMP_UP_RATE'', 266),
      (''NVML_FI_PWR_SMOOTHING_ADMIN_OVERRIDE_RAMP_DOWN_RATE'', 267),
      (''NVML_FI_PWR_SMOOTHING_ADMIN_OVERRIDE_RAMP_DOWN_HYST_VAL'', 268),
      (''NVML_FI_DEV_CLOCKS_EVENT_REASON_SW_THERM_SLOWDOWN'', 269),
      (''NVML_FI_DEV_CLOCKS_EVENT_REASON_HW_THERM_SLOWDOWN'', 270),
      (''NVML_FI_DEV_CLOCKS_EVENT_REASON_HW_POWER_BRAKE_SLOWDOWN'', 271),
      (''NVML_FI_DEV_POWER_SYNC_BALANCING_FREQ'', 272),
      (''NVML_FI_DEV_POWER_SYNC_BALANCING_AF'', 273)]"

text \<open>Two of the macros are other names of a field above.\<close>

definition nvml_field_aliases :: "(string \<times> string) list" where
  "nvml_field_aliases =
     [(''NVML_FI_DEV_CLOCKS_EVENT_REASON_SW_POWER_CAP'', ''NVML_FI_DEV_PERF_POLICY_POWER''),
      (''NVML_FI_DEV_CLOCKS_EVENT_REASON_SYNC_BOOST'', ''NVML_FI_DEV_PERF_POLICY_SYNC_BOOST'')]"

definition NVML_FI_MAX :: int where
  "NVML_FI_MAX = 274"

definition nvml_field_ids :: "(string \<times> int) list" where
  "nvml_field_ids = nvml_field_ids_1 @ nvml_field_ids_2 @ nvml_field_ids_3 @ nvml_field_ids_4"

section \<open>Event types and clock event reasons\<close>

text \<open>
  The macros of a mask are 64 bit literals.  \<^verbatim>\<open>nvmlEventTypeAll\<close> and \<^verbatim>\<open>nvmlClocksEventReasonAll\<close>
  are written as the macros write them: the disjunction of the constants they name.
\<close>

fun macro_value :: "(string \<times> u64) list \<Rightarrow> string \<Rightarrow> u64" where
  "macro_value tab n = (case map_of tab n of Some v \<Rightarrow> v | None \<Rightarrow> 0)"

definition mask_of :: "(string \<times> u64) list \<Rightarrow> string list \<Rightarrow> u64" where
  "mask_of tab ns = foldr (\<lambda>n m. macro_value tab n OR m) ns 0"

definition nvmlEventTypes :: "(string \<times> u64) list" where
  "nvmlEventTypes =
     [(''nvmlEventTypeNone'', 0), (''nvmlEventTypeSingleBitEccError'', 1),
      (''nvmlEventTypeDoubleBitEccError'', 2), (''nvmlEventTypePState'', 4),
      (''nvmlEventTypeXidCriticalError'', 8), (''nvmlEventTypeClock'', 16),
      (''nvmlEventTypePowerSourceChange'', 128), (''nvmlEventMigConfigChange'', 256),
      (''nvmlEventTypeSingleBitEccErrorStorm'', 512), (''nvmlEventTypeDramRetirementEvent'', 1024),
      (''nvmlEventTypeDramRetirementFailure'', 2048), (''nvmlEventTypeNonFatalPoisonError'', 4096),
      (''nvmlEventTypeFatalPoisonError'', 8192), (''nvmlEventTypeGpuUnavailableError'', 16384),
      (''nvmlEventTypeGpuRecoveryAction'', 32768)]"

definition nvmlClocksEventReasons :: "(string \<times> u64) list" where
  "nvmlClocksEventReasons =
     [(''nvmlClocksEventReasonGpuIdle'', 1),
      (''nvmlClocksEventReasonApplicationsClocksSetting'', 2),
      (''nvmlClocksEventReasonSwPowerCap'', 4), (''nvmlClocksThrottleReasonHwSlowdown'', 8),
      (''nvmlClocksEventReasonSyncBoost'', 16), (''nvmlClocksEventReasonSwThermalSlowdown'', 32),
      (''nvmlClocksThrottleReasonHwThermalSlowdown'', 64),
      (''nvmlClocksThrottleReasonHwPowerBrakeSlowdown'', 128),
      (''nvmlClocksEventReasonDisplayClockSetting'', 256), (''nvmlClocksEventReasonNone'', 0)]"

text \<open>The older names of the reasons.\<close>

definition nvmlClocksDeprecatedReasons :: "(string \<times> string) list" where
  "nvmlClocksDeprecatedReasons =
     [(''nvmlClocksThrottleReasonUserDefinedClocks'', ''nvmlClocksEventReasonApplicationsClocksSetting'')]"

definition nvmlClocksThrottleReasons :: "(string \<times> string) list" where
  "nvmlClocksThrottleReasons =
     [(''nvmlClocksThrottleReasonGpuIdle'', ''nvmlClocksEventReasonGpuIdle''),
      (''nvmlClocksThrottleReasonApplicationsClocksSetting'', ''nvmlClocksEventReasonApplicationsClocksSetting''),
      (''nvmlClocksThrottleReasonSyncBoost'', ''nvmlClocksEventReasonSyncBoost''),
      (''nvmlClocksThrottleReasonSwPowerCap'', ''nvmlClocksEventReasonSwPowerCap''),
      (''nvmlClocksThrottleReasonSwThermalSlowdown'', ''nvmlClocksEventReasonSwThermalSlowdown''),
      (''nvmlClocksThrottleReasonDisplayClockSetting'', ''nvmlClocksEventReasonDisplayClockSetting''),
      (''nvmlClocksThrottleReasonNone'', ''nvmlClocksEventReasonNone'')]"

definition nvml_reason_table :: "(string \<times> u64) list" where
  "nvml_reason_table = nvmlClocksEventReasons @
     map (\<lambda>(old, new). (old, macro_value nvmlClocksEventReasons new))
       (nvmlClocksDeprecatedReasons @ nvmlClocksThrottleReasons)"

definition nvmlEventTypeAll :: u64 where
  "nvmlEventTypeAll = mask_of nvmlEventTypes
     [''nvmlEventTypeNone'', ''nvmlEventTypeSingleBitEccError'', ''nvmlEventTypeDoubleBitEccError'',
      ''nvmlEventTypePState'', ''nvmlEventTypeClock'', ''nvmlEventTypeXidCriticalError'',
      ''nvmlEventTypePowerSourceChange'', ''nvmlEventMigConfigChange'',
      ''nvmlEventTypeSingleBitEccErrorStorm'', ''nvmlEventTypeDramRetirementEvent'',
      ''nvmlEventTypeDramRetirementFailure'', ''nvmlEventTypeNonFatalPoisonError'',
      ''nvmlEventTypeFatalPoisonError'', ''nvmlEventTypeGpuUnavailableError'',
      ''nvmlEventTypeGpuRecoveryAction'']"

definition nvmlClocksEventReasonAll :: u64 where
  "nvmlClocksEventReasonAll = mask_of nvml_reason_table
     [''nvmlClocksThrottleReasonNone'', ''nvmlClocksEventReasonGpuIdle'',
      ''nvmlClocksEventReasonApplicationsClocksSetting'', ''nvmlClocksEventReasonSwPowerCap'',
      ''nvmlClocksThrottleReasonHwSlowdown'', ''nvmlClocksEventReasonSyncBoost'',
      ''nvmlClocksEventReasonSwThermalSlowdown'', ''nvmlClocksThrottleReasonHwThermalSlowdown'',
      ''nvmlClocksThrottleReasonHwPowerBrakeSlowdown'',
      ''nvmlClocksEventReasonDisplayClockSetting'']"

section \<open>Groups of codes\<close>

definition nvml_power_mizer_modes :: "(string \<times> int) list" where
  "nvml_power_mizer_modes =
     [(''NVML_POWER_MIZER_MODE_ADAPTIVE'', 0),
      (''NVML_POWER_MIZER_MODE_PREFER_MAXIMUM_PERFORMANCE'', 1),
      (''NVML_POWER_MIZER_MODE_AUTO'', 2),
      (''NVML_POWER_MIZER_MODE_PREFER_CONSISTENT_PERFORMANCE'', 3)]"

definition nvml_device_archs :: "(string \<times> int) list" where
  "nvml_device_archs =
     [(''NVML_DEVICE_ARCH_KEPLER'', 2), (''NVML_DEVICE_ARCH_MAXWELL'', 3),
      (''NVML_DEVICE_ARCH_PASCAL'', 4), (''NVML_DEVICE_ARCH_VOLTA'', 5),
      (''NVML_DEVICE_ARCH_TURING'', 6), (''NVML_DEVICE_ARCH_AMPERE'', 7),
      (''NVML_DEVICE_ARCH_ADA'', 8), (''NVML_DEVICE_ARCH_HOPPER'', 9),
      (''NVML_DEVICE_ARCH_BLACKWELL'', 10), (''NVML_DEVICE_ARCH_UNKNOWN'', 4294967295)]"

definition nvml_bus_types :: "(string \<times> int) list" where
  "nvml_bus_types =
     [(''NVML_BUS_TYPE_UNKNOWN'', 0), (''NVML_BUS_TYPE_PCI'', 1), (''NVML_BUS_TYPE_PCIE'', 2),
      (''NVML_BUS_TYPE_FPCI'', 3), (''NVML_BUS_TYPE_AGP'', 4)]"

definition nvml_fan_policies :: "(string \<times> int) list" where
  "nvml_fan_policies =
     [(''NVML_FAN_POLICY_TEMPERATURE_CONTINOUS_SW'', 0), (''NVML_FAN_POLICY_MANUAL'', 1)]"

definition nvml_power_sources :: "(string \<times> int) list" where
  "nvml_power_sources =
     [(''NVML_POWER_SOURCE_AC'', 0), (''NVML_POWER_SOURCE_BATTERY'', 1),
      (''NVML_POWER_SOURCE_UNDERSIZED'', 2)]"

definition nvml_pcie_speeds :: "(string \<times> int) list" where
  "nvml_pcie_speeds =
     [(''NVML_PCIE_LINK_MAX_SPEED_INVALID'', 0), (''NVML_PCIE_LINK_MAX_SPEED_2500MBPS'', 1),
      (''NVML_PCIE_LINK_MAX_SPEED_5000MBPS'', 2), (''NVML_PCIE_LINK_MAX_SPEED_8000MBPS'', 3),
      (''NVML_PCIE_LINK_MAX_SPEED_16000MBPS'', 4), (''NVML_PCIE_LINK_MAX_SPEED_32000MBPS'', 5),
      (''NVML_PCIE_LINK_MAX_SPEED_64000MBPS'', 6)]"

definition nvml_adaptive_clocking :: "(string \<times> int) list" where
  "nvml_adaptive_clocking =
     [(''NVML_ADAPTIVE_CLOCKING_INFO_STATUS_DISABLED'', 0),
      (''NVML_ADAPTIVE_CLOCKING_INFO_STATUS_ENABLED'', 1)]"

definition nvml_pcie_atomics :: "(string \<times> int) list" where
  "nvml_pcie_atomics =
     [(''NVML_PCIE_ATOMICS_CAP_FETCHADD32'', 1), (''NVML_PCIE_ATOMICS_CAP_FETCHADD64'', 2),
      (''NVML_PCIE_ATOMICS_CAP_SWAP32'', 4), (''NVML_PCIE_ATOMICS_CAP_SWAP64'', 8),
      (''NVML_PCIE_ATOMICS_CAP_CAS32'', 16), (''NVML_PCIE_ATOMICS_CAP_CAS64'', 32),
      (''NVML_PCIE_ATOMICS_CAP_CAS128'', 64)]"

definition nvml_power_scopes :: "(string \<times> int) list" where
  "nvml_power_scopes =
     [(''NVML_POWER_SCOPE_GPU'', 0), (''NVML_POWER_SCOPE_MODULE'', 1),
      (''NVML_POWER_SCOPE_MEMORY'', 2)]"

definition nvml_license_expiry :: "(string \<times> int) list" where
  "nvml_license_expiry =
     [(''NVML_GRID_LICENSE_EXPIRY_NOT_AVAILABLE'', 0), (''NVML_GRID_LICENSE_EXPIRY_INVALID'', 1),
      (''NVML_GRID_LICENSE_EXPIRY_VALID'', 2), (''NVML_GRID_LICENSE_EXPIRY_NOT_APPLICABLE'', 3),
      (''NVML_GRID_LICENSE_EXPIRY_PERMANENT'', 4)]"

definition nvml_scheduler_policies :: "(string \<times> int) list" where
  "nvml_scheduler_policies =
     [(''NVML_VGPU_SCHEDULER_POLICY_UNKNOWN'', 0), (''NVML_VGPU_SCHEDULER_POLICY_BEST_EFFORT'', 1),
      (''NVML_VGPU_SCHEDULER_POLICY_EQUAL_SHARE'', 2),
      (''NVML_VGPU_SCHEDULER_POLICY_FIXED_SHARE'', 3)]"

definition nvml_scheduler_arr :: "(string \<times> int) list" where
  "nvml_scheduler_arr =
     [(''NVML_VGPU_SCHEDULER_ARR_DEFAULT'', 0), (''NVML_VGPU_SCHEDULER_ARR_DISABLE'', 1),
      (''NVML_VGPU_SCHEDULER_ARR_ENABLE'', 2)]"

definition nvml_license_states :: "(string \<times> int) list" where
  "nvml_license_states =
     [(''NVML_GRID_LICENSE_STATE_UNKNOWN'', 0), (''NVML_GRID_LICENSE_STATE_UNINITIALIZED'', 1),
      (''NVML_GRID_LICENSE_STATE_UNLICENSED_UNRESTRICTED'', 2),
      (''NVML_GRID_LICENSE_STATE_UNLICENSED_RESTRICTED'', 3),
      (''NVML_GRID_LICENSE_STATE_UNLICENSED'', 4), (''NVML_GRID_LICENSE_STATE_LICENSED'', 5)]"

definition nvml_low_power_units :: "(string \<times> int) list" where
  "nvml_low_power_units =
     [(''NVML_NVLINK_LOW_POWER_THRESHOLD_UNIT_100US'', 0),
      (''NVML_NVLINK_LOW_POWER_THRESHOLD_UNIT_50US'', 1)]"

definition nvml_nvlink_power_states :: "(string \<times> int) list" where
  "nvml_nvlink_power_states =
     [(''NVML_NVLINK_POWER_STATE_HIGH_SPEED'', 0), (''NVML_NVLINK_POWER_STATE_LOW'', 1)]"

definition nvml_c2c_power_states :: "(string \<times> int) list" where
  "nvml_c2c_power_states =
     [(''NVML_C2C_POWER_STATE_FULL_POWER'', 0), (''NVML_C2C_POWER_STATE_LOW_POWER'', 1)]"

definition nvml_fbc_flags :: "(string \<times> int) list" where
  "nvml_fbc_flags =
     [(''NVML_NVFBC_SESSION_FLAG_DIFFMAP_ENABLED'', 1),
      (''NVML_NVFBC_SESSION_FLAG_CLASSIFICATIONMAP_ENABLED'', 2),
      (''NVML_NVFBC_SESSION_FLAG_CAPTURE_WITH_WAIT_NO_WAIT'', 4),
      (''NVML_NVFBC_SESSION_FLAG_CAPTURE_WITH_WAIT_INFINITE'', 8),
      (''NVML_NVFBC_SESSION_FLAG_CAPTURE_WITH_WAIT_TIMEOUT'', 16)]"

definition nvml_cc_cpu_caps :: "(string \<times> int) list" where
  "nvml_cc_cpu_caps =
     [(''NVML_CC_SYSTEM_CPU_CAPS_NONE'', 0), (''NVML_CC_SYSTEM_CPU_CAPS_AMD_SEV'', 1),
      (''NVML_CC_SYSTEM_CPU_CAPS_INTEL_TDX'', 2), (''NVML_CC_SYSTEM_CPU_CAPS_AMD_SEV_SNP'', 3),
      (''NVML_CC_SYSTEM_CPU_CAPS_AMD_SNP_VTOM'', 4)]"

definition nvml_cc_gpu_caps :: "(string \<times> int) list" where
  "nvml_cc_gpu_caps =
     [(''NVML_CC_SYSTEM_GPUS_CC_NOT_CAPABLE'', 0), (''NVML_CC_SYSTEM_GPUS_CC_CAPABLE'', 1)]"

definition nvml_cc_devtools :: "(string \<times> int) list" where
  "nvml_cc_devtools =
     [(''NVML_CC_SYSTEM_DEVTOOLS_MODE_OFF'', 0), (''NVML_CC_SYSTEM_DEVTOOLS_MODE_ON'', 1)]"

definition nvml_cc_environments :: "(string \<times> int) list" where
  "nvml_cc_environments =
     [(''NVML_CC_SYSTEM_ENVIRONMENT_UNAVAILABLE'', 0), (''NVML_CC_SYSTEM_ENVIRONMENT_SIM'', 1),
      (''NVML_CC_SYSTEM_ENVIRONMENT_PROD'', 2)]"

definition nvml_cc_features :: "(string \<times> int) list" where
  "nvml_cc_features =
     [(''NVML_CC_SYSTEM_FEATURE_DISABLED'', 0), (''NVML_CC_SYSTEM_FEATURE_ENABLED'', 1)]"

definition nvml_cc_multigpu :: "(string \<times> int) list" where
  "nvml_cc_multigpu =
     [(''NVML_CC_SYSTEM_MULTIGPU_NONE'', 0), (''NVML_CC_SYSTEM_MULTIGPU_PROTECTED_PCIE'', 1),
      (''NVML_CC_SYSTEM_MULTIGPU_NVLE'', 2)]"

definition nvml_fabric_states :: "(string \<times> int) list" where
  "nvml_fabric_states =
     [(''NVML_GPU_FABRIC_STATE_NOT_SUPPORTED'', 0), (''NVML_GPU_FABRIC_STATE_NOT_STARTED'', 1),
      (''NVML_GPU_FABRIC_STATE_IN_PROGRESS'', 2), (''NVML_GPU_FABRIC_STATE_COMPLETED'', 3)]"

definition nvml_fabric_summaries :: "(string \<times> int) list" where
  "nvml_fabric_summaries =
     [(''NVML_GPU_FABRIC_HEALTH_SUMMARY_NOT_SUPPORTED'', 0),
      (''NVML_GPU_FABRIC_HEALTH_SUMMARY_HEALTHY'', 1),
      (''NVML_GPU_FABRIC_HEALTH_SUMMARY_UNHEALTHY'', 2),
      (''NVML_GPU_FABRIC_HEALTH_SUMMARY_LIMITED_CAPACITY'', 3)]"

definition nvml_nvlink_states :: "(string \<times> int) list" where
  "nvml_nvlink_states =
     [(''NVML_NVLINK_STATE_INACTIVE'', 0), (''NVML_NVLINK_STATE_ACTIVE'', 1),
      (''NVML_NVLINK_STATE_SLEEP'', 2)]"

definition nvml_ucode_types :: "(string \<times> int) list" where
  "nvml_ucode_types =
     [(''NVML_NVLINK_FIRMWARE_UCODE_TYPE_MSE'', 1), (''NVML_NVLINK_FIRMWARE_UCODE_TYPE_NETIR'', 2),
      (''NVML_NVLINK_FIRMWARE_UCODE_TYPE_NETIR_UPHY'', 3),
      (''NVML_NVLINK_FIRMWARE_UCODE_TYPE_NETIR_CLN'', 4),
      (''NVML_NVLINK_FIRMWARE_UCODE_TYPE_NETIR_DLN'', 5)]"

definition nvml_mig_modes :: "(string \<times> int) list" where
  "nvml_mig_modes =
     [(''NVML_DEVICE_MIG_DISABLE'', 0), (''NVML_DEVICE_MIG_ENABLE'', 1)]"

definition nvml_gpu_profiles :: "(string \<times> int) list" where
  "nvml_gpu_profiles =
     [(''NVML_GPU_INSTANCE_PROFILE_1_SLICE'', 0), (''NVML_GPU_INSTANCE_PROFILE_2_SLICE'', 1),
      (''NVML_GPU_INSTANCE_PROFILE_3_SLICE'', 2), (''NVML_GPU_INSTANCE_PROFILE_4_SLICE'', 3),
      (''NVML_GPU_INSTANCE_PROFILE_7_SLICE'', 4), (''NVML_GPU_INSTANCE_PROFILE_8_SLICE'', 5),
      (''NVML_GPU_INSTANCE_PROFILE_6_SLICE'', 6), (''NVML_GPU_INSTANCE_PROFILE_1_SLICE_REV1'', 7),
      (''NVML_GPU_INSTANCE_PROFILE_2_SLICE_REV1'', 8),
      (''NVML_GPU_INSTANCE_PROFILE_1_SLICE_REV2'', 9),
      (''NVML_GPU_INSTANCE_PROFILE_1_SLICE_GFX'', 10),
      (''NVML_GPU_INSTANCE_PROFILE_2_SLICE_GFX'', 11),
      (''NVML_GPU_INSTANCE_PROFILE_4_SLICE_GFX'', 12),
      (''NVML_GPU_INSTANCE_PROFILE_1_SLICE_NO_ME'', 13),
      (''NVML_GPU_INSTANCE_PROFILE_2_SLICE_NO_ME'', 14),
      (''NVML_GPU_INSTANCE_PROFILE_1_SLICE_ALL_ME'', 15),
      (''NVML_GPU_INSTANCE_PROFILE_2_SLICE_ALL_ME'', 16), (''NVML_GPU_INSTANCE_PROFILE_COUNT'', 17)]"

definition nvml_gpu_profile_caps :: "(string \<times> int) list" where
  "nvml_gpu_profile_caps =
     [(''NVML_GPU_INSTANCE_PROFILE_CAPS_P2P'', 1), (''NVML_GPU_INTSTANCE_PROFILE_CAPS_P2P'', 1),
      (''NVML_GPU_INSTANCE_PROFILE_CAPS_GFX'', 2)]"

definition nvml_compute_profiles :: "(string \<times> int) list" where
  "nvml_compute_profiles =
     [(''NVML_COMPUTE_INSTANCE_PROFILE_1_SLICE'', 0),
      (''NVML_COMPUTE_INSTANCE_PROFILE_2_SLICE'', 1),
      (''NVML_COMPUTE_INSTANCE_PROFILE_3_SLICE'', 2),
      (''NVML_COMPUTE_INSTANCE_PROFILE_4_SLICE'', 3),
      (''NVML_COMPUTE_INSTANCE_PROFILE_7_SLICE'', 4),
      (''NVML_COMPUTE_INSTANCE_PROFILE_8_SLICE'', 5),
      (''NVML_COMPUTE_INSTANCE_PROFILE_6_SLICE'', 6),
      (''NVML_COMPUTE_INSTANCE_PROFILE_1_SLICE_REV1'', 7),
      (''NVML_COMPUTE_INSTANCE_PROFILE_COUNT'', 8)]"

definition nvml_code_groups :: "(string \<times> (string \<times> int) list) list" where
  "nvml_code_groups =
     [(''nvml_power_mizer_modes'', nvml_power_mizer_modes),
      (''nvml_device_archs'', nvml_device_archs), (''nvml_bus_types'', nvml_bus_types),
      (''nvml_fan_policies'', nvml_fan_policies), (''nvml_power_sources'', nvml_power_sources),
      (''nvml_pcie_speeds'', nvml_pcie_speeds),
      (''nvml_adaptive_clocking'', nvml_adaptive_clocking),
      (''nvml_pcie_atomics'', nvml_pcie_atomics), (''nvml_power_scopes'', nvml_power_scopes),
      (''nvml_license_expiry'', nvml_license_expiry),
      (''nvml_scheduler_policies'', nvml_scheduler_policies),
      (''nvml_scheduler_arr'', nvml_scheduler_arr), (''nvml_license_states'', nvml_license_states),
      (''nvml_low_power_units'', nvml_low_power_units),
      (''nvml_nvlink_power_states'', nvml_nvlink_power_states),
      (''nvml_c2c_power_states'', nvml_c2c_power_states), (''nvml_fbc_flags'', nvml_fbc_flags),
      (''nvml_cc_cpu_caps'', nvml_cc_cpu_caps), (''nvml_cc_gpu_caps'', nvml_cc_gpu_caps),
      (''nvml_cc_devtools'', nvml_cc_devtools), (''nvml_cc_environments'', nvml_cc_environments),
      (''nvml_cc_features'', nvml_cc_features), (''nvml_cc_multigpu'', nvml_cc_multigpu),
      (''nvml_fabric_states'', nvml_fabric_states),
      (''nvml_fabric_summaries'', nvml_fabric_summaries),
      (''nvml_nvlink_states'', nvml_nvlink_states), (''nvml_ucode_types'', nvml_ucode_types),
      (''nvml_mig_modes'', nvml_mig_modes), (''nvml_gpu_profiles'', nvml_gpu_profiles),
      (''nvml_compute_profiles'', nvml_compute_profiles)]"

lemmas nvml_code_group_defs =
  nvml_power_mizer_modes_def nvml_device_archs_def nvml_bus_types_def nvml_fan_policies_def
  nvml_power_sources_def nvml_pcie_speeds_def nvml_adaptive_clocking_def nvml_pcie_atomics_def
  nvml_power_scopes_def nvml_license_expiry_def nvml_scheduler_policies_def nvml_scheduler_arr_def
  nvml_license_states_def nvml_low_power_units_def nvml_nvlink_power_states_def nvml_c2c_power_states_def
  nvml_fbc_flags_def nvml_cc_cpu_caps_def nvml_cc_gpu_caps_def nvml_cc_devtools_def
  nvml_cc_environments_def nvml_cc_features_def nvml_cc_multigpu_def nvml_fabric_states_def
  nvml_fabric_summaries_def nvml_nvlink_states_def nvml_ucode_types_def nvml_mig_modes_def
  nvml_gpu_profiles_def nvml_gpu_profile_caps_def nvml_compute_profiles_def

section \<open>The macros that compute\<close>

text \<open>
  The health mask of a fabric packs five fields into one word.  The macro pastes the name of a
  field to the names of its shift and its width, which is a bit mask; here the name is a value.
\<close>

datatype fabric_field = DEGRADED_BW | ROUTE_RECOVERY | ROUTE_UNHEALTHY | ACCESS_TIMEOUT_RECOVERY |
  INCORRECT_CONFIGURATION

fun NVML_GPU_FABRIC_HEALTH_MASK_SHIFT :: "fabric_field \<Rightarrow> nat" where
  "NVML_GPU_FABRIC_HEALTH_MASK_SHIFT DEGRADED_BW = 0"
| "NVML_GPU_FABRIC_HEALTH_MASK_SHIFT ROUTE_RECOVERY = 2"
| "NVML_GPU_FABRIC_HEALTH_MASK_SHIFT ROUTE_UNHEALTHY = 4"
| "NVML_GPU_FABRIC_HEALTH_MASK_SHIFT ACCESS_TIMEOUT_RECOVERY = 6"
| "NVML_GPU_FABRIC_HEALTH_MASK_SHIFT INCORRECT_CONFIGURATION = 8"

fun NVML_GPU_FABRIC_HEALTH_MASK_WIDTH :: "fabric_field \<Rightarrow> u32" where
  "NVML_GPU_FABRIC_HEALTH_MASK_WIDTH DEGRADED_BW = 0x3"
| "NVML_GPU_FABRIC_HEALTH_MASK_WIDTH ROUTE_RECOVERY = 0x3"
| "NVML_GPU_FABRIC_HEALTH_MASK_WIDTH ROUTE_UNHEALTHY = 0x3"
| "NVML_GPU_FABRIC_HEALTH_MASK_WIDTH ACCESS_TIMEOUT_RECOVERY = 0x3"
| "NVML_GPU_FABRIC_HEALTH_MASK_WIDTH INCORRECT_CONFIGURATION = 0xf"

fun NVML_GPU_FABRIC_HEALTH_MASK :: "fabric_field \<Rightarrow> (string \<times> u32) list" where
  "NVML_GPU_FABRIC_HEALTH_MASK DEGRADED_BW =
     [(''_NOT_SUPPORTED'', 0), (''_TRUE'', 1), (''_FALSE'', 2)]"
| "NVML_GPU_FABRIC_HEALTH_MASK ROUTE_RECOVERY =
     [(''_NOT_SUPPORTED'', 0), (''_TRUE'', 1), (''_FALSE'', 2)]"
| "NVML_GPU_FABRIC_HEALTH_MASK ROUTE_UNHEALTHY =
     [(''_NOT_SUPPORTED'', 0), (''_TRUE'', 1), (''_FALSE'', 2)]"
| "NVML_GPU_FABRIC_HEALTH_MASK ACCESS_TIMEOUT_RECOVERY =
     [(''_NOT_SUPPORTED'', 0), (''_TRUE'', 1), (''_FALSE'', 2)]"
| "NVML_GPU_FABRIC_HEALTH_MASK INCORRECT_CONFIGURATION =
     [(''_NOT_SUPPORTED'', 0), (''_NONE'', 1), (''_INCORRECT_SYSGUID'', 2), (''_INCORRECT_CHASSIS_SN'', 3),
      (''_NO_PARTITION'', 4), (''_INSUFFICIENT_NVLINKS'', 5), (''_INCOMPATIBLE_GPU_FW'', 6),
      (''_INVALID_LOCATION'', 7)]"

definition NVML_GPU_FABRIC_HEALTH_GET :: "u32 \<Rightarrow> fabric_field \<Rightarrow> u32" where
  "NVML_GPU_FABRIC_HEALTH_GET var t =
     drop_bit (NVML_GPU_FABRIC_HEALTH_MASK_SHIFT t) var AND NVML_GPU_FABRIC_HEALTH_MASK_WIDTH t"

definition NVML_GPU_FABRIC_HEALTH_TEST :: "u32 \<Rightarrow> fabric_field \<Rightarrow> string \<Rightarrow> bool" where
  "NVML_GPU_FABRIC_HEALTH_TEST var t val \<longleftrightarrow>
     map_of (NVML_GPU_FABRIC_HEALTH_MASK t) val = Some (NVML_GPU_FABRIC_HEALTH_GET var t)"

text \<open>A bit error rate is a mantissa of four bits above an exponent of eight.\<close>

datatype ber_field = BER_MANTISSA | BER_EXP

fun NVML_NVLINK_BER_SHIFT :: "ber_field \<Rightarrow> nat" where
  "NVML_NVLINK_BER_SHIFT BER_MANTISSA = 8"
| "NVML_NVLINK_BER_SHIFT BER_EXP = 0"

fun NVML_NVLINK_BER_WIDTH :: "ber_field \<Rightarrow> u64" where
  "NVML_NVLINK_BER_WIDTH BER_MANTISSA = 0xf"
| "NVML_NVLINK_BER_WIDTH BER_EXP = 0xff"

definition NVML_NVLINK_ERROR_COUNTER_BER_GET :: "u64 \<Rightarrow> ber_field \<Rightarrow> u64" where
  "NVML_NVLINK_ERROR_COUNTER_BER_GET var t = drop_bit (NVML_NVLINK_BER_SHIFT t) var AND NVML_NVLINK_BER_WIDTH t"

text \<open>
  The 255 bit mask is an array of eight words of 32 bits.  An index outside the array is undefined
  behaviour in C, here \<^verbatim>\<open>None\<close>.  The shifted 1 is an int that the assignment converts to
  unsigned, so bit 31 is bit 31 of the word.
\<close>

definition NVML_255_MASK_BITS_PER_ELEM :: nat where
  "NVML_255_MASK_BITS_PER_ELEM = 32"

definition NVML_255_MASK_NUM_ELEMS :: nat where
  "NVML_255_MASK_NUM_ELEMS = 8"

definition NVML_255_MASK_BIT_SET :: "nat \<Rightarrow> u32 list \<Rightarrow> u32 list option" where
  "NVML_255_MASK_BIT_SET index elems =
     (let i = index div NVML_255_MASK_BITS_PER_ELEM in
      if i < length elems
      then Some (elems[i := elems ! i OR push_bit (index mod NVML_255_MASK_BITS_PER_ELEM) 1])
      else None)"

definition NVML_255_MASK_BIT_GET :: "nat \<Rightarrow> u32 list \<Rightarrow> u32 option" where
  "NVML_255_MASK_BIT_GET index elems =
     (let i = index div NVML_255_MASK_BITS_PER_ELEM in
      if i < length elems
      then Some (elems ! i AND push_bit (index mod NVML_255_MASK_BITS_PER_ELEM) 1)
      else None)"

definition NVML_POWER_SMOOTHING_IDX_FROM_FIELD_VAL :: "int \<Rightarrow> int" where
  "NVML_POWER_SMOOTHING_IDX_FROM_FIELD_VAL field_val =
     field_val - the (map_of nvml_field_ids_4 ''NVML_FI_PWR_SMOOTHING_ENABLED'')"

text \<open>The CUDA driver version is an int of the form 1000 times the major plus 10 times the minor.\<close>

definition NVML_CUDA_DRIVER_VERSION_MAJOR :: "nat \<Rightarrow> nat" where
  "NVML_CUDA_DRIVER_VERSION_MAJOR v = v div 1000"

definition NVML_CUDA_DRIVER_VERSION_MINOR :: "nat \<Rightarrow> nat" where
  "NVML_CUDA_DRIVER_VERSION_MINOR v = v mod 1000 div 10"

section \<open>The constants are consistent\<close>

text \<open>
  As the header promises, every identifier from 1 to below \<^verbatim>\<open>NVML_FI_MAX\<close> is given to exactly one
  field; only the two aliases reuse an identifier, that of a field of their own.
\<close>

lemmas nvml_field_id_defs =
  nvml_field_ids_def nvml_field_ids_1_def nvml_field_ids_2_def nvml_field_ids_3_def nvml_field_ids_4_def

lemma nvml_field_ids_consecutive: "map snd nvml_field_ids = [1..NVML_FI_MAX - 1]"
  by code_simp

lemma nvml_field_ids_used_once:
  assumes "1 \<le> i" "i < NVML_FI_MAX"
  shows "\<exists>!f. f \<in> set nvml_field_ids \<and> snd f = i"
proof -
  have inj: "inj_on snd (set nvml_field_ids)"
    using nvml_field_ids_consecutive by (metis distinct_map distinct_upto)
  have "i \<in> snd ` set nvml_field_ids"
    using assms nvml_field_ids_consecutive by (simp flip: set_map)
  then show ?thesis using inj by (auto simp: inj_on_def)
qed

lemma nvml_field_aliases_resolve:
  "list_all (\<lambda>(a, f). map_of nvml_field_ids_1 f \<noteq> None) nvml_field_aliases"
  by code_simp

text \<open>
  Every event type and every clock event reason is a bit of its own, and the two masks that claim
  to contain all of them do, with no other bit.
\<close>

definition bits_of_table :: "(string \<times> u64) list \<Rightarrow> nat list \<Rightarrow> bool" where
  "bits_of_table tab bs \<longleftrightarrow>
     map snd (filter (\<lambda>(_, v). v \<noteq> 0) tab) = map (\<lambda>b. push_bit b 1) bs \<and> distinct bs"

lemma nvmlEventTypes_bits: "bits_of_table nvmlEventTypes [0, 1, 2, 3, 4, 7, 8, 9, 10, 11, 12, 13, 14, 15]"
  by (simp add: bits_of_table_def nvmlEventTypes_def push_bit_eq_mult)

lemma nvmlClocksEventReasons_bits: "bits_of_table nvmlClocksEventReasons [0 ..< 9]"
  by (simp add: bits_of_table_def nvmlClocksEventReasons_def push_bit_eq_mult upt_rec)

lemma nvmlEventTypeAll_complete: "nvmlEventTypeAll = foldr (\<lambda>f m. snd f OR m) nvmlEventTypes 0"
  by (simp add: nvmlEventTypeAll_def mask_of_def nvmlEventTypes_def)

lemma nvmlClocksEventReasonAll_complete:
  "nvmlClocksEventReasonAll = foldr (\<lambda>f m. snd f OR m) nvmlClocksEventReasons 0"
  by (simp add: nvmlClocksEventReasonAll_def mask_of_def nvml_reason_table_def nvmlClocksEventReasons_def
      nvmlClocksDeprecatedReasons_def nvmlClocksThrottleReasons_def)

text \<open>The codes of a group are distinct, so a value read back has one name.\<close>

lemma nvml_codes_distinct:
  "list_all (\<lambda>(_, g). distinct (map fst g) \<and> distinct (map snd g)) nvml_code_groups"
  by (simp add: nvml_code_groups_def nvml_code_group_defs)

section \<open>Packed fields\<close>

text \<open>
  The fields of a health mask do not overlap: writing one changes what is read of it alone, and
  every value that the header names fits its field.
\<close>

definition fabric_bits :: "fabric_field \<Rightarrow> nat" where
  "fabric_bits t = (if t = INCORRECT_CONFIGURATION then 4 else 2)"

definition health_put :: "fabric_field \<Rightarrow> u32 \<Rightarrow> u32 \<Rightarrow> u32" where
  "health_put t v m =
     (m AND NOT (push_bit (NVML_GPU_FABRIC_HEALTH_MASK_SHIFT t) (NVML_GPU_FABRIC_HEALTH_MASK_WIDTH t))) OR
     push_bit (NVML_GPU_FABRIC_HEALTH_MASK_SHIFT t) v"

lemma fabric_width: "NVML_GPU_FABRIC_HEALTH_MASK_WIDTH t = mask (fabric_bits t)"
  by (cases t) (simp_all add: fabric_bits_def mask_eq_exp_minus_1)

lemma fabric_fits: "NVML_GPU_FABRIC_HEALTH_MASK_SHIFT t + fabric_bits t \<le> 12"
  by (cases t) (simp_all add: fabric_bits_def)

lemma fabric_disjoint:
  assumes "t \<noteq> t'" "n < fabric_bits t"
  shows "NVML_GPU_FABRIC_HEALTH_MASK_SHIFT t + n < NVML_GPU_FABRIC_HEALTH_MASK_SHIFT t' \<or>
    NVML_GPU_FABRIC_HEALTH_MASK_SHIFT t' + fabric_bits t' \<le> NVML_GPU_FABRIC_HEALTH_MASK_SHIFT t + n"
  using assms by (cases t; cases t') (simp_all add: fabric_bits_def)

lemma health_get_bit:
  "bit (NVML_GPU_FABRIC_HEALTH_GET m t) n \<longleftrightarrow>
     n < fabric_bits t \<and> bit m (NVML_GPU_FABRIC_HEALTH_MASK_SHIFT t + n)"
  by (auto simp: NVML_GPU_FABRIC_HEALTH_GET_def fabric_width bit_simps dest: bit_imp_le_length)

lemma small_word_bit:
  assumes "v \<le> NVML_GPU_FABRIC_HEALTH_MASK_WIDTH t" "bit v n"
  shows "n < fabric_bits t"
proof -
  have "v = take_bit (fabric_bits t) v"
    using assms(1) by (cases t) (auto simp: fabric_bits_def take_bit_eq_mod word_le_nat_alt unat_mod
        intro!: word_unat_eq_iff [THEN iffD2])
  then show ?thesis using assms(2) by (metis bit_take_bit_iff)
qed

lemma health_fields_independent:
  assumes "v \<le> NVML_GPU_FABRIC_HEALTH_MASK_WIDTH t"
  shows "NVML_GPU_FABRIC_HEALTH_GET (health_put t v m) t' = (if t' = t then v else NVML_GPU_FABRIC_HEALTH_GET m t')"
proof (rule bit_word_eqI)
  fix n
  show "bit (NVML_GPU_FABRIC_HEALTH_GET (health_put t v m) t') n =
      bit (if t' = t then v else NVML_GPU_FABRIC_HEALTH_GET m t') n"
  proof (cases "t' = t")
    case True
    then show ?thesis
      using fabric_fits [of t] small_word_bit [OF assms, of n]
      by (auto simp: health_get_bit health_put_def fabric_width bit_simps)
  next
    case False
    then show ?thesis
      using fabric_disjoint [of t' t n] fabric_fits [of t'] small_word_bit [OF assms]
      by (fastforce simp: health_get_bit health_put_def fabric_width bit_simps)
  qed
qed

lemma health_values_fit: "list_all (\<lambda>(_, v). v \<le> NVML_GPU_FABRIC_HEALTH_MASK_WIDTH t) (NVML_GPU_FABRIC_HEALTH_MASK t)"
  by (cases t) simp_all

lemma health_test_after_put:
  assumes "map_of (NVML_GPU_FABRIC_HEALTH_MASK t) val = Some v"
  shows "NVML_GPU_FABRIC_HEALTH_TEST (health_put t v m) t val"
proof -
  have "v \<le> NVML_GPU_FABRIC_HEALTH_MASK_WIDTH t"
    using assms health_values_fit [of t] by (auto simp: list_all_iff dest: map_of_SomeD)
  then show ?thesis using assms by (simp add: NVML_GPU_FABRIC_HEALTH_TEST_def health_fields_independent)
qed

lemma ber_round_trip:
  assumes "m < 16" "e < 256"
  shows "NVML_NVLINK_ERROR_COUNTER_BER_GET (of_nat (m * 256 + e)) BER_MANTISSA = of_nat m \<and>
    NVML_NVLINK_ERROR_COUNTER_BER_GET (of_nat (m * 256 + e)) BER_EXP = of_nat e"
proof -
  have a: "(0xf :: u64) = mask 4" "(0xff :: u64) = mask 8" by (simp_all add: mask_eq_exp_minus_1)
  have u: "unat (of_nat (m * 256 + e) :: u64) = m * 256 + e"
    using assms by (simp add: unat_of_nat del: of_nat_add of_nat_mult)
  show ?thesis using assms
    by (simp only: NVML_NVLINK_ERROR_COUNTER_BER_GET_def NVML_NVLINK_BER_SHIFT.simps NVML_NVLINK_BER_WIDTH.simps
        a take_bit_eq_mask [symmetric])
      (simp add: word_unat_eq_iff take_bit_eq_mod drop_bit_eq_div unat_mod unat_div unat_of_nat u del: of_nat_add of_nat_mult)
qed

text \<open>
  A mask of the declared length accepts every index below 256; the bit set is the only one that
  changes, whichever word it is in.
\<close>

lemma mask_index_in_range:
  assumes "length elems = NVML_255_MASK_NUM_ELEMS"
  shows "NVML_255_MASK_BIT_SET i elems \<noteq> None \<longleftrightarrow> i < 256"
  using assms by (simp add: NVML_255_MASK_BIT_SET_def NVML_255_MASK_NUM_ELEMS_def NVML_255_MASK_BITS_PER_ELEM_def
      Let_def div_less_iff_less_mult)

lemma mask_get_bit:
  assumes "NVML_255_MASK_BIT_GET i elems = Some w"
  shows "w \<noteq> 0 \<longleftrightarrow> bit (elems ! (i div 32)) (i mod 32)"
  using assms
  by (auto simp: NVML_255_MASK_BIT_GET_def NVML_255_MASK_BITS_PER_ELEM_def Let_def push_bit_eq_mult
      and_exp_eq_0_iff_not_bit split: if_splits)

lemma mask_get_after_set:
  assumes "NVML_255_MASK_BIT_SET i elems = Some elems'" "NVML_255_MASK_BIT_GET j elems = Some w"
  shows "\<exists>w'. NVML_255_MASK_BIT_GET j elems' = Some w' \<and> (w' \<noteq> 0 \<longleftrightarrow> j = i \<or> w \<noteq> 0)"
proof -
  have m: "elems' = elems[i div 32 := elems ! (i div 32) OR push_bit (i mod 32) 1]" "i div 32 < length elems"
    using assms(1) by (auto simp: NVML_255_MASK_BIT_SET_def NVML_255_MASK_BITS_PER_ELEM_def Let_def split: if_splits)
  have j: "j div 32 < length elems"
    using assms(2) by (auto simp: NVML_255_MASK_BIT_GET_def NVML_255_MASK_BITS_PER_ELEM_def Let_def split: if_splits)
  then obtain w' where w': "NVML_255_MASK_BIT_GET j elems' = Some w'"
    using m by (simp add: NVML_255_MASK_BIT_GET_def NVML_255_MASK_BITS_PER_ELEM_def Let_def)
  have "j = i \<longleftrightarrow> j div 32 = i div 32 \<and> j mod 32 = i mod 32" by (metis div_mult_mod_eq)
  moreover have "bit (elems' ! (j div 32)) (j mod 32) \<longleftrightarrow>
      j div 32 = i div 32 \<and> j mod 32 = i mod 32 \<or> bit (elems ! (j div 32)) (j mod 32)"
    using m j by (auto simp: nth_list_update bit_simps)
  ultimately show ?thesis using w' mask_get_bit [OF w'] mask_get_bit [OF assms(2)] by auto
qed

text \<open>The fields of power smoothing are numbered from 0, below 32, by the index macro.\<close>

lemma power_smoothing_indices:
  "let fs = take 18 (drop 29 nvml_field_ids_4) in
     list_all (\<lambda>(n, _). take 21 n = ''NVML_FI_PWR_SMOOTHING'') fs \<and>
     map (NVML_POWER_SMOOTHING_IDX_FROM_FIELD_VAL \<circ> snd) fs = [0 .. 17]"
  by code_simp

lemma cuda_version_round_trip:
  assumes "minor < 100"
  shows "NVML_CUDA_DRIVER_VERSION_MAJOR (1000 * major + 10 * minor) = major \<and>
    NVML_CUDA_DRIVER_VERSION_MINOR (1000 * major + 10 * minor) = minor"
  using assms by (simp add: NVML_CUDA_DRIVER_VERSION_MAJOR_def NVML_CUDA_DRIVER_VERSION_MINOR_def)

end
