(* ===== verification/Collectors.thy ===== *)
theory Collectors
  imports Proc_Collectors Rapl_Collector Nvml
begin

text \<open>
  The abstract class \<^verbatim>\<open>Collector\<close> and the registry (collectors/collector.h).

  The locale \<open>collector\<close> is what the scheduler relies on: a collector only reports types it was
  asked for and can satisfy, each at most once per call, stamped with the time of the call.
  The four classes of the agent are interpretations of it, and so is their sum, on which the
  virtual calls dispatch.  \<^verbatim>\<open>Resolve\<close> chooses the collectors and tells each what to report; a
  pointer into the registry is the index of its entry.  What the hardware and the kernel answer
  at a moment is a value of \<open>sensors\<close>.
\<close>

section \<open>The interface\<close>

text \<open>Successive calls of \<^verbatim>\<open>Collect\<close>, each in its own environment; a failure ends the sequence.\<close>

fun collect_rounds :: "('e \<Rightarrow> 'c \<Rightarrow> ('c \<times> Metric list) result) \<Rightarrow> 'e list \<Rightarrow> 'c \<Rightarrow> ('c \<times> Metric list) result" where
  "collect_rounds collect [] c = Inr (c, [])"
| "collect_rounds collect (e # es) c = res_bind (collect e c) (\<lambda>(c, out).
     res_map (\<lambda>(c', rest). (c', out @ rest)) (collect_rounds collect es c))"

locale collector =
  fixes requested :: "'c \<Rightarrow> MetricType list"
    and satisfiable :: "'c \<Rightarrow> MetricType list"
    and set_requested :: "MetricType list \<Rightarrow> 'c \<Rightarrow> 'c"
    and init :: "'e \<Rightarrow> 'c \<Rightarrow> 'c \<times> bool result"
    and collect :: "'e \<Rightarrow> 'c \<Rightarrow> ('c \<times> Metric list) result"
    and clock :: "'e \<Rightarrow> i64"
  assumes set_law: "requested (set_requested ms c) = ms" "satisfiable (set_requested ms c) = satisfiable c"
    and init_law: "requested (fst (init e c)) = requested c" "satisfiable (fst (init e c)) = satisfiable c"
    and keep_law: "collect e c = Inr (c', out) \<Longrightarrow> requested c' = requested c \<and> satisfiable c' = satisfiable c"
    and out_law: "collect e c = Inr (c', out) \<Longrightarrow> distinct (map metric_type out) \<and>
      (\<forall>m \<in> set out. metric_type m \<in> set (requested c) \<and> metric_type m \<in> set (satisfiable c) \<and> timestamp m = clock e)"
begin

lemma rounds_keep:
  "collect_rounds collect es c = Inr (c', out) \<Longrightarrow> requested c' = requested c \<and> satisfiable c' = satisfiable c"
proof (induction es arbitrary: c out)
  case (Cons e es)
  then obtain c1 out1 c2 rest where "collect e c = Inr (c1, out1)" "collect_rounds collect es c1 = Inr (c2, rest)" "c' = c2"
    by (auto simp: res_bind_eq_Inr res_map_eq_Inr)
  with Cons.IH keep_law show ?case by metis
qed simp

lemma rounds_out:
  "collect_rounds collect es c = Inr (c', out) \<Longrightarrow> m \<in> set out \<Longrightarrow>
   metric_type m \<in> set (requested c) \<and> metric_type m \<in> set (satisfiable c) \<and> timestamp m \<in> clock ` set es"
proof (induction es arbitrary: c out)
  case (Cons e es)
  then obtain c1 out1 rest where s: "collect e c = Inr (c1, out1)" "collect_rounds collect es c1 = Inr (c', rest)"
    "m \<in> set out1 \<or> m \<in> set rest"
    by (auto simp: res_bind_eq_Inr res_map_eq_Inr)
  show ?case using s(3) out_law [OF s(1)] Cons.IH [OF s(2)] keep_law [OF s(1)] by auto
qed simp

text \<open>A collector that was told to report the desired part of what it can satisfy, and then
  initialised, reports nothing else.\<close>

lemma resolved_out:
  assumes "collect_rounds collect es (fst (init e (set_requested (filter D (satisfiable c)) c))) = Inr (c', out)" "m \<in> set out"
  shows "D (metric_type m) \<and> metric_type m \<in> set (satisfiable c) \<and> timestamp m \<in> clock ` set es"
  using rounds_out [OF assms] by (simp add: set_law init_law)

end

section \<open>The four collectors\<close>

interpretation proc_stat: collector ps_requested_metrics "\<lambda>_. ProcStat_Satisfiable" ProcStat_SetRequestedMetrics
  "\<lambda>_ c. (fst (ProcStat_Init c), Inr (snd (ProcStat_Init c)))" "\<lambda>(file, now). ProcStat_Collect file now" snd
  by unfold_locales (auto simp: ProcStat_SetRequestedMetrics_def ProcStat_Init_def ProcStat_Collect_def
      ProcStat_Satisfiable_def res_map_def split: if_splits sum.splits prod.splits)

interpretation ram: collector ram_requested_metrics "\<lambda>_. Ram_Satisfiable" Ram_SetRequestedMetrics
  "\<lambda>_ c. (fst (Ram_Init c), Inr (snd (Ram_Init c)))" "\<lambda>(file, now). Ram_Collect file now" snd
  by unfold_locales (auto simp: Ram_SetRequestedMetrics_def Ram_Init_def Ram_Collect_def
      Ram_Satisfiable_def res_map_def Let_def split: if_splits sum.splits prod.splits)

lemma OpenMSR_requested: "rapl_requested_metrics (fst (OpenMSR env c)) = rapl_requested_metrics c"
  by (auto simp: OpenMSR_def Let_def split: sum.splits prod.splits if_splits list.splits option.splits)

lemma Rapl_Init_requested: "rapl_requested_metrics (fst (Rapl_Init env c)) = rapl_requested_metrics c"
  using OpenMSR_requested [of env c] by (auto simp: Rapl_Init_def Let_def split: sum.split prod.split)

interpretation rapl: collector rapl_requested_metrics "\<lambda>_. Rapl_Satisfiable" Rapl_SetRequestedMetrics
  "\<lambda>(env, _). Rapl_Init env" "\<lambda>(env, now) c. Inr (Rapl_Collect env now c)" snd
  by unfold_locales (auto simp: Rapl_SetRequestedMetrics_def Rapl_Init_requested Rapl_Collect_def
      Rapl_Satisfiable_def Let_def split: if_splits sum.splits prod.splits)

lemma Nvml_Init_requested: "nc_requested_metrics (fst (Nvml_Init loaded c)) = nc_requested_metrics c"
  by (auto simp: Nvml_Init_def Let_def split: option.split prod.split)

lemma Nvml_Collect_running:
  assumes "Nvml_Collect api now c = Inr out" "out \<noteq> []"
  obtains dev where "nc_initialized c" "nc_requested_metrics c \<noteq> []" "nc_device_handle c = Some dev"
  using assms by (auto simp: Nvml_Collect_def Let_def split: if_split_asm option.split_asm)

lemma Nvml_Collect_distinct: "Nvml_Collect api now c = Inr out \<Longrightarrow> distinct (map metric_type out)"
  by (cases "out = []", simp, rule Nvml_Collect_running [of api now c out], assumption+)
    (auto simp add: Nvml_Collect_def Let_def reading_beta)

lemma Nvml_Collect_out:
  "Nvml_Collect api now c = Inr out \<Longrightarrow> m \<in> set out \<Longrightarrow>
   metric_type m \<in> set (nc_requested_metrics c) \<and> metric_type m \<in> set Nvml_Satisfiable \<and> timestamp m = now"
  by (rule Nvml_Collect_running [of api now c out], assumption, force)
    (auto simp add: Nvml_Collect_def Let_def reading_beta Nvml_Satisfiable_def)

interpretation nvml: collector nc_requested_metrics "\<lambda>_. Nvml_Satisfiable" Nvml_SetRequestedMetrics
  "\<lambda>(loaded, _, _) c. (fst (Nvml_Init loaded c), Inr (fst (snd (Nvml_Init loaded c))))"
  "\<lambda>(_, api, now) c. res_map (\<lambda>out. (c, out)) (Nvml_Collect api now c)" "\<lambda>(_, _, now). now"
  by unfold_locales (auto simp: Nvml_SetRequestedMetrics_def Nvml_Init_requested res_map_eq_Inr dest: Nvml_Collect_out Nvml_Collect_distinct)

section \<open>Dispatch\<close>

datatype 'd Collector =
    ProcStat ProcStatCollector
  | Ram RamCollector
  | Rapl RaplCollector
  | NvmlC "'d NvmlCollector"

record 'd sensors =
  s_proc_stat :: "string option"
  s_meminfo :: "string option"
  s_msr :: msr_env
  s_nvml :: "'d NvmlApi"
  s_nvml_loaded :: bool
  s_now :: i64

fun Collector_requested :: "'d Collector \<Rightarrow> MetricType list" where
  "Collector_requested (ProcStat c) = ps_requested_metrics c"
| "Collector_requested (Ram c) = ram_requested_metrics c"
| "Collector_requested (Rapl c) = rapl_requested_metrics c"
| "Collector_requested (NvmlC c) = nc_requested_metrics c"

fun Collector_Satisfiable :: "'d Collector \<Rightarrow> MetricType list" where
  "Collector_Satisfiable (ProcStat c) = ProcStat_Satisfiable"
| "Collector_Satisfiable (Ram c) = Ram_Satisfiable"
| "Collector_Satisfiable (Rapl c) = Rapl_Satisfiable"
| "Collector_Satisfiable (NvmlC c) = Nvml_Satisfiable"

fun Collector_SetRequestedMetrics :: "MetricType list \<Rightarrow> 'd Collector \<Rightarrow> 'd Collector" where
  "Collector_SetRequestedMetrics ms (ProcStat c) = ProcStat (ProcStat_SetRequestedMetrics ms c)"
| "Collector_SetRequestedMetrics ms (Ram c) = Ram (Ram_SetRequestedMetrics ms c)"
| "Collector_SetRequestedMetrics ms (Rapl c) = Rapl (Rapl_SetRequestedMetrics ms c)"
| "Collector_SetRequestedMetrics ms (NvmlC c) = NvmlC (Nvml_SetRequestedMetrics ms c)"

text \<open>What \<^verbatim>\<open>TryLoadNvml\<close> gives the NVML collector.\<close>

definition s_loaded :: "'d sensors \<Rightarrow> 'd NvmlApi option" where
  "s_loaded e = (if s_nvml_loaded e then Some (s_nvml e) else None)"

text \<open>The calls of NVML that probing makes cancel (\<open>Nvml_IsSupported_balanced\<close>) and are not carried.\<close>

fun Collector_IsSupported :: "'d sensors \<Rightarrow> 'd Collector \<Rightarrow> bool result" where
  "Collector_IsSupported e (ProcStat c) = Inr (ProcStat_IsSupported (s_proc_stat e))"
| "Collector_IsSupported e (Ram c) = Inr (Ram_IsSupported (s_meminfo e))"
| "Collector_IsSupported e (Rapl c) = Rapl_IsSupported (s_msr e)"
| "Collector_IsSupported e (NvmlC c) = Inr (fst (Nvml_IsSupported (s_loaded e)))"

fun Collector_Init :: "'d sensors \<Rightarrow> 'd Collector \<Rightarrow> 'd Collector \<times> bool result" where
  "Collector_Init e (ProcStat c) = (ProcStat (fst (ProcStat_Init c)), Inr (snd (ProcStat_Init c)))"
| "Collector_Init e (Ram c) = (Ram (fst (Ram_Init c)), Inr (snd (Ram_Init c)))"
| "Collector_Init e (Rapl c) = map_prod Rapl (\<lambda>r. r) (Rapl_Init (s_msr e) c)"
| "Collector_Init e (NvmlC c) = (NvmlC (fst (Nvml_Init (s_loaded e) c)), Inr (fst (snd (Nvml_Init (s_loaded e) c))))"

fun Collector_Collect :: "'d sensors \<Rightarrow> 'd Collector \<Rightarrow> ('d Collector \<times> Metric list) result" where
  "Collector_Collect e (ProcStat c) = res_map (map_prod ProcStat (\<lambda>x. x)) (ProcStat_Collect (s_proc_stat e) (s_now e) c)"
| "Collector_Collect e (Ram c) = res_map (map_prod Ram (\<lambda>x. x)) (Ram_Collect (s_meminfo e) (s_now e) c)"
| "Collector_Collect e (Rapl c) = Inr (map_prod Rapl (\<lambda>x. x) (Rapl_Collect (s_msr e) (s_now e) c))"
| "Collector_Collect e (NvmlC c) = res_map (\<lambda>out. (NvmlC c, out)) (Nvml_Collect (s_nvml e) (s_now e) c)"

lemma Collector_Collect_laws:
  assumes "Collector_Collect e c = Inr (c', out)"
  shows "Collector_requested c' = Collector_requested c \<and> Collector_Satisfiable c' = Collector_Satisfiable c \<and>
    distinct (map metric_type out) \<and> (\<forall>m \<in> set out. metric_type m \<in> set (Collector_requested c) \<and>
    metric_type m \<in> set (Collector_Satisfiable c) \<and> timestamp m = s_now e)"
proof (cases c)
  case (ProcStat x)
  with assms obtain x' where "ProcStat_Collect (s_proc_stat e) (s_now e) x = Inr (x', out)" "c' = ProcStat x'"
    by (auto simp: res_map_eq_Inr)
  with ProcStat proc_stat.keep_law [of "(s_proc_stat e, s_now e)" x x' out] proc_stat.out_law [of "(s_proc_stat e, s_now e)" x x' out]
  show ?thesis by simp
next
  case (Ram x)
  with assms obtain x' where "Ram_Collect (s_meminfo e) (s_now e) x = Inr (x', out)" "c' = Ram x'"
    by (auto simp: res_map_eq_Inr)
  with Ram ram.keep_law [of "(s_meminfo e, s_now e)" x x' out] ram.out_law [of "(s_meminfo e, s_now e)" x x' out]
  show ?thesis by simp
next
  case (Rapl x)
  with assms obtain x' where "Rapl_Collect (s_msr e) (s_now e) x = (x', out)" "c' = Rapl x'"
    by (cases "Rapl_Collect (s_msr e) (s_now e) x") auto
  with Rapl rapl.keep_law [of "(s_msr e, s_now e)" x x' out] rapl.out_law [of "(s_msr e, s_now e)" x x' out]
  show ?thesis by simp
next
  case (NvmlC x)
  with assms have "Nvml_Collect (s_nvml e) (s_now e) x = Inr out" "c' = NvmlC x"
    by (auto simp: res_map_eq_Inr)
  with NvmlC nvml.out_law [of "(s_loaded e, s_nvml e, s_now e)" x x out]
  show ?thesis by simp
qed

interpretation any: collector Collector_requested Collector_Satisfiable Collector_SetRequestedMetrics
  Collector_Init Collector_Collect s_now
proof unfold_locales
  fix ms and c :: "'d Collector" and e :: "'d sensors"
  show "Collector_requested (Collector_SetRequestedMetrics ms c) = ms"
    by (cases c) (simp_all add: proc_stat.set_law ram.set_law rapl.set_law nvml.set_law)
  show "Collector_Satisfiable (Collector_SetRequestedMetrics ms c) = Collector_Satisfiable c" by (cases c) simp_all
  show "Collector_requested (fst (Collector_Init e c)) = Collector_requested c"
    by (cases c) (simp_all add: ProcStat_Init_def Ram_Init_def Rapl_Init_requested Nvml_Init_requested)
  show "Collector_Satisfiable (fst (Collector_Init e c)) = Collector_Satisfiable c" by (cases c) simp_all
qed (use Collector_Collect_laws in blast)+

section \<open>The registry\<close>

definition Register :: "'d Collector \<Rightarrow> 'd Collector list \<Rightarrow> 'd Collector list" where
  "Register c entries = entries @ [c]"

text \<open>The types of a collector that are wanted.\<close>

definition active_types :: "MetricType list \<Rightarrow> 'd Collector \<Rightarrow> MetricType list" where
  "active_types desired c = filter (\<lambda>type. type \<in> set desired) (Collector_Satisfiable c)"

fun Resolve_from :: "nat \<Rightarrow> 'd sensors \<Rightarrow> MetricType list \<Rightarrow> 'd Collector list \<Rightarrow> ('d Collector list \<times> nat list) result" where
  "Resolve_from i e desired [] = Inr ([], [])"
| "Resolve_from i e desired (c # cs) = res_bind (Collector_IsSupported e c) (\<lambda>supported.
     let active = active_types desired c;
         (c', chosen) = (if \<not> supported then (c, []) else if active \<noteq> [] then (Collector_SetRequestedMetrics active c, [i]) else (c, []))
     in res_map (\<lambda>(cs', result). (c' # cs', chosen @ result)) (Resolve_from (Suc i) e desired cs))"

text \<open>The entries afterwards, and the positions of the collectors that were chosen.\<close>

definition Resolve :: "'d sensors \<Rightarrow> MetricType list \<Rightarrow> 'd Collector list \<Rightarrow> ('d Collector list \<times> nat list) result" where
  "Resolve e desired entries = Resolve_from 0 e desired entries"

text \<open>The registry before \<^verbatim>\<open>main\<close>: each class registers one instance.  The order of static
  initialisation between the source files is not fixed; this is one of the possible orders.\<close>

definition registered_collectors :: "'d Collector list" where
  "registered_collectors = Register (Rapl RaplCollector_new) (Register (Ram RamCollector_new)
     (Register (ProcStat ProcStatCollector_new) (Register (NvmlC NvmlCollector_new) [])))"

definition chosen :: "'d sensors \<Rightarrow> MetricType list \<Rightarrow> 'd Collector \<Rightarrow> bool" where
  "chosen e desired c = (Collector_IsSupported e c = Inr True \<and> active_types desired c \<noteq> [])"

lemma Resolve_from_spec:
  "Resolve_from i e desired cs = Inr (cs', result) \<Longrightarrow>
   cs' = map (\<lambda>c. if chosen e desired c then Collector_SetRequestedMetrics (active_types desired c) c else c) cs \<and>
   result = map fst (filter (\<lambda>(_, c). chosen e desired c) (zip [i..<i + length cs] cs)) \<and>
   (\<forall>c \<in> set cs. is_ok (Collector_IsSupported e c))"
proof (induction cs arbitrary: i cs' result)
  case (Cons c cs)
  from Cons.prems obtain supported where s: "Collector_IsSupported e c = Inr supported"
    by (auto simp: res_bind_eq_Inr)
  obtain cs1 r1 where r: "Resolve_from (Suc i) e desired cs = Inr (cs1, r1)"
    using Cons.prems by (auto simp: s res_map_eq_Inr Let_def split: prod.splits if_splits)
  have up: "[i..<i + length (c # cs)] = i # [Suc i..<Suc i + length cs]" by (simp add: upt_conv_Cons del: upt_Suc)
  show ?case using Cons.prems Cons.IH [OF r] unfolding up
    by (auto simp: s r chosen_def Let_def split: if_splits)
qed simp

lemma filter_zip_index:
  "map fst (filter (\<lambda>(_, c). P c) (zip [0..<length cs] cs)) = filter (\<lambda>i. P (cs ! i)) [0..<length cs]"
proof (induction cs rule: rev_induct)
  case (snoc c cs)
  have "filter (\<lambda>i. P ((cs @ [c]) ! i)) [0..<length cs] = filter (\<lambda>i. P (cs ! i)) [0..<length cs]"
    by (rule filter_cong) (simp_all add: nth_append)
  with snoc show ?case by simp
qed simp

lemma Resolve_spec:
  assumes "Resolve e desired entries = Inr (entries', result)"
  shows "length entries' = length entries" "result = filter (\<lambda>i. chosen e desired (entries ! i)) [0..<length entries]"
    "i < length entries \<Longrightarrow> entries' ! i = (if chosen e desired (entries ! i)
       then Collector_SetRequestedMetrics (active_types desired (entries ! i)) (entries ! i) else entries ! i)"
  using Resolve_from_spec [OF assms [unfolded Resolve_def]] by (simp_all add: filter_zip_index [symmetric])

text \<open>
  C15.  \<^verbatim>\<open>Resolve\<close> activates exactly the collectors that are supported and can satisfy a desired
  metric, in registration order, and asks each for exactly the desired part of what it can
  satisfy; the other entries are left alone.
\<close>

theorem Resolve_activates:
  assumes "Resolve e desired entries = Inr (entries', result)"
  shows "(\<forall>i. i \<in> set result \<longleftrightarrow> i < length entries \<and> Collector_IsSupported e (entries ! i) = Inr True \<and>
      set (Collector_Satisfiable (entries ! i)) \<inter> set desired \<noteq> {}) \<and> sorted result \<and> distinct result \<and>
    (\<forall>i < length entries. if i \<in> set result
       then set (Collector_requested (entries' ! i)) = set (Collector_Satisfiable (entries ! i)) \<inter> set desired
       else entries' ! i = entries ! i)"
proof -
  note spec = Resolve_spec [OF assms]
  have ch: "\<And>c. chosen e desired c \<longleftrightarrow>
      Collector_IsSupported e c = Inr True \<and> set (Collector_Satisfiable c) \<inter> set desired \<noteq> {}"
    by (auto simp: chosen_def active_types_def filter_empty_conv)
  have "\<forall>i < length entries. if i \<in> set result
      then set (Collector_requested (entries' ! i)) = set (Collector_Satisfiable (entries ! i)) \<inter> set desired
      else entries' ! i = entries ! i"
    using spec(2,3) by (auto simp: any.set_law active_types_def)
  then show ?thesis by (auto simp: spec(2) ch sorted_wrt_filter)
qed

definition example_sensors :: "nat sensors" where
  "example_sensors = \<lparr>s_proc_stat = Some ''cpu 1 2 3 4 5 6 7 8'', s_meminfo = None, s_msr = example_msr 1,
     s_nvml = example_nvml, s_nvml_loaded = True, s_now = 9\<rparr>"

lemma example_resolve:
  "Resolve example_sensors [METRIC_TYPE_GPU_TEMPERATURE, METRIC_TYPE_RAM_USED] registered_collectors =
   Inr ([NvmlC (NvmlCollector_new\<lparr>nc_requested_metrics := [METRIC_TYPE_GPU_TEMPERATURE]\<rparr>),
     ProcStat ProcStatCollector_new, Ram RamCollector_new, Rapl RaplCollector_new], [0])"
  by (simp add: Resolve_def registered_collectors_def Register_def example_sensors_def example_msr_def example_nvml_def
      Nvml_IsSupported_def s_loaded_def ProcStat_IsSupported_def Ram_IsSupported_def Rapl_IsSupported_def active_types_def
      Nvml_Satisfiable_def ProcStat_Satisfiable_def Ram_Satisfiable_def Rapl_Satisfiable_def
      Nvml_SetRequestedMetrics_def Let_def)

theorem Resolve_activates_witness:
  "\<exists>entries' result. Resolve example_sensors [METRIC_TYPE_GPU_TEMPERATURE, METRIC_TYPE_RAM_USED] registered_collectors =
     Inr (entries', result) \<and> 0 \<in> set result \<and> sorted result"
  using Resolve_activates [OF example_resolve] example_resolve by auto

text \<open>
  Whatever the collectors report after \<^verbatim>\<open>Resolve\<close> and \<^verbatim>\<open>Init\<close>, through any number of
  collections under any readings of the hardware, was desired, and carries the time of one of
  the collections.
\<close>

lemma Resolve_collects_only_desired:
  assumes "Resolve e desired entries = Inr (entries', result)" "i \<in> set result"
    "collect_rounds Collector_Collect es (fst (Collector_Init e0 (entries' ! i))) = Inr (c, out)" "m \<in> set out"
  shows "metric_type m \<in> set desired \<and> metric_type m \<in> set (Collector_Satisfiable (entries ! i)) \<and>
    timestamp m \<in> s_now ` set es"
proof -
  from assms(2) Resolve_spec(2) [OF assms(1)] have i: "i < length entries" "chosen e desired (entries ! i)" by auto
  with Resolve_spec(3) [OF assms(1)] have
    "entries' ! i = Collector_SetRequestedMetrics (filter (\<lambda>t. t \<in> set desired) (Collector_Satisfiable (entries ! i))) (entries ! i)"
    by (simp add: active_types_def)
  with any.resolved_out [of es e0 "\<lambda>t. t \<in> set desired" "entries ! i" c out m] assms(3,4) show ?thesis by simp
qed


lemma Resolve_collects_only_desired_example:
  "\<exists>entries' c m. Resolve example_sensors [METRIC_TYPE_GPU_TEMPERATURE, METRIC_TYPE_RAM_USED] registered_collectors =
     Inr (entries', [0]) \<and>
     collect_rounds Collector_Collect [example_sensors] (fst (Collector_Init example_sensors (entries' ! 0))) = Inr (c, [m]) \<and>
     timestamp m = 9"
proof -
  let ?c0 = "NvmlC (NvmlCollector_new\<lparr>nc_requested_metrics := [METRIC_TYPE_GPU_TEMPERATURE]\<rparr>) :: nat Collector"
  obtain c m where r: "collect_rounds Collector_Collect [example_sensors] (fst (Collector_Init example_sensors ?c0)) = Inr (c, [m])"
    by (simp add: example_sensors_def example_nvml_def Nvml_Init_def s_loaded_def Nvml_Collect_def reading_beta
        NvmlCollector_new_def Let_def)
  from Resolve_collects_only_desired [OF example_resolve, of 0 "[example_sensors]" example_sensors c "[m]" m] r
  have "timestamp m = s_now example_sensors" by simp
  then have "timestamp m = 9" by (simp add: example_sensors_def)
  with r example_resolve show ?thesis by fastforce
qed

end
