(* ===== verification/Platform.thy ===== *)
theory Platform
  imports Text_IO Floating
begin

text \<open>
  Hardware detection (platform/cpu_info.h, gpu_info.h, hardware_info.h, platform_detector.h / .cc).
  The contents of \<^verbatim>\<open>/etc/os-release\<close> and \<^verbatim>\<open>/proc/cpuinfo\<close>, the host name and the answers of NVML are
  arguments; NVML is \<open>None\<close> when the agent was built without \<^verbatim>\<open>HAVE_NVML\<close>, or when \<^verbatim>\<open>nvmlInit\<close> fails.
\<close>

datatype CpuVendor = CPU_UNKNOWN | CPU_AMD | CPU_INTEL

record CpuInfo =
  cpu_vendor :: CpuVendor
  cpu_model_name :: string
  cpu_architecture :: string
  physical_cores :: u8
  logical_threads :: u8
  socket_count :: u8
  base_frequency_mhz :: fval
  max_frequency_mhz :: fval
  l1_cache_size_bytes :: u64
  l2_cache_size_bytes :: u64
  l3_cache_size_bytes :: u64
  cpu_power_limit_watts :: fval
  has_rapl :: bool
  has_zenpower :: bool
  has_pmu :: bool

definition CpuInfo_new :: CpuInfo where
  "CpuInfo_new = \<lparr>cpu_vendor = CPU_UNKNOWN, cpu_model_name = [], cpu_architecture = [],
     physical_cores = 0, logical_threads = 0, socket_count = 1, base_frequency_mhz = Fin 0, max_frequency_mhz = Fin 0,
     l1_cache_size_bytes = 0, l2_cache_size_bytes = 0, l3_cache_size_bytes = 0, cpu_power_limit_watts = Fin 0,
     has_rapl = False, has_zenpower = False, has_pmu = False\<rparr>"

datatype GpuVendor = GPU_UNKNOWN | GPU_NVIDIA | GPU_AMD | GPU_INTEL

record GpuInfo =
  gpu_vendor :: GpuVendor
  gpu_model_name :: string
  pci_address :: string
  driver_version :: string
  vram_total_bytes :: u64
  gpu_power_limit_watts :: fval

definition GpuInfo_new :: GpuInfo where
  "GpuInfo_new = \<lparr>gpu_vendor = GPU_UNKNOWN, gpu_model_name = [], pci_address = [], driver_version = [],
     vram_total_bytes = 0, gpu_power_limit_watts = Fin 0\<rparr>"

record HardwareInfo =
  hostname :: string
  os_version :: string
  kernel_version :: string
  total_ram_bytes :: u64
  hw_cpu :: CpuInfo
  hw_gpus :: "GpuInfo list"

definition HardwareInfo_new :: HardwareInfo where
  "HardwareInfo_new = \<lparr>hostname = [], os_version = [], kernel_version = [], total_ram_bytes = 0,
     hw_cpu = CpuInfo_new, hw_gpus = []\<rparr>"

section \<open>Operations\<close>

fun CpuVendorToString :: "CpuVendor \<Rightarrow> string" where
  "CpuVendorToString CPU_INTEL = ''Intel''"
| "CpuVendorToString CPU_AMD = ''AMD''"
| "CpuVendorToString CPU_UNKNOWN = ''Unknown''"

fun GpuVendorToString :: "GpuVendor \<Rightarrow> string" where
  "GpuVendorToString GPU_NVIDIA = ''NVIDIA''"
| "GpuVendorToString GPU_AMD = ''AMD''"
| "GpuVendorToString GPU_INTEL = ''Intel''"
| "GpuVendorToString GPU_UNKNOWN = ''Unknown''"

definition contains_str :: "string \<Rightarrow> string \<Rightarrow> bool" where
  "contains_str s p = (str_find s p \<noteq> None)"

definition unquote :: "string \<Rightarrow> string" where
  "unquote v = (if 2 \<le> length v \<and> hd v = CHR 0x22 \<and> last v = CHR 0x22 then take (length v - 2) (drop 1 v) else v)"

fun os_release_loop :: "string list \<Rightarrow> string" where
  "os_release_loop [] = ''Linux (Unknown - Tag not found)''"
| "os_release_loop (line # lines) =
     (if starts_with line ''PRETTY_NAME='' then unquote (drop 12 line) else os_release_loop lines)"

definition DetectOS :: "string option \<Rightarrow> string" where
  "DetectOS os_release = (case os_release of
     None \<Rightarrow> ''Linux (Unknown - Cannot open /etc/os-release)''
   | Some text \<Rightarrow> os_release_loop (getlines text))"

fun cpuinfo_loop :: "string list \<Rightarrow> CpuInfo \<Rightarrow> CpuInfo result" where
  "cpuinfo_loop [] cpu = Inr cpu"
| "cpuinfo_loop (line # lines) cpu =
     (let cpu = (if contains_str line ''vendor_id'' then
                   (if contains_str line ''AuthenticAMD'' then cpu\<lparr>cpu_vendor := CPU_AMD\<rparr>
                    else if contains_str line ''GenuineIntel'' then cpu\<lparr>cpu_vendor := CPU_INTEL\<rparr> else cpu)
                 else cpu) in
      if contains_str line ''model name'' then
        (case str_find line '':'' of
           Some pos \<Rightarrow> res_map (\<lambda>name. cpu\<lparr>cpu_model_name := name\<rparr>) (substr_from line (pos + 2))
         | None \<Rightarrow> Inr cpu)
      else cpuinfo_loop lines cpu)"

text \<open>The number of devices, and for each its handle and its name, if the calls succeed.  The result
  of \<^verbatim>\<open>nvmlDeviceGetHandleByIndex\<close> is not looked at.\<close>

record 'd nvml_devices =
  nd_count :: nat
  nd_handle :: "nat \<Rightarrow> 'd option"
  nd_name :: "'d \<Rightarrow> string option"

fun gpu_loop :: "'d nvml_devices \<Rightarrow> nat list \<Rightarrow> GpuInfo list result" where
  "gpu_loop nv [] = Inr []"
| "gpu_loop nv (i # is) = (case nd_handle nv i of
     None \<Rightarrow> Inl Uninitialised
   | Some device \<Rightarrow> res_map (\<lambda>rest. (case nd_name nv device of
         Some name \<Rightarrow> [GpuInfo_new\<lparr>gpu_vendor := GPU_NVIDIA, gpu_model_name := name\<rparr>]
       | None \<Rightarrow> []) @ rest) (gpu_loop nv is))"

definition Detect :: "string option \<Rightarrow> string option \<Rightarrow> string option \<Rightarrow> 'd nvml_devices option \<Rightarrow> HardwareInfo result" where
  "Detect gethostname os_release cpuinfo nvml =
     (let info = HardwareInfo_new\<lparr>
        hostname := (case gethostname of Some h \<Rightarrow> h | None \<Rightarrow> ''unknown-host''),
        os_version := DetectOS os_release\<rparr> in
      res_bind (cpuinfo_loop (getlines (case cpuinfo of None \<Rightarrow> [] | Some t \<Rightarrow> t)) (hw_cpu info)) (\<lambda>cpu.
      let info = info\<lparr>hw_cpu := cpu\<rparr> in
      case nvml of
        None \<Rightarrow> Inr info
      | Some nv \<Rightarrow> res_map (\<lambda>gpus. info\<lparr>hw_gpus := gpus\<rparr>) (gpu_loop nv [0..<nd_count nv])))"

definition PrintDetectedInfo :: "string \<Rightarrow> HardwareInfo \<Rightarrow> string" where
  "PrintDetectedInfo self info =
     (let nl = [CHR 0x0A] in
      ''['' @ self @ ''] Hardware Detection Result:'' @ nl @
      ''  > Host:  '' @ hostname info @ nl @
      ''  > OS:    '' @ os_version info @ nl @
      ''  > CPU:   '' @ CpuVendorToString (cpu_vendor (hw_cpu info)) @ nl @
      ''  | Model: '' @ cpu_model_name (hw_cpu info) @ nl @
      (if hw_gpus info = [] then ''  > GPU:  None detected (or NVML disabled)'' @ nl
       else concat (map (\<lambda>gpu. ''  > GPU:   '' @ GpuVendorToString (gpu_vendor gpu) @ nl @
              ''  | Model: '' @ gpu_model_name gpu @ nl) (hw_gpus info))) @
      ''--------------------------------------------------'' @ nl)"

section \<open>Lemmas\<close>

lemma contains_Cons: "contains_str s p \<Longrightarrow> contains_str (c # s) p"
  by (auto simp: contains_str_def)

lemma contains_append: "contains_str (a @ p @ b) p"
proof (induction a)
  case Nil
  have "prefix p (p @ b)" by simp
  then show ?case by (cases "p @ b") (auto simp: contains_str_def)
next
  case (Cons c a)
  then show ?case by (simp add: contains_Cons)
qed

lemma unquote_quoted [simp]: "unquote (CHR 0x22 # v @ [CHR 0x22]) = v"
  by (simp add: unquote_def)

lemma os_release_loop_skip:
  "\<forall>l \<in> set ls. \<not> starts_with l ''PRETTY_NAME='' \<Longrightarrow> os_release_loop (ls @ ms) = os_release_loop ms"
  by (induction ls) auto

lemma cpuinfo_loop_skip:
  "\<forall>l \<in> set ls. \<not> contains_str l ''vendor_id'' \<and> \<not> contains_str l ''model name'' \<Longrightarrow>
   cpuinfo_loop (ls @ ms) cpu = cpuinfo_loop ms cpu"
  by (induction ls) auto

lemma model_line:
  assumes "CHR '':'' \<notin> set a" "contains_str (a @ CHR '':'' # b) ''model name''" "\<not> contains_str (a @ CHR '':'' # b) ''vendor_id''"
  shows "cpuinfo_loop ((a @ CHR '':'' # b) # ls) cpu =
    (if b = [] then Inl OutOfRange else Inr (cpu\<lparr>cpu_model_name := drop 1 b\<rparr>))"
proof -
  have "str_find (a @ CHR '':'' # b) '':'' = Some (length a)" using assms(1) by (intro str_find_first) blast
  with assms(2,3) show ?thesis by (cases b) (simp_all add: substr_from_def)
qed

lemma Detect_without_nvml:
  "Detect host os (Some t) None = res_map (\<lambda>cpu. HardwareInfo_new\<lparr>hostname := (case host of Some h \<Rightarrow> h | None \<Rightarrow> ''unknown-host''),
     os_version := DetectOS os, hw_cpu := cpu\<rparr>) (cpuinfo_loop (getlines t) CpuInfo_new)"
  by (cases "cpuinfo_loop (getlines t) CpuInfo_new") (simp_all add: Detect_def HardwareInfo_new_def Let_def)

section \<open>Properties\<close>

text \<open>
  \<^verbatim>\<open>DetectOS\<close> returns the quoted name of an os-release file, wherever the line stands and
  whatever follows it.
\<close>

lemma DetectOS_pretty_name:
  assumes "\<forall>l \<in> set before. CHR 0x0A \<notin> set l \<and> \<not> starts_with l ''PRETTY_NAME=''" "CHR 0x0A \<notin> set name"
  shows "DetectOS (Some (unlines (before @ [''PRETTY_NAME='' @ [CHR 0x22] @ name @ [CHR 0x22]]) @ rest)) = name"
  using assms getlines_unlines [of "before @ [''PRETTY_NAME='' @ [CHR 0x22] @ name @ [CHR 0x22]]" rest]
    os_release_loop_skip [of before "(''PRETTY_NAME='' @ [CHR 0x22] @ name @ [CHR 0x22]) # getlines rest"]
  by (simp add: DetectOS_def starts_with_def)

lemma DetectOS_pretty_name_example:
  "DetectOS (Some (unlines ([''ID=debian''] @ [''PRETTY_NAME='' @ [CHR 0x22] @ ''Debian 13'' @ [CHR 0x22]]) @ '''')) = ''Debian 13''"
  by (rule DetectOS_pretty_name) (simp_all add: starts_with_def)

text \<open>
  Detection of the CPU, line by line: the vendor of a \<^verbatim>\<open>vendor_id\<close> line and the name after the
  colon of the first \<^verbatim>\<open>model name\<close> line are reported; but when nothing follows that colon,
  \<^verbatim>\<open>substr(pos + 2)\<close> is past the end of the line and detection ends in \<^verbatim>\<open>std::out_of_range\<close>.
\<close>

lemma Detect_cpu:
  assumes "\<forall>l \<in> set before \<union> set between. CHR 0x0A \<notin> set l \<and> \<not> contains_str l ''vendor_id'' \<and> \<not> contains_str l ''model name''"
    "CHR 0x0A \<notin> set rest"
    "\<not> contains_str (''model name'' @ [CHR 0x09] @ '':'' @ rest) ''vendor_id''"
  shows "Detect host os (Some (unlines (before @ [''vendor_id'' @ [CHR 0x09] @ '': GenuineIntel''] @ between @
      [''model name'' @ [CHR 0x09] @ '':'' @ rest]) @ tail)) (None :: 'd nvml_devices option) =
    (if rest = [] then Inl OutOfRange
     else Inr (HardwareInfo_new\<lparr>hostname := (case host of Some h \<Rightarrow> h | None \<Rightarrow> ''unknown-host''), os_version := DetectOS os,
       hw_cpu := CpuInfo_new\<lparr>cpu_vendor := CPU_INTEL, cpu_model_name := drop 1 rest\<rparr>\<rparr>))"
proof -
  let ?v = "''vendor_id'' @ [CHR 0x09] @ '': GenuineIntel''" and ?m = "''model name'' @ [CHR 0x09] @ '':'' @ rest"
  have v: "contains_str ?v ''vendor_id''" "\<not> contains_str ?v ''AuthenticAMD''" "contains_str ?v ''GenuineIntel''"
    "\<not> contains_str ?v ''model name''" by (simp_all add: contains_str_def prefix_def)
  have lines: "getlines (unlines (before @ [?v] @ between @ [?m]) @ tail) = before @ ?v # between @ ?m # getlines tail"
    using getlines_unlines [of "before @ [?v] @ between @ [?m]" tail] assms(1,2) by auto
  have "cpuinfo_loop (before @ ?v # between @ ?m # getlines tail) CpuInfo_new
      = cpuinfo_loop (?v # between @ ?m # getlines tail) CpuInfo_new"
    using assms(1) by (intro cpuinfo_loop_skip) auto
  also have "\<dots> = cpuinfo_loop (between @ ?m # getlines tail) (CpuInfo_new\<lparr>cpu_vendor := CPU_INTEL\<rparr>)"
    using v by (simp del: append_Cons append_Nil)
  also have "\<dots> = cpuinfo_loop (?m # getlines tail) (CpuInfo_new\<lparr>cpu_vendor := CPU_INTEL\<rparr>)"
    using assms(1) by (intro cpuinfo_loop_skip) auto
  also have "\<dots> = (if rest = [] then Inl OutOfRange
      else Inr (CpuInfo_new\<lparr>cpu_vendor := CPU_INTEL, cpu_model_name := drop 1 rest\<rparr>))"
    using model_line [of "''model name'' @ [CHR 0x09]" rest "getlines tail" "CpuInfo_new\<lparr>cpu_vendor := CPU_INTEL\<rparr>"] assms(3)
      contains_append [of "[]" "''model name''" "[CHR 0x09] @ '':'' @ rest"] by simp
  finally show ?thesis unfolding Detect_without_nvml lines by simp
qed


lemma Detect_cpu_example:
  "\<exists>info. Detect (Some ''node1'') None (Some (unlines ([] @ [''vendor_id'' @ [CHR 0x09] @ '': GenuineIntel''] @ [''cpu family''] @
      [''model name'' @ [CHR 0x09] @ '':'' @ '' Xeon'']) @ ''processor'')) (None :: nat nvml_devices option) = Inr info \<and>
     cpu_model_name (hw_cpu info) = ''Xeon''"
  unfolding contains_str_def
  by (subst Detect_cpu) (simp_all add: contains_str_def prefix_def)

end
