(* ===== verification/Message_Queue.thy ===== *)
theory Message_Queue
  imports Prelude
begin

text \<open>
  \<^verbatim>\<open>MessageQueue\<close> (message_queue.h / .cc), the POSIX message queue over which the command line tool
  talks to the agent.

  The kernel's side is modelled as mq_overview(7) and mq_notify(3) document it: a bounded FIFO
  with at most one registration for notification, which a message consumes when it arrives at
  an \<^emph>\<open>empty\<close> queue, and only then.  All messages have the same priority, as all callers use the
  default.  A registration starts \<^verbatim>\<open>on_notify\<close> on a thread of its own, so its loop interleaves with
  the senders: that is the step relation \<open>mq_step\<close>, of which an uninterrupted call of
  \<^verbatim>\<open>drain_and_rearm\<close> is one execution.
\<close>

section \<open>The kernel's queue\<close>

record kqueue =
  kq_messages :: "string list"
  kq_notify :: bool
  kq_maxmsg :: int
  kq_msgsize :: int

text \<open>\<^verbatim>\<open>mq_send\<close> on a non-blocking descriptor: the queue, whether a notification is sent, and whether the
  call succeeds.\<close>

definition kq_send :: "string \<Rightarrow> kqueue \<Rightarrow> kqueue \<times> bool \<times> bool" where
  "kq_send m k =
     (if kq_msgsize k < int (length m) \<or> kq_maxmsg k \<le> int (length (kq_messages k)) then (k, False, False)
      else let fires = (kq_notify k \<and> kq_messages k = []) in
        (k\<lparr>kq_messages := kq_messages k @ [m], kq_notify := kq_notify k \<and> \<not> fires\<rparr>, fires, True))"

text \<open>The queues of the system by name; a descriptor is a position in \<open>fs_queues\<close>.\<close>

record mqfs =
  fs_names :: "string \<rightharpoonup> nat"
  fs_queues :: "kqueue list"

definition mq_unlink :: "string \<Rightarrow> mqfs \<Rightarrow> mqfs" where
  "mq_unlink name fs = fs\<lparr>fs_names := (fs_names fs)(name := None)\<rparr>"

section \<open>The class\<close>

datatype Role = Sender | Receiver

record Options =
  max_messages :: int
  max_msg_size :: int
  permissions :: int

definition default_Options :: Options where
  "default_Options = \<lparr>max_messages = 10, max_msg_size = 4096, permissions = 432\<rparr>"

record MessageQueue =
  mq_name :: string
  mq_role :: Role
  mq_opts :: Options
  mq_fd :: "nat option"
  mq_listening :: bool

text \<open>Without \<^verbatim>\<open>O_CREAT\<close> the name must exist; \<open>denied\<close> is any other reason of the system to refuse.\<close>

definition mq_open :: "string option \<Rightarrow> string \<Rightarrow> Role \<Rightarrow> Options \<Rightarrow> mqfs \<Rightarrow> string + (mqfs \<times> nat)" where
  "mq_open denied name r opts fs = (case denied of
     Some err \<Rightarrow> Inl err
   | None \<Rightarrow> (case fs_names fs name of
       Some i \<Rightarrow> Inr (fs, i)
     | None \<Rightarrow> (case r of
         Sender \<Rightarrow> Inl ''No such file or directory''
       | Receiver \<Rightarrow> Inr (fs\<lparr>fs_names := (fs_names fs)(name \<mapsto> length (fs_queues fs)),
             fs_queues := fs_queues fs @ [\<lparr>kq_messages = [], kq_notify = False,
               kq_maxmsg = max_messages opts, kq_msgsize = max_msg_size opts\<rparr>]\<rparr>, length (fs_queues fs)))))"

definition open_queue :: "string option \<Rightarrow> MessageQueue \<Rightarrow> mqfs \<Rightarrow> mqfs \<times> MessageQueue result" where
  "open_queue denied q fs =
     (let fs = (if mq_role q = Receiver then mq_unlink (mq_name q) fs else fs) in
      case mq_open denied (mq_name q) (mq_role q) (mq_opts q) fs of
        Inl err \<Rightarrow> (fs, Inl (RuntimeError (''mq_open failed for '' @ [CHR 0x27] @ mq_name q @ [CHR 0x27] @ '': '' @ err)))
      | Inr (fs, fd) \<Rightarrow> (fs, Inr (q\<lparr>mq_fd := Some fd\<rparr>)))"

definition MessageQueue_new :: "string option \<Rightarrow> string \<Rightarrow> Role \<Rightarrow> Options \<Rightarrow> mqfs \<Rightarrow> mqfs \<times> MessageQueue result" where
  "MessageQueue_new denied name r opts fs =
     (if name = [] \<or> hd name \<noteq> CHR ''/''
      then (fs, Inl (InvalidArgument (''Queue name must start with '' @ [CHR 0x27, CHR ''/'', CHR 0x27])))
      else open_queue denied \<lparr>mq_name = name, mq_role = r, mq_opts = opts, mq_fd = None, mq_listening = False\<rparr> fs)"

text \<open>The guards of \<^verbatim>\<open>send\<close> and \<^verbatim>\<open>send_nonblocking\<close>; both then give the message to the kernel, whose
  descriptor is non-blocking either way.\<close>

definition send_checks :: "string \<Rightarrow> MessageQueue \<Rightarrow> string \<Rightarrow> unit result" where
  "send_checks op q message =
     (if mq_role q \<noteq> Sender then Inl (LogicError (op @ ''() called on a Receiver queue''))
      else if max_msg_size (mq_opts q) < int (length message) then Inl (InvalidArgument ''Message exceeds max_msg_size'')
      else Inr ())"

definition mq_send :: "MessageQueue \<Rightarrow> string \<Rightarrow> kqueue \<Rightarrow> (kqueue \<times> bool \<times> bool) result" where
  "mq_send q message k = res_map (\<lambda>_. kq_send message k) (send_checks ''send'' q message)"

definition send_nonblocking :: "MessageQueue \<Rightarrow> string \<Rightarrow> kqueue \<Rightarrow> (kqueue \<times> bool \<times> bool) result" where
  "send_nonblocking q message k = res_map (\<lambda>_. kq_send message k) (send_checks ''send_nonblocking'' q message)"

text \<open>\<open>refused\<close> is the error of \<^verbatim>\<open>mq_notify\<close>, if any.\<close>

definition arm_notify :: "string option \<Rightarrow> kqueue \<Rightarrow> kqueue result" where
  "arm_notify refused k = (case refused of
     Some err \<Rightarrow> Inl (RuntimeError (''mq_notify failed: '' @ err))
   | None \<Rightarrow> Inr (k\<lparr>kq_notify := True\<rparr>))"

definition listen :: "string option \<Rightarrow> MessageQueue \<Rightarrow> kqueue \<Rightarrow> (MessageQueue \<times> kqueue) result" where
  "listen refused q k =
     (if mq_role q \<noteq> Receiver then Inl (LogicError ''listen() called on a Sender queue'')
      else if mq_listening q then Inr (q, k)
      else res_map (\<lambda>k. (q\<lparr>mq_listening := True\<rparr>, k)) (arm_notify refused k))"

definition stop_listening :: "MessageQueue \<Rightarrow> kqueue \<Rightarrow> mqfs \<Rightarrow> MessageQueue \<times> kqueue \<times> mqfs" where
  "stop_listening q k fs =
     (if \<not> mq_listening q then (q, k, fs)
      else (q\<lparr>mq_listening := False\<rparr>, k\<lparr>kq_notify := False\<rparr>, mq_unlink (mq_name q) fs))"

text \<open>The queue and the names after the destructor.\<close>

definition MessageQueue_destroy :: "MessageQueue \<Rightarrow> kqueue \<Rightarrow> mqfs \<Rightarrow> kqueue \<times> mqfs" where
  "MessageQueue_destroy q k fs = (case stop_listening q k fs of (q, k, fs) \<Rightarrow>
     (k, if mq_fd q \<noteq> None \<and> mq_role q = Receiver then mq_unlink (mq_name q) fs else fs))"

definition pending_count :: "string option \<Rightarrow> kqueue \<Rightarrow> nat result" where
  "pending_count refused k = (case refused of
     Some err \<Rightarrow> Inl (RuntimeError (''mq_getattr failed: '' @ err))
   | None \<Rightarrow> Inr (length (kq_messages k)))"

text \<open>\<^verbatim>\<open>drain_and_rearm\<close> without interruption: the messages go to the handler until \<^verbatim>\<open>mq_receive\<close> finds
  the queue empty, then the notification is registered again.  \<open>Some n\<close> is an error of \<^verbatim>\<open>mq_receive\<close>
  after \<open>n\<close> messages, which ends the listening.\<close>

fun drain :: "(string \<Rightarrow> 'h \<Rightarrow> 'h result) \<Rightarrow> string list \<Rightarrow> 'h \<Rightarrow> 'h result" where
  "drain handler [] h = Inr h"
| "drain handler (m # ms) h = res_bind (handler m h) (drain handler ms)"

definition drain_and_rearm ::
  "(string \<Rightarrow> 'h \<Rightarrow> 'h result) \<Rightarrow> string option \<Rightarrow> nat option \<Rightarrow> MessageQueue \<Rightarrow> kqueue \<Rightarrow> 'h
   \<Rightarrow> (MessageQueue \<times> kqueue \<times> 'h) result" where
  "drain_and_rearm handler refused error q k h =
     (case error of
        Some n \<Rightarrow>
          if n \<le> length (kq_messages k) then
            res_map (\<lambda>h. (q\<lparr>mq_listening := False\<rparr>, k\<lparr>kq_messages := drop n (kq_messages k)\<rparr>, h))
              (drain handler (take n (kq_messages k)) h)
          else res_bind (drain handler (kq_messages k) h) (\<lambda>h.
            if mq_listening q then res_map (\<lambda>k. (q, k, h)) (arm_notify refused (k\<lparr>kq_messages := []\<rparr>))
            else Inr (q, k\<lparr>kq_messages := []\<rparr>, h))
      | None \<Rightarrow> res_bind (drain handler (kq_messages k) h) (\<lambda>h.
            if mq_listening q then res_map (\<lambda>k. (q, k, h)) (arm_notify refused (k\<lparr>kq_messages := []\<rparr>))
            else Inr (q, k\<lparr>kq_messages := []\<rparr>, h)))"

section \<open>Senders and the callback, interleaved\<close>

text \<open>Where the thread of \<^verbatim>\<open>on_notify\<close> is: not running, at the head of the loop, or between the
  \<^verbatim>\<open>mq_receive\<close> that found the queue empty and \<^verbatim>\<open>arm_notify\<close>.\<close>

datatype mq_phase = Idle | Draining | Rearming

text \<open>\<open>sys_sent\<close> and \<open>sys_seen\<close> record the messages that were accepted and those handed to the handler.\<close>

record 'h mq_system =
  sys_q :: MessageQueue
  sys_k :: kqueue
  sys_phase :: mq_phase
  sys_h :: 'h
  sys_sent :: "string list"
  sys_seen :: "string list"

inductive mq_step :: "(string \<Rightarrow> 'h \<Rightarrow> 'h result) \<Rightarrow> 'h mq_system \<Rightarrow> 'h mq_system \<Rightarrow> bool" for handler where
  Send: "kq_send m (sys_k s) = (k, fires, True) \<Longrightarrow>
    mq_step handler s (s\<lparr>sys_k := k, sys_phase := (if fires then Draining else sys_phase s), sys_sent := sys_sent s @ [m]\<rparr>)"
| Listen: "listen None (sys_q s) (sys_k s) = Inr (q, k) \<Longrightarrow> mq_step handler s (s\<lparr>sys_q := q, sys_k := k\<rparr>)"
| Stop: "stop_listening (sys_q s) (sys_k s) fs = (q, k, fs') \<Longrightarrow> mq_step handler s (s\<lparr>sys_q := q, sys_k := k\<rparr>)"
| Receive: "sys_phase s = Draining \<Longrightarrow> kq_messages (sys_k s) = m # ms \<Longrightarrow> handler m (sys_h s) = Inr h \<Longrightarrow>
    mq_step handler s (s\<lparr>sys_k := (sys_k s)\<lparr>kq_messages := ms\<rparr>, sys_h := h, sys_seen := sys_seen s @ [m]\<rparr>)"
| Empty: "sys_phase s = Draining \<Longrightarrow> kq_messages (sys_k s) = [] \<Longrightarrow>
    mq_step handler s (s\<lparr>sys_phase := (if mq_listening (sys_q s) then Rearming else Idle)\<rparr>)"
| Error: "sys_phase s = Draining \<Longrightarrow>
    mq_step handler s (s\<lparr>sys_q := (sys_q s)\<lparr>mq_listening := False\<rparr>, sys_phase := Idle\<rparr>)"
| Rearm: "sys_phase s = Rearming \<Longrightarrow> arm_notify None (sys_k s) = Inr k \<Longrightarrow>
    mq_step handler s (s\<lparr>sys_k := k, sys_phase := Idle\<rparr>)"

inductive_cases mq_stepE: "mq_step handler s s'"

text \<open>The receiver after its constructor.\<close>

definition mq_start :: "string \<Rightarrow> Options \<Rightarrow> 'h \<Rightarrow> 'h mq_system" where
  "mq_start name opts h =
     \<lparr>sys_q = \<lparr>mq_name = name, mq_role = Receiver, mq_opts = opts, mq_fd = Some 0, mq_listening = False\<rparr>,
      sys_k = \<lparr>kq_messages = [], kq_notify = False, kq_maxmsg = max_messages opts, kq_msgsize = max_msg_size opts\<rparr>,
      sys_phase = Idle, sys_h = h, sys_sent = [], sys_seen = []\<rparr>"

section \<open>Order and bounds\<close>

lemma kq_send_accepted:
  "kq_send m k = (k', fires, True) \<Longrightarrow>
   kq_messages k' = kq_messages k @ [m] \<and> int (length m) \<le> kq_msgsize k \<and>
   int (length (kq_messages k)) < kq_maxmsg k \<and> kq_maxmsg k' = kq_maxmsg k \<and> kq_msgsize k' = kq_msgsize k \<and>
   fires = (kq_notify k \<and> kq_messages k = [])"
  by (auto simp: kq_send_def Let_def split: if_splits)

lemma listen_k: "listen None q k = Inr (q', k') \<Longrightarrow>
   kq_messages k' = kq_messages k \<and> kq_maxmsg k' = kq_maxmsg k \<and> kq_msgsize k' = kq_msgsize k"
  by (auto simp: listen_def arm_notify_def split: if_splits)

lemma stop_k: "stop_listening q k fs = (q', k', fs') \<Longrightarrow>
   kq_messages k' = kq_messages k \<and> kq_maxmsg k' = kq_maxmsg k \<and> kq_msgsize k' = kq_msgsize k"
  by (auto simp: stop_listening_def split: if_splits)

definition mq_inv :: "Options \<Rightarrow> 'h mq_system \<Rightarrow> bool" where
  "mq_inv opts s = (sys_sent s = sys_seen s @ kq_messages (sys_k s) \<and>
     kq_maxmsg (sys_k s) = max_messages opts \<and> kq_msgsize (sys_k s) = max_msg_size opts \<and>
     int (length (kq_messages (sys_k s))) \<le> max_messages opts \<and>
     (\<forall>m \<in> set (sys_sent s). int (length m) \<le> max_msg_size opts))"

lemma mq_inv_step: "mq_step handler s s' \<Longrightarrow> mq_inv opts s \<Longrightarrow> mq_inv opts s'"
proof (induction rule: mq_step.induct)
  case (Send m s k fires)
  with kq_send_accepted [OF Send(1)] show ?case by (auto simp: mq_inv_def)
next
  case (Listen s q k)
  with listen_k [OF Listen(1)] show ?case by (simp add: mq_inv_def)
next
  case (Stop s fs q k fs')
  with stop_k [OF Stop(1)] show ?case by (simp add: mq_inv_def)
qed (auto simp: mq_inv_def arm_notify_def)

lemma mq_inv_start: "0 \<le> max_messages opts \<Longrightarrow> mq_inv opts (mq_start name opts h)"
  by (simp add: mq_inv_def mq_start_def)

lemma mq_inv_reachable:
  assumes "(mq_step handler)\<^sup>*\<^sup>* (mq_start name opts h) s" "0 \<le> max_messages opts"
  shows "mq_inv opts s"
  using assms(1) by induction (auto simp: mq_inv_start assms(2) intro: mq_inv_step)

section \<open>Deafness\<close>

text \<open>No thread is running and the queue is not empty: no message can start one any more.\<close>

definition deaf :: "'h mq_system \<Rightarrow> bool" where
  "deaf s = (sys_phase s = Idle \<and> kq_messages (sys_k s) \<noteq> [])"

lemma deaf_step:
  assumes "mq_step handler s s'" "deaf s"
  shows "deaf s' \<and> sys_seen s' = sys_seen s"
  using assms
proof (induction rule: mq_step.induct)
  case (Send m s k fires)
  with kq_send_accepted [OF Send(1)] show ?case by (simp add: deaf_def)
next
  case (Listen s q k)
  with listen_k [OF Listen(1)] show ?case by (simp add: deaf_def)
next
  case (Stop s fs q k fs')
  with stop_k [OF Stop(1)] show ?case by (simp add: deaf_def)
qed (auto simp: deaf_def)

lemma deaf_forever:
  assumes "(mq_step handler)\<^sup>*\<^sup>* s s'" "deaf s"
  shows "deaf s' \<and> sys_seen s' = sys_seen s"
  using assms by (induction rule: rtranclp_induct) (auto dest: deaf_step)

section \<open>An uninterrupted callback\<close>

lemma drain_steps:
  assumes "sys_phase s = Draining" "drain handler (kq_messages (sys_k s)) (sys_h s) = Inr h"
  shows "(mq_step handler)\<^sup>*\<^sup>* s (s\<lparr>sys_k := (sys_k s)\<lparr>kq_messages := []\<rparr>, sys_h := h,
    sys_seen := sys_seen s @ kq_messages (sys_k s)\<rparr>)"
  using assms
proof (induction "kq_messages (sys_k s)" arbitrary: s)
  case Nil
  then have "s\<lparr>sys_k := (sys_k s)\<lparr>kq_messages := []\<rparr>, sys_h := h, sys_seen := sys_seen s @ kq_messages (sys_k s)\<rparr> = s"
    by simp
  then show ?case by simp
next
  case (Cons m ms)
  let ?drained = "\<lambda>s. s\<lparr>sys_k := (sys_k s)\<lparr>kq_messages := []\<rparr>, sys_h := h, sys_seen := sys_seen s @ kq_messages (sys_k s)\<rparr>"
  from Cons.prems(2) Cons.hyps(2) [symmetric] obtain h1 where h1: "handler m (sys_h s) = Inr h1" "drain handler ms h1 = Inr h"
    by (auto simp: res_bind_eq_Inr)
  define s1 where "s1 = s\<lparr>sys_k := (sys_k s)\<lparr>kq_messages := ms\<rparr>, sys_h := h1, sys_seen := sys_seen s @ [m]\<rparr>"
  have "mq_step handler s s1"
    unfolding s1_def by (rule mq_step.Receive [where m = m and ms = ms]) (use Cons.prems(1) Cons.hyps(2) h1 in simp_all)
  moreover have "(mq_step handler)\<^sup>*\<^sup>* s1 (?drained s1)"
    by (rule Cons.hyps(1)) (use Cons.prems(1) h1 in \<open>simp_all add: s1_def\<close>)
  moreover have "?drained s1 = ?drained s" using Cons.hyps(2) [symmetric] by (simp add: s1_def)
  ultimately show ?case by (metis converse_rtranclp_into_rtranclp)
qed

lemma drain_total: "(\<And>m h. is_ok (handler m h)) \<Longrightarrow> \<exists>h'. drain handler ms h = Inr h'"
proof (induction ms arbitrary: h)
  case (Cons m ms)
  from Cons.prems obtain h1 where "handler m h = Inr h1" by (meson is_okE)
  with Cons.IH [OF Cons.prems, of h1] show ?case by simp
qed simp

section \<open>Properties\<close>


text \<open>Six steps: the second message arrives between the \<^verbatim>\<open>mq_receive\<close> that found the queue empty and
  the registration.\<close>

lemma lost_wakeup_execution:
  assumes "handler m h = Inr h1" "int (length m) \<le> max_msg_size opts" "int (length m') \<le> max_msg_size opts" "1 \<le> max_messages opts"
  shows "\<exists>s. (mq_step handler)\<^sup>*\<^sup>* (mq_start name opts h) s \<and> deaf s \<and> mq_listening (sys_q s) \<and> kq_notify (sys_k s) \<and>
    sys_seen s = [m] \<and> sys_sent s = [m, m']"
proof -
  let ?q = "\<lambda>l. \<lparr>mq_name = name, mq_role = Receiver, mq_opts = opts, mq_fd = Some 0, mq_listening = l\<rparr>"
  let ?k = "\<lambda>ms n. \<lparr>kq_messages = ms, kq_notify = n, kq_maxmsg = max_messages opts, kq_msgsize = max_msg_size opts\<rparr>"
  let ?s = "\<lambda>ms n p h sent seen. \<lparr>sys_q = ?q True, sys_k = ?k ms n, sys_phase = p, sys_h = h, sys_sent = sent, sys_seen = seen\<rparr>"
  have "mq_step handler (mq_start name opts h) (?s [] True Idle h [] [])"
    using mq_step.Listen [of "mq_start name opts h" "?q True" "?k [] True" handler]
    by (simp add: mq_start_def listen_def arm_notify_def)
  moreover have "mq_step handler (?s [] True Idle h [] []) (?s [m] False Draining h [m] [])"
    using mq_step.Send [of m "?s [] True Idle h [] []" "?k [m] False" True handler] assms by (simp add: kq_send_def)
  moreover have "mq_step handler (?s [m] False Draining h [m] []) (?s [] False Draining h1 [m] [m])"
    using mq_step.Receive [of "?s [m] False Draining h [m] []" m "[]" handler h1] assms by simp
  moreover have "mq_step handler (?s [] False Draining h1 [m] [m]) (?s [] False Rearming h1 [m] [m])"
    using mq_step.Empty [of "?s [] False Draining h1 [m] [m]" handler] by simp
  moreover have "mq_step handler (?s [] False Rearming h1 [m] [m]) (?s [m'] False Rearming h1 [m, m'] [m])"
    using mq_step.Send [of m' "?s [] False Rearming h1 [m] [m]" "?k [m'] False" False handler] assms by (simp add: kq_send_def)
  moreover have "mq_step handler (?s [m'] False Rearming h1 [m, m'] [m]) (?s [m'] True Idle h1 [m, m'] [m])"
    using mq_step.Rearm [of "?s [m'] False Rearming h1 [m, m'] [m]" "?k [m'] True" handler] by (simp add: arm_notify_def)
  ultimately have "(mq_step handler)\<^sup>*\<^sup>* (mq_start name opts h) (?s [m'] True Idle h1 [m, m'] [m])"
    by (meson converse_rtranclp_into_rtranclp rtranclp.rtrancl_refl)
  then show ?thesis by (intro exI [of _ "?s [m'] True Idle h1 [m, m'] [m]"]) (simp add: deaf_def)
qed


text \<open>
  C17.  Commands can be lost for good.  A message that arrives after \<^verbatim>\<open>mq_receive\<close> found the queue
  empty and before \<^verbatim>\<open>mq_notify\<close> leaves a registration on a queue that is not empty, which never
  fires: the agent keeps listening, and whatever is sent afterwards, no message is handled again.
\<close>

theorem mq_lost_wakeup:
  assumes "handler m h = Inr h1" "int (length m) \<le> max_msg_size opts" "int (length m') \<le> max_msg_size opts" "1 \<le> max_messages opts"
  shows "\<exists>s. (mq_step handler)\<^sup>*\<^sup>* (mq_start name opts h) s \<and> mq_listening (sys_q s) \<and>
    sys_sent s = [m, m'] \<and> (\<forall>s'. (mq_step handler)\<^sup>*\<^sup>* s s' \<longrightarrow> sys_seen s' = [m])"
proof -
  from lost_wakeup_execution [of handler m h h1 opts m' name] assms obtain s where "(mq_step handler)\<^sup>*\<^sup>* (mq_start name opts h) s" "deaf s"
    "mq_listening (sys_q s)" "sys_seen s = [m]" "sys_sent s = [m, m']" by blast
  with deaf_forever [of handler s] show ?thesis by (intro exI [of _ s]) auto
qed

theorem mq_lost_wakeup_witness:
  "\<exists>s. (mq_step (\<lambda>m h. Inr h))\<^sup>*\<^sup>* (mq_start ''/q'' default_Options ()) s \<and> mq_listening (sys_q s) \<and>
     sys_sent s = [''dump_start'', ''dump_end''] \<and>
     (\<forall>s'. (mq_step (\<lambda>m h. Inr h))\<^sup>*\<^sup>* s s' \<longrightarrow> sys_seen s' = [''dump_start''])"
  by (rule mq_lost_wakeup [of "\<lambda>m h. Inr h" _ _ "()"]) (simp_all add: default_Options_def)



end
