(* ===== verification/Scheduler.thy ===== *)
theory Scheduler
  imports Collectors Metrics_Buffer Exporter Message_Queue
begin

text \<open>
  \<^verbatim>\<open>Scheduler\<close> (scheduler.h / .cc): the collection loop, the handler for the commands that arrive on
  the message queue, and the local dashboard.

  \<^verbatim>\<open>Run\<close> initialises the collectors and then goes round them: \<^verbatim>\<open>Collect\<close>, \<^verbatim>\<open>AddMetrics\<close>, \<^verbatim>\<open>Dump\<close>.
  The handler runs on a thread of its own, so an execution is a list of events in which
  collections and commands alternate in any way; the list ends when a signal clears \<^verbatim>\<open>g_running\<close>.
  An event is atomic in the model.
\<close>

section \<open>State\<close>

record 'd Scheduler =
  sch_collectors :: "'d Collector list"
  sch_config :: Config
  sch_buffer :: MetricsBuffer
  sch_exporter :: Exporter
  sch_files :: files
  print_dashboard :: bool

definition Scheduler_new :: "(string \<Rightarrow> bool) \<Rightarrow> Config \<Rightarrow> 'd Collector list \<Rightarrow> MetricsBuffer \<Rightarrow> files \<Rightarrow> 'd Scheduler" where
  "Scheduler_new exists config collectors buffer files =
     \<lparr>sch_collectors = collectors, sch_config = config, sch_buffer = buffer,
      sch_exporter = Exporter_new exists config, sch_files = files, print_dashboard = False\<rparr>"

section \<open>Commands\<close>

text \<open>\<^verbatim>\<open>remove_prefix\<close> changes \<^verbatim>\<open>message\<close> itself, so the second test looks at the path.  \<^verbatim>\<open>find\<close> returns
  \<^verbatim>\<open>npos\<close>, which is -1 as an \<^verbatim>\<open>int\<close>, when there is no semicolon.\<close>

definition on_message :: "export_env \<Rightarrow> string \<Rightarrow> Exporter \<times> files \<Rightarrow> (Exporter \<times> files) result" where
  "on_message env message st =
     (let finish = (\<lambda>message st. if starts_with message ''dump_end'' then (EndDump (fst st), snd st) else st) in
      if starts_with message ''dump_start'' then
        if 11 < length message then
          let path_start = (case str_find message '';'' of Some i \<Rightarrow> int i | None \<Rightarrow> - 1);
              message = drop (nat (path_start + 1)) message
          in Inr (finish message (StartDump env (Some message) st))
        else Inl EmptyOptional
      else Inr (finish message st))"

section \<open>The loop\<close>

fun init_collectors :: "'d sensors \<Rightarrow> 'd Collector list \<Rightarrow> 'd Collector list result" where
  "init_collectors e [] = Inr []"
| "init_collectors e (c # cs) = (case Collector_Init e c of
     (c, Inl err) \<Rightarrow> Inl err
   | (c, Inr _) \<Rightarrow> res_map (\<lambda>cs. c # cs) (init_collectors e cs))"

text \<open>\<open>Tick i e\<close>: the body of the inner loop for collector \<open>i\<close>; \<open>Command\<close>: the handler.\<close>

datatype 'd sched_event = Tick nat "'d sensors" | Command export_env string

definition collect_one :: "name_fun \<Rightarrow> (double \<Rightarrow> string) \<Rightarrow> nat \<Rightarrow> 'd sensors \<Rightarrow> 'd Scheduler \<Rightarrow> ('d Scheduler \<times> Metric list) result" where
  "collect_one tn sd i e s =
     (if length (sch_collectors s) \<le> i then Inl OutOfBounds
      else res_bind (Collector_Collect e (sch_collectors s ! i)) (\<lambda>(c, metrics).
        res_map (\<lambda>buffer.
          (s\<lparr>sch_collectors := (sch_collectors s)[i := c], sch_buffer := buffer,
             sch_files := Dump tn sd metrics (sch_exporter s) (sch_files s)\<rparr>, metrics))
          (AddMetrics metrics (sch_buffer s))))"

definition handle_command :: "export_env \<Rightarrow> string \<Rightarrow> 'd Scheduler \<Rightarrow> 'd Scheduler result" where
  "handle_command env message s = res_map (\<lambda>(e, fs). s\<lparr>sch_exporter := e, sch_files := fs\<rparr>)
     (on_message env message (sch_exporter s, sch_files s))"

text \<open>The events in turn; the metrics collected on the way are returned too.\<close>

fun run_events :: "name_fun \<Rightarrow> (double \<Rightarrow> string) \<Rightarrow> 'd sched_event list \<Rightarrow> 'd Scheduler \<Rightarrow> ('d Scheduler \<times> Metric list) result" where
  "run_events tn sd [] s = Inr (s, [])"
| "run_events tn sd (Tick i e # evs) s = res_bind (collect_one tn sd i e s) (\<lambda>(s, out).
     res_map (\<lambda>(s, rest). (s, out @ rest)) (run_events tn sd evs s))"
| "run_events tn sd (Command env message # evs) s = res_bind (handle_command env message s) (run_events tn sd evs)"

text \<open>\<open>listening\<close> is what \<^verbatim>\<open>ms_queue_.listen\<close> returns; the end of the run disarms the queue.\<close>

definition Scheduler_Run ::
  "name_fun \<Rightarrow> (double \<Rightarrow> string) \<Rightarrow> 'd sensors \<Rightarrow> (MessageQueue \<times> kqueue) result \<Rightarrow> 'd sched_event list \<Rightarrow> 'd Scheduler
   \<Rightarrow> ('d Scheduler \<times> Metric list) result" where
  "Scheduler_Run tn sd e0 listening evs s =
     res_bind (init_collectors e0 (sch_collectors s)) (\<lambda>cs.
     res_bind listening (\<lambda>_.
     res_map (\<lambda>(s, out). (s\<lparr>sch_exporter := EndDump (sch_exporter s)\<rparr>, out))
       (run_events tn sd evs (s\<lparr>sch_collectors := cs\<rparr>))))"

text \<open>One pass of the outer loop, with the readings each collector meets.\<close>

definition one_pass :: "'d sensors list \<Rightarrow> 'd sched_event list" where
  "one_pass es = map2 Tick [0..<length es] es"

section \<open>The dashboard\<close>

definition show_word :: "'a::len word \<Rightarrow> string" where
  "show_word w = show_nat (unat w)"

definition DescribeKey :: "BufferKey \<Rightarrow> string" where
  "DescribeKey key =
     (if bk_pci_domain key \<noteq> 0 \<or> bk_pci_bus key \<noteq> 0 \<or> bk_pci_device key \<noteq> 0 \<or> bk_pci_function key \<noteq> 0 then
        ''gpu='' @ show_word (bk_pci_domain key) @ '':'' @ show_word (bk_pci_bus key) @ '':'' @
        show_word (bk_pci_device key) @ ''.'' @ show_word (bk_pci_function key)
      else if bk_socket_index key \<noteq> 0 \<or> bk_core_index key \<noteq> 0 then
        ''cpu='' @ show_word (bk_socket_index key) @ ''/'' @ show_word (bk_core_index key)
      else if bk_ifindex key \<noteq> 0 then ''net_ifindex='' @ show_word (bk_ifindex key)
      else if bk_disk_major key \<noteq> 0 \<or> bk_disk_minor key \<noteq> 0 then
        ''disk='' @ show_word (bk_disk_major key) @ '':'' @ show_word (bk_disk_minor key)
      else ''system'')"

text \<open>\<^verbatim>\<open>std::left << std::setw(n)\<close>.\<close>

definition setw_left :: "nat \<Rightarrow> string \<Rightarrow> string" where
  "setw_left n s = s @ replicate (n - length s) CHR '' ''"

definition strip_metric_type :: "string \<Rightarrow> string" where
  "strip_metric_type name = (if starts_with name ''METRIC_TYPE_'' then drop (length ''METRIC_TYPE_'') name else name)"

definition dashboard_row :: "(i32 \<Rightarrow> string) \<Rightarrow> (double \<Rightarrow> string) \<Rightarrow> BufferKey \<times> Sample \<Rightarrow> string" where
  "dashboard_row type_name fixed2 ks = (case ks of (key, sample) \<Rightarrow>
     setw_left 42 (strip_metric_type (type_name (bk_metric_type key))) @ setw_left 38 (DescribeKey key) @ ''    '' @
     fixed2 (sample_value sample) @ '' @ '' @ show_int (sint (timestamp_ns sample)) @ newline)"

text \<open>\<open>type_name\<close> and \<open>fixed2\<close> print a metric type and a number with two decimals; \<open>order\<close> is the order in
  which \<^verbatim>\<open>unordered_map\<close> enumerates its keys.\<close>

definition PrintDashboard :: "(i32 \<Rightarrow> string) \<Rightarrow> (double \<Rightarrow> string) \<Rightarrow> BufferKey list \<Rightarrow> 'd Scheduler \<Rightarrow> string result" where
  "PrintDashboard type_name fixed2 order s =
     res_map (\<lambda>latest.
       [CHR 0x1B] @ ''[2J'' @ [CHR 0x1B] @ ''[1;1H'' @
       replicate 47 CHR ''='' @ newline @ ''    VOLTA AGENT - ACTIVE MONITOR    '' @ newline @
       replicate 47 CHR ''='' @ newline @
       setw_left 42 ''METRIC NAME'' @ setw_left 38 ''DEVICE'' @ ''    '' @ ''VALUE'' @ newline @
       replicate 47 CHR ''-'' @ newline @
       concat (map (dashboard_row type_name fixed2) latest) @
       replicate 47 CHR ''-'' @ newline @
       ''Data points collected: '' @ show_nat (length latest) @ newline @
       (if IsActive (sch_exporter s) then ''Export in progress... '' @ newline else '''') @
       ''# of metrics buffered: '' @ show_word (mb_capacity_per_series (sch_buffer s)) @ newline @
       ''Press Ctrl+C to exit.'' @ newline)
     (LatestSamples order (sch_buffer s))"

section \<open>What a run does\<close>

lemma collect_one_cases:
  assumes "collect_one tn sd i e s = Inr (s', out)"
  obtains c buffer where "i < length (sch_collectors s)" "Collector_Collect e (sch_collectors s ! i) = Inr (c, out)"
    "AddMetrics out (sch_buffer s) = Inr buffer"
    "s' = s\<lparr>sch_collectors := (sch_collectors s)[i := c], sch_buffer := buffer,
       sch_files := Dump tn sd out (sch_exporter s) (sch_files s)\<rparr>"
  using assms by (auto simp: collect_one_def res_bind_eq_Inr res_map_eq_Inr split: if_splits prod.splits)

lemma handle_command_cases:
  assumes "handle_command env m s = Inr s'"
  obtains e fs where "on_message env m (sch_exporter s, sch_files s) = Inr (e, fs)"
    "s' = s\<lparr>sch_exporter := e, sch_files := fs\<rparr>"
  using assms by (auto simp: handle_command_def res_map_eq_Inr)

lemma run_events_Tick:
  assumes "run_events tn sd (Tick i e # evs) s = Inr (s', out)"
  obtains s1 out1 rest where "collect_one tn sd i e s = Inr (s1, out1)" "run_events tn sd evs s1 = Inr (s', rest)"
    "out = out1 @ rest"
  using assms by (auto simp: res_bind_eq_Inr res_map_eq_Inr)

lemma run_events_Command:
  assumes "run_events tn sd (Command env m # evs) s = Inr (s', out)"
  obtains s1 where "handle_command env m s = Inr s1" "run_events tn sd evs s1 = Inr (s', out)"
  using assms by (auto simp: res_bind_eq_Inr)

lemma AddMetrics_append: "AddMetrics (xs @ ys) mb = res_bind (AddMetrics xs mb) (AddMetrics ys)"
  unfolding AddMetrics_def [abs_def] by (rule res_fold_append)

lemma run_events_buffer:
  "run_events tn sd evs s = Inr (s', out) \<Longrightarrow> AddMetrics out (sch_buffer s) = Inr (sch_buffer s')"
proof (induction tn sd evs s arbitrary: out rule: run_events.induct)
  case (1 tn sd s)
  then show ?case by (simp add: AddMetrics_def)
next
  case (2 tn sd i e evs s)
  from 2(2) obtain s1 out1 rest where r: "collect_one tn sd i e s = Inr (s1, out1)"
    "run_events tn sd evs s1 = Inr (s', rest)" "out = out1 @ rest" by (rule run_events_Tick)
  from r(1) have "AddMetrics out1 (sch_buffer s) = Inr (sch_buffer s1)" by (rule collect_one_cases) simp
  with 2(1) [OF r(2)] r(3) show ?case by (simp add: AddMetrics_append)
next
  case (3 tn sd env m evs s)
  from 3(2) obtain s1 where r: "handle_command env m s = Inr s1" "run_events tn sd evs s1 = Inr (s', out)"
    by (rule run_events_Command)
  from r(1) have "sch_buffer s1 = sch_buffer s" by (rule handle_command_cases) simp
  with 3(1) [OF r(2)] show ?case by simp
qed

text \<open>What a property of every collector gives for all the metrics of a run.\<close>

lemma run_events_out:
  assumes "run_events tn sd evs s = Inr (s', out)" "m \<in> set out"
    "\<forall>c \<in> set (sch_collectors s). set (Collector_requested c) \<subseteq> D"
  shows "metric_type m \<in> D"
  using assms
proof (induction tn sd evs s arbitrary: out rule: run_events.induct)
  case (2 tn sd i e evs s)
  from 2(2) obtain s1 out1 rest where r: "collect_one tn sd i e s = Inr (s1, out1)"
    "run_events tn sd evs s1 = Inr (s', rest)" "out = out1 @ rest" by (rule run_events_Tick)
  from r(1) obtain c buffer where c: "i < length (sch_collectors s)" "Collector_Collect e (sch_collectors s ! i) = Inr (c, out1)"
    "sch_collectors s1 = (sch_collectors s)[i := c]" by (rule collect_one_cases) simp
  have ci: "sch_collectors s ! i \<in> set (sch_collectors s)" using c(1) by simp
  have c': "Collector_requested c = Collector_requested (sch_collectors s ! i)"
    using any.keep_law [OF c(2)] by blast
  have "x = c \<or> x \<in> set (sch_collectors s)" if "x \<in> set (sch_collectors s1)" for x
    using that set_update_subset_insert [of "sch_collectors s" i c] unfolding c(3) by blast
  with 2(4) ci c' have "\<forall>x \<in> set (sch_collectors s1). set (Collector_requested x) \<subseteq> D" by metis
  from 2(1) [OF r(2) _ this] have "m \<in> set rest \<Longrightarrow> metric_type m \<in> D" .
  moreover have "m \<in> set out1 \<Longrightarrow> metric_type m \<in> D" using any.out_law [OF c(2)] 2(4) ci by blast
  ultimately show ?case using 2(3) r(3) by auto
next
  case (3 tn sd env msg evs s)
  from 3(2) obtain s1 where r: "handle_command env msg s = Inr s1" "run_events tn sd evs s1 = Inr (s', out)"
    by (rule run_events_Command)
  from r(1) have "sch_collectors s1 = sch_collectors s" by (rule handle_command_cases) simp
  with 3(1) [OF r(2)] 3(3,4) show ?case by simp
qed simp

lemma init_collectors_laws:
  "init_collectors e cs = Inr cs' \<Longrightarrow> map Collector_requested cs' = map Collector_requested cs \<and>
   map Collector_Satisfiable cs' = map Collector_Satisfiable cs"
proof (induction cs arbitrary: cs')
  case (Cons c cs)
  obtain c1 r where c1: "Collector_Init e c = (c1, r)" by fastforce
  with Cons.prems obtain b cs1 where "r = Inr b" "init_collectors e cs = Inr cs1" "cs' = c1 # cs1"
    by (auto simp: res_map_eq_Inr split: sum.splits)
  with Cons.IH any.init_law [of e c] c1 show ?case by simp
qed simp

section \<open>Passes\<close>

text \<open>No two collectors can satisfy the same type: so it is for the four classes.\<close>

definition disjoint_collectors :: "'d Collector list \<Rightarrow> bool" where
  "disjoint_collectors cs = (\<forall>i < length cs. \<forall>j < length cs. i \<noteq> j \<longrightarrow>
     set (Collector_Satisfiable (cs ! i)) \<inter> set (Collector_Satisfiable (cs ! j)) = {})"

lemma ticks_distinct:
  assumes "run_events tn sd (map2 Tick is es) s = Inr (s', out)" "distinct is" "length is = length es"
    "disjoint_collectors (sch_collectors s)"
  shows "distinct (map metric_type out) \<and>
    (\<forall>m \<in> set out. \<exists>i \<in> set is. i < length (sch_collectors s) \<and> metric_type m \<in> set (Collector_Satisfiable (sch_collectors s ! i)))"
  using assms
proof (induction "is" es arbitrary: s out rule: list_induct2')
  case (4 i "is" e es)
  have "run_events tn sd (Tick i e # map2 Tick is es) s = Inr (s', out)" using 4(2) by simp
  then obtain s1 out1 rest where r: "collect_one tn sd i e s = Inr (s1, out1)"
    "run_events tn sd (map2 Tick is es) s1 = Inr (s', rest)" "out = out1 @ rest" by (rule run_events_Tick)
  from r(1) obtain c buffer where c: "i < length (sch_collectors s)" "Collector_Collect e (sch_collectors s ! i) = Inr (c, out1)"
    "sch_collectors s1 = (sch_collectors s)[i := c]" by (rule collect_one_cases) simp
  have sat: "Collector_Satisfiable (sch_collectors s1 ! j) = Collector_Satisfiable (sch_collectors s ! j)" for j
    using any.keep_law [OF c(2)] c(1,3) by (cases "j = i") simp_all
  have len: "length (sch_collectors s1) = length (sch_collectors s)" using c(3) by simp
  have dis: "disjoint_collectors (sch_collectors s1)" using 4(5) by (simp add: disjoint_collectors_def sat len)
  note out1 = any.out_law [OF c(2)]
  have rest: "distinct (map metric_type rest)" "\<forall>m \<in> set rest. \<exists>j \<in> set is. j < length (sch_collectors s) \<and>
      metric_type m \<in> set (Collector_Satisfiable (sch_collectors s ! j))"
    using 4(1) [OF r(2) _ _ dis] 4(3,4) by (simp_all add: sat len)
  have "metric_type m \<noteq> metric_type m'" if m: "m \<in> set out1" "m' \<in> set rest" for m m'
  proof -
    from rest(2) m(2) obtain j where j: "j \<in> set is" "j < length (sch_collectors s)"
      "metric_type m' \<in> set (Collector_Satisfiable (sch_collectors s ! j))" by blast
    have "j \<noteq> i" using 4(3) j(1) by auto
    then have "set (Collector_Satisfiable (sch_collectors s ! j)) \<inter> set (Collector_Satisfiable (sch_collectors s ! i)) = {}"
      using 4(5) c(1) j(2) by (simp add: disjoint_collectors_def)
    moreover have "metric_type m \<in> set (Collector_Satisfiable (sch_collectors s ! i))" using out1 m(1) by blast
    ultimately show ?thesis using j(3) by (metis disjoint_iff)
  qed
  then have "set (map metric_type out1) \<inter> set (map metric_type rest) = {}" by (simp add: disjoint_iff image_iff) metis
  then have "distinct (map metric_type out)" using out1 rest(1) unfolding r(3) by simp
  moreover have "\<exists>j \<in> set (i # is). j < length (sch_collectors s) \<and>
      metric_type m \<in> set (Collector_Satisfiable (sch_collectors s ! j))" if "m \<in> set out" for m
  proof (cases "m \<in> set out1")
    case True
    with out1 c(1) show ?thesis by (intro bexI [of _ i]) auto
  next
    case False
    with that r(3) rest(2) show ?thesis by auto
  qed
  ultimately show ?case by blast
qed simp_all

lemma samples_for_distinct:
  assumes "distinct (map metric_type ms)"
  shows "length (samples_for k ms) \<le> 1"
  using assms
proof (induction ms)
  case (Cons m ms)
  have "samples_for k ms = []" if "MakeBufferKey m = k" "metric_type m \<noteq> METRIC_TYPE_UNSPECIFIED"
  proof -
    have "MakeBufferKey x \<noteq> k" if x: "x \<in> set ms" for x
    proof
      assume "MakeBufferKey x = k"
      with \<open>MakeBufferKey m = k\<close> have "MetricType_value (metric_type x) = MetricType_value (metric_type m)"
        by (metis MakeBufferKey_type)
      then have "metric_type x = metric_type m" by (simp add: MetricType_value_inj)
      with Cons.prems x show False by (metis distinct.simps(2) list.map(2) image_eqI set_map)
    qed
    then show ?thesis by (auto simp: samples_for_def filter_empty_conv)
  qed
  with Cons show ?case by (cases "MakeBufferKey m = k"; cases "metric_type m = METRIC_TYPE_UNSPECIFIED") auto
qed simp

section \<open>Exporting\<close>

lemma ticks_files:
  assumes "run_events tn sd evs s = Inr (s', out)" "\<forall>ev \<in> set evs. \<exists>i e. ev = Tick i e"
  shows "sch_exporter s' = sch_exporter s \<and>
    (\<exists>batches. concat batches = out \<and> sch_files s' = fold (\<lambda>ms. Dump tn sd ms (sch_exporter s)) batches (sch_files s))"
  using assms
proof (induction tn sd evs s arbitrary: out rule: run_events.induct)
  case (1 tn sd s)
  then show ?case by (auto intro: exI [of _ "[]"])
next
  case (2 tn sd i e evs s)
  from 2(2) obtain s1 out1 rest where r: "collect_one tn sd i e s = Inr (s1, out1)"
    "run_events tn sd evs s1 = Inr (s', rest)" "out = out1 @ rest" by (rule run_events_Tick)
  from r(1) have s1: "sch_exporter s1 = sch_exporter s" "sch_files s1 = Dump tn sd out1 (sch_exporter s) (sch_files s)"
    by (auto elim: collect_one_cases)
  from 2(1) [OF r(2)] 2(3) obtain batches where "sch_exporter s' = sch_exporter s1" "concat batches = rest"
    "sch_files s' = fold (\<lambda>ms. Dump tn sd ms (sch_exporter s1)) batches (sch_files s1)" by auto
  with s1 r(3) show ?case by (auto intro!: exI [of _ "out1 # batches"])
qed auto

lemma on_message_start:
  assumes "dir \<noteq> []" "\<not> starts_with dir ''dump_end''"
  shows "on_message env (''dump_start;'' @ dir) st = Inr (StartDump env (Some dir) st)"
  using assms by (simp add: on_message_def starts_with_def Let_def)

lemma on_message_end: "on_message env ''dump_end'' st = Inr (EndDump (fst st), snd st)"
  by (simp add: on_message_def starts_with_def)

lemma run_events_append:
  "run_events tn sd (evs @ evs') s = res_bind (run_events tn sd evs s) (\<lambda>(s, out).
     res_map (\<lambda>(s, rest). (s, out @ rest)) (run_events tn sd evs' s))"
proof (induction tn sd evs s rule: run_events.induct)
  case (1 tn sd s)
  then show ?case by (cases "run_events tn sd evs' s") auto
next
  case (2 tn sd i e evs s)
  show ?case
  proof (cases "collect_one tn sd i e s")
    case (Inr p)
    then obtain s1 out1 where p: "collect_one tn sd i e s = Inr (s1, out1)" by (cases p) simp
    have "run_events tn sd (evs @ evs') s1 = res_bind (run_events tn sd evs s1) (\<lambda>(s, out).
        res_map (\<lambda>(s, rest). (s, out @ rest)) (run_events tn sd evs' s))"
      using 2 p by simp
    with p show ?thesis
      by (cases "run_events tn sd evs s1") (auto simp: res_map_def split: sum.split)
  qed simp
next
  case (3 tn sd env m evs s)
  then show ?case by (cases "handle_command env m s") simp_all
qed

section \<open>Dashboard names\<close>

lemma sint_small: "unat (w :: u32) < 256 \<Longrightarrow> sint w = int (unat w)"
proof -
  assume "unat w < 256"
  then have "uint w < 256" by (metis of_nat_less_iff of_nat_numeral of_nat_unat)
  moreover have "- (2 ^ 31) \<le> uint w" by (rule order_trans [OF _ uint_ge_0]) simp
  ultimately show ?thesis using signed_take_bit_int_eq_self [of 31 "uint w"] by (simp add: sint_uint)
qed

lemma show_as_int_small: "unat w < 256 \<Longrightarrow> show_as_int w = show_word (ucast w :: u8)"
proof -
  assume "unat w < 256"
  then have "sint w = int (unat w)" "unat (ucast w :: u8) = unat w"
    using ucast_narrow [of w, where 'a = 8] sint_small [of w] by simp_all
  then show ?thesis by (simp add: show_as_int_def show_word_def show_int_def)
qed

lemma show_u32_16: "unat w < 65536 \<Longrightarrow> show_u32 w = show_word (ucast w :: u16)"
  using ucast_narrow [of w, where 'a = 16] by (simp add: show_u32_def show_word_def)

lemma show_u32_word: "show_word (w :: u32) = show_u32 w"
  by (simp add: show_u32_def show_word_def)

lemma ucast_zero_iff:
  "unat (w :: u32) < 2 ^ LENGTH('a) \<Longrightarrow> (ucast w :: 'a::len word) = 0 \<longleftrightarrow> w = 0"
  using ucast_narrow [of w, where 'a = 'a] by (metis unat_eq_zero)

definition zero_device :: "DeviceId \<Rightarrow> bool" where
  "zero_device d = (case d of
     Gpu g \<Rightarrow> pci_domain g = 0 \<and> pci_bus g = 0 \<and> pci_device g = 0 \<and> pci_function g = 0
   | Cpu c \<Rightarrow> socket_index c = 0 \<and> core_index c = 0
   | Net n \<Rightarrow> ifindex n = 0
   | Disk k \<Rightarrow> disk_major k = 0 \<and> disk_minor k = 0)"

lemma Resolve_requested:
  "Resolve e desired entries = Inr (entries', result) \<Longrightarrow> i \<in> set result \<Longrightarrow>
   set (Collector_requested (entries' ! i)) \<subseteq> set desired"
  using Resolve_spec(2,3) [of e desired entries entries' result] by (auto simp: any.set_law active_types_def)

lemma Scheduler_Run_laws:
  assumes "Resolve e desired entries = Inr (entries', result)" "sch_collectors s = map ((!) entries') result"
    "Scheduler_Run tn sd e0 listening evs s = Inr (s', out)"
  shows "AddMetrics out (sch_buffer s) = Inr (sch_buffer s')" "m \<in> set out \<Longrightarrow> metric_type m \<in> set desired"
    "\<not> is_exporting (sch_exporter s') \<and> dump_file (sch_exporter s') = None"
proof -
  from assms(3) obtain cs s1 where r: "init_collectors e0 (sch_collectors s) = Inr cs"
    "run_events tn sd evs (s\<lparr>sch_collectors := cs\<rparr>) = Inr (s1, out)" "s' = s1\<lparr>sch_exporter := EndDump (sch_exporter s1)\<rparr>"
    by (auto simp: Scheduler_Run_def res_bind_eq_Inr res_map_eq_Inr)
  have "\<forall>x \<in> set (map Collector_requested (sch_collectors s)). set x \<subseteq> set desired"
    unfolding assms(2) using Resolve_requested [OF assms(1)] by auto
  then have "\<forall>c \<in> set cs. set (Collector_requested c) \<subseteq> set desired"
    using init_collectors_laws [OF r(1)] by (metis imageI set_map)
  with run_events_out [OF r(2)] show "m \<in> set out \<Longrightarrow> metric_type m \<in> set desired" by simp
  show "AddMetrics out (sch_buffer s) = Inr (sch_buffer s')" "\<not> is_exporting (sch_exporter s') \<and> dump_file (sch_exporter s') = None"
    using run_events_buffer [OF r(2)] r(3) by (simp_all add: EndDump_def)
qed

section \<open>Properties\<close>


text \<open>
  C30.  In one pass over the collectors of the agent every series gets at most one sample.
\<close>

theorem pass_samples_each_series_once:
  fixes s :: "'d Scheduler"
  assumes "Resolve e desired (registered_collectors :: 'd Collector list) = Inr (entries', result)"
    "init_collectors e0 (map ((!) entries') result) = Inr (sch_collectors s)" "run_events tn sd (one_pass es) s = Inr (s', out)"
  shows "distinct (map metric_type out) \<and> length (samples_for k out) \<le> 1"
proof -
  let ?R = "registered_collectors :: 'd Collector list"
  have reg: "disjoint_collectors ?R"
    by (simp add: disjoint_collectors_def registered_collectors_def Register_def All_less_Suc numeral_eq_Suc
        ProcStat_Satisfiable_def Ram_Satisfiable_def Rapl_Satisfiable_def Nvml_Satisfiable_def)
  note spec = Resolve_spec [OF assms(1)]
  have sat: "Collector_Satisfiable (entries' ! i) = Collector_Satisfiable (?R ! i)" if "i < length ?R" for i
    using spec(3) [OF that] by (simp add: any.set_law)
  have res: "distinct result" "\<forall>i \<in> set result. i < length ?R" using spec(2) by auto
  have start: "map Collector_Satisfiable (sch_collectors s) = map Collector_Satisfiable (map ((!) entries') result)"
    using init_collectors_laws [OF assms(2)] by simp
  then have len: "length (sch_collectors s) = length result" by (metis length_map)
  have start: "Collector_Satisfiable (sch_collectors s ! i) = Collector_Satisfiable (entries' ! (result ! i))"
    if "i < length result" for i
    using arg_cong [OF start, of "\<lambda>xs. xs ! i"] that len by simp
  have "disjoint_collectors (sch_collectors s)"
    unfolding disjoint_collectors_def len
  proof (intro allI impI)
    fix i j assume ij: "i < length result" "j < length result" "i \<noteq> j"
    then have "result ! i \<noteq> result ! j" "result ! i < length ?R" "result ! j < length ?R"
      using res by (simp_all add: nth_eq_iff_index_eq)
    with reg ij show "set (Collector_Satisfiable (sch_collectors s ! i)) \<inter> set (Collector_Satisfiable (sch_collectors s ! j)) = {}"
      by (simp add: start sat disjoint_collectors_def)
  qed
  from ticks_distinct [OF assms(3) [unfolded one_pass_def] _ _ this] have "distinct (map metric_type out)" by simp
  then show ?thesis using samples_for_distinct [of out k] by simp
qed


text \<open>
  The dashboard names a device as the export file does, except that a device whose numbers
  are all zero appears as \<^verbatim>\<open>system\<close>: so the package power of \<^verbatim>\<open>RaplCollector\<close>, which is labelled with
  socket 0 and core 0.
\<close>

lemma DescribeKey_names_device:
  assumes "devId m = Some d" "dev_in_range d"
  shows "DescribeKey (MakeBufferKey m) = (if zero_device d then ''system'' else DescribeDevice m)"
  using assms
  by (cases d) (auto simp: MakeBufferKey_def default_BufferKey_def DescribeKey_def zero_device_def DescribeDevice_def
      show_as_int_small show_u32_16 ucast_zero_iff show_u32_word)


lemma DescribeKey_names_device_example:
  "\<exists>m. devId m = Some (Cpu \<lparr>socket_index = 0, core_index = 0\<rparr>) \<and> DescribeKey (MakeBufferKey m) = ''system'' \<and>
     DescribeDevice m = ''cpu=0/0''"
proof -
  let ?d = "Cpu \<lparr>socket_index = 0, core_index = 0\<rparr>"
  let ?m = "\<lparr>metric_type = METRIC_TYPE_CPU_POWER_PACKAGE, devId = Some ?d, metric_value = Fin 1, timestamp = 0\<rparr>"
  have "DescribeKey (MakeBufferKey ?m) = (if zero_device ?d then ''system'' else DescribeDevice ?m)"
    by (rule DescribeKey_names_device) simp_all
  then have "DescribeKey (MakeBufferKey ?m) = ''system''" by (simp add: zero_device_def)
  moreover have "show_nat 0 = ''0''" by code_simp
  then have "DescribeDevice ?m = ''cpu=0/0''" by (simp add: DescribeDevice_def show_as_int_def show_u32_def show_int_def)
  ultimately show ?thesis by (intro exI [of _ ?m]) simp
qed

section \<open>A small run\<close>

text \<open>A scheduler with the NVML collector only, as \<^verbatim>\<open>Resolve\<close> leaves it in \<open>example_resolve\<close>.\<close>

definition example_scheduler :: "nat Scheduler" where
  "example_scheduler = Scheduler_new (\<lambda>d. False) example_config
     [NvmlC (NvmlCollector_new\<lparr>nc_requested_metrics := [METRIC_TYPE_GPU_TEMPERATURE]\<rparr>)]
     \<lparr>mb_capacity_per_series = 4, mb_series = Map.empty, mb_keys = []\<rparr> Map.empty"

definition example_metric :: Metric where
  "example_metric = \<lparr>metric_type = METRIC_TYPE_GPU_TEMPERATURE,
     devId = Some (Gpu \<lparr>pci_domain = 0, pci_bus = 1, pci_device = 0, pci_function = 0\<rparr>),
     metric_value = f_of_u32 55, timestamp = 9\<rparr>"

definition started_collector :: "nat NvmlCollector" where
  "started_collector = \<lparr>nc_requested_metrics = [METRIC_TYPE_GPU_TEMPERATURE],
     nc_gpu_id = Some \<lparr>pci_domain = 0, pci_bus = 1, pci_device = 0, pci_function = 0\<rparr>, nc_device_handle = Some 7, nc_initialized = True\<rparr>"

lemma example_collect: "Collector_Collect example_sensors (NvmlC started_collector) = Inr (NvmlC started_collector, [example_metric])"
  by (simp add: started_collector_def example_sensors_def example_nvml_def Nvml_Collect_def reading_beta example_metric_def Let_def)

lemma example_init: "init_collectors example_sensors (sch_collectors example_scheduler) = Inr [NvmlC started_collector]"
  by (simp add: example_scheduler_def Scheduler_new_def example_sensors_def example_nvml_def Nvml_Init_def s_loaded_def
      NvmlCollector_new_def started_collector_def Let_def)

lemma small_capacity: "unat (4 :: u64) \<le> vector_max_size"
  by (simp add: vector_max_size_def)

lemma example_AddMetrics:
  "\<exists>mb. AddMetrics [example_metric] (sch_buffer example_scheduler) = Inr mb \<and> mb_rel mb (fold (spec_AddMetric 4) [example_metric] Map.empty)"
proof -
  have "mb_rel (sch_buffer example_scheduler) Map.empty"
    using small_capacity by (simp add: mb_rel_def example_scheduler_def Scheduler_new_def)
  from AddMetrics_rel [OF this, of "[example_metric]"] show ?thesis
    by (auto simp: mb_size_def example_scheduler_def Scheduler_new_def)
qed

lemma example_tick:
  assumes "sch_collectors s = [NvmlC started_collector]" "sch_buffer s = sch_buffer example_scheduler"
  shows "\<exists>s'. run_events tn sd [Tick 0 example_sensors] s = Inr (s', [example_metric])"
  using assms example_AddMetrics by (auto simp: collect_one_def example_collect simp del: Collector_Collect.simps)


theorem pass_samples_each_series_once_witness:
  "\<exists>s s'. init_collectors example_sensors (sch_collectors example_scheduler) = Inr (sch_collectors s) \<and>
     run_events MetricType_table_name (\<lambda>_. ''1'') (one_pass [example_sensors]) s = Inr (s', [example_metric]) \<and>
     length (samples_for (MakeBufferKey example_metric) [example_metric]) \<le> 1"
proof -
  let ?s = "example_scheduler\<lparr>sch_collectors := [NvmlC started_collector]\<rparr>"
  have i: "init_collectors example_sensors (map ((!) [NvmlC (NvmlCollector_new\<lparr>nc_requested_metrics := [METRIC_TYPE_GPU_TEMPERATURE]\<rparr>),
     ProcStat ProcStatCollector_new, Ram RamCollector_new, Rapl RaplCollector_new]) [0]) = Inr (sch_collectors ?s)"
    using example_init by (simp add: example_scheduler_def Scheduler_new_def)
  obtain s' where r: "run_events MetricType_table_name (\<lambda>_. ''1'') (one_pass [example_sensors]) ?s = Inr (s', [example_metric])"
    using example_tick [of ?s] by (auto simp: one_pass_def)
  from pass_samples_each_series_once [OF example_resolve i r] r example_init show ?thesis
    by (intro exI [of _ ?s] exI [of _ s']) simp
qed


end
