(* ===== verification/Agent_Main.thy ===== *)
theory Agent_Main
  imports Scheduler Config_Loader Client
begin

text \<open>
  main.cc: one executable under two names, the command line tool \<^verbatim>\<open>volta\<close> and the agent \<^verbatim>\<open>voltad\<close>.

  \<open>cli_mode\<close> is the tool with the kernel's message queues as its state.  \<open>agent_start\<close> is the part of
  \<open>agent_mode\<close> that runs before the threads: load the configuration, choose the collectors, make
  the buffer and the scheduler, open the command queue.  The agent then runs the events of the
  scheduler; \<^verbatim>\<open>agent_mode\<close> turns an exception into the exit code 1, while undefined behaviour takes
  the process down whatever the handlers are.
\<close>

section \<open>The command line tool\<close>

definition kCommandQueue :: string where
  "kCommandQueue = ''/volta_agent_command_queue''"

definition queue_of :: "MessageQueue \<Rightarrow> mqfs \<Rightarrow> kqueue result" where
  "queue_of q fs = (case mq_fd q of
     Some i \<Rightarrow> if i < length (fs_queues fs) then Inr (fs_queues fs ! i) else Inl OutOfBounds
   | None \<Rightarrow> Inl NullDeref)"

text \<open>\<^verbatim>\<open>msq.send(message)\<close>: the result is not looked at.\<close>

definition cli_send :: "MessageQueue \<Rightarrow> string \<Rightarrow> mqfs \<Rightarrow> mqfs result" where
  "cli_send q message fs = res_bind (queue_of q fs) (\<lambda>k.
     res_map (\<lambda>(k', fires, ok). fs\<lparr>fs_queues := (fs_queues fs)[the (mq_fd q) := k']\<rparr>) (mq_send q message k))"

text \<open>The queues afterwards, what was printed, and the exit code or the exception that ends the tool.\<close>

definition cli_mode :: "(string \<Rightarrow> string) \<Rightarrow> string option \<Rightarrow> string list \<Rightarrow> mqfs \<Rightarrow> mqfs \<times> string \<times> int result" where
  "cli_mode absolute denied argv fs =
     (if length argv < 2 then (fs, [], Inr 1)
      else case MessageQueue_new denied kCommandQueue Sender default_Options fs of
        (fs, Inl err) \<Rightarrow> (fs, [], Inl err)
      | (fs, Inr msq) \<Rightarrow>
          if argv ! 1 = ''export'' then
            if length argv < 3 then (fs, [], Inr 1)
            else if argv ! 2 = ''start'' then
              let file = (if 4 \<le> length argv then absolute (argv ! 3) else '''');
                  message = ''dump_start;'' @ file
              in (case cli_send msq message fs of
                    Inl err \<Rightarrow> (fs, [], Inl err)
                  | Inr fs \<Rightarrow> (fs, ''Message '' @ message @ '' sent'' @ newline, Inr 0))
            else if argv ! 2 = ''stop'' then
              (case cli_send msq ''dump_end'' fs of
                 Inl err \<Rightarrow> (fs, [], Inl err)
               | Inr fs \<Rightarrow> (fs, ''Message dump_end sent'' @ newline, Inr 0))
            else (fs, [], Inr 1)
          else (fs, [], Inr 1))"

section \<open>The agent\<close>

text \<open>What the agent meets when it starts.\<close>

record ('t, 'n, 'd) agent_env =
  ae_toml :: "('t, 'n) toml"
  ae_parse :: parse_fun
  ae_cast :: cast_fun
  ae_loader :: "'t loader_env"
  ae_sensors :: "'d sensors"
  ae_exists :: "string \<Rightarrow> bool"
  ae_mq_denied :: "string option"

definition agent_start :: "('t, 'n, 'd) agent_env \<Rightarrow> 'd Collector list \<Rightarrow> files \<Rightarrow> mqfs \<Rightarrow> ('d Scheduler \<times> MessageQueue \<times> mqfs) result" where
  "agent_start env entries files fs =
     res_bind (LoadConfig (ae_toml env) (ae_parse env) (ae_cast env) (ae_loader env)) (\<lambda>config.
     res_bind (Resolve (ae_sensors env) (requestedMetrics config) entries) (\<lambda>(entries', active).
     res_bind (MetricsBuffer_new config) (\<lambda>buffer.
       case MessageQueue_new (ae_mq_denied env) kCommandQueue Receiver default_Options fs of
         (fs', Inl err) \<Rightarrow> Inl err
       | (fs', Inr q) \<Rightarrow> Inr (Scheduler_new (ae_exists env) config (map ((!) entries') active) buffer files, q, fs'))))"

definition server_target :: "Config \<Rightarrow> string" where
  "server_target config = server_address config @ '':'' @ show_word (server_port config)"

text \<open>The thread that connects to the server; without a channel the dashboard is switched on.\<close>

definition grpc_thread :: "(string \<Rightarrow> 'ch option) \<Rightarrow> 'd Scheduler \<Rightarrow> 'd Scheduler \<times> Client option" where
  "grpc_thread create_channel s = (case create_channel (server_target (sch_config s)) of
     Some _ \<Rightarrow> (s, Some (Client_new True))
   | None \<Rightarrow> (s\<lparr>print_dashboard := True\<rparr>, None))"

datatype outcome = Exit int | Crash cpp_error

text \<open>The failures that are C++ exceptions; the others are undefined behaviour or a signal.\<close>

fun is_exception :: "cpp_error \<Rightarrow> bool" where
  "is_exception DivideByZero = False"
| "is_exception OutOfBounds = False"
| "is_exception NullDeref = False"
| "is_exception EmptyOptional = False"
| "is_exception EndIterator = False"
| "is_exception Uninitialised = False"
| "is_exception FloatCast = False"
| "is_exception Dangling = False"
| "is_exception _ = True"

text \<open>The outcome once the gRPC thread has been joined, for one sequence of events; \<open>refused\<close> is the
  error of \<^verbatim>\<open>mq_notify\<close> when \<^verbatim>\<open>Run\<close> starts to listen.  The threads themselves are the subject of
  theory \<open>Agent_System\<close>.\<close>

definition agent_mode ::
  "name_fun \<Rightarrow> (double \<Rightarrow> string) \<Rightarrow> ('t, 'n, 'd) agent_env \<Rightarrow> 'd Collector list \<Rightarrow> files \<Rightarrow> mqfs \<Rightarrow>
   string option \<Rightarrow> (string \<Rightarrow> 'ch option) \<Rightarrow> 'd sensors \<Rightarrow> 'd sched_event list \<Rightarrow> outcome" where
  "agent_mode tn sd env entries files fs refused channel e0 evs =
     (case res_bind (agent_start env entries files fs) (\<lambda>(s, q, fs).
        res_bind (queue_of q fs) (\<lambda>k.
          Scheduler_Run tn sd e0 (listen refused q k) evs (fst (grpc_thread channel s)))) of
      Inr _ \<Rightarrow> Exit 0
    | Inl err \<Rightarrow> if is_exception err then Exit 1 else Crash err)"

datatype program = Cli | Agent | Unknown

definition main_program :: "string \<Rightarrow> program" where
  "main_program program_name =
     (if ends_with program_name ''volta'' then Cli
      else if ends_with program_name ''voltad'' then Agent else Unknown)"

section \<open>Lemmas\<close>

text \<open>A queue that the agent has opened and the tool may use.\<close>

definition agent_listens :: "nat \<Rightarrow> kqueue \<Rightarrow> mqfs \<Rightarrow> bool" where
  "agent_listens i k fs = (fs_names fs kCommandQueue = Some i \<and> i < length (fs_queues fs) \<and> fs_queues fs ! i = k \<and>
     kq_msgsize k = max_msg_size default_Options)"

lemma sender_open:
  "agent_listens i k fs \<Longrightarrow> MessageQueue_new None kCommandQueue Sender default_Options fs =
   (fs, Inr \<lparr>mq_name = kCommandQueue, mq_role = Sender, mq_opts = default_Options, mq_fd = Some i, mq_listening = False\<rparr>)"
  by (simp add: agent_listens_def MessageQueue_new_def open_queue_def mq_open_def kCommandQueue_def Let_def)

lemma cli_send_listening:
  assumes "agent_listens i k fs" "length m \<le> 4096"
  shows "cli_send \<lparr>mq_name = kCommandQueue, mq_role = Sender, mq_opts = default_Options, mq_fd = Some i, mq_listening = False\<rparr> m fs =
    Inr (fs\<lparr>fs_queues := (fs_queues fs)[i := fst (kq_send m k)]\<rparr>)"
  using assms by (simp add: cli_send_def queue_of_def agent_listens_def mq_send_def send_checks_def default_Options_def
      split: prod.split)

lemma agent_start_parts:
  assumes "agent_start env entries files fs = Inr (s, q, fs')"
  obtains entries' active where "LoadConfig (ae_toml env) (ae_parse env) (ae_cast env) (ae_loader env) = Inr (sch_config s)"
    "Resolve (ae_sensors env) (requestedMetrics (sch_config s)) entries = Inr (entries', active)"
    "MetricsBuffer_new (sch_config s) = Inr (sch_buffer s)" "sch_collectors s = map ((!) entries') active"
proof -
  from assms obtain config entries' active buffer where p:
    "LoadConfig (ae_toml env) (ae_parse env) (ae_cast env) (ae_loader env) = Inr config"
    "Resolve (ae_sensors env) (requestedMetrics config) entries = Inr (entries', active)" "MetricsBuffer_new config = Inr buffer"
    by (auto simp: agent_start_def res_bind_eq_Inr)
  obtain fs1 r where r: "MessageQueue_new (ae_mq_denied env) kCommandQueue Receiver default_Options fs = (fs1, r)" by fastforce
  from assms p r have "s = Scheduler_new (ae_exists env) config (map ((!) entries') active) buffer files"
    by (cases r) (simp_all add: agent_start_def)
  with p that show ?thesis by (simp add: Scheduler_new_def)
qed

lemma loaded_capacity_bound:
  assumes "LoadConfig lib parse cast env = Inr cfg" "collection_interval cfg \<noteq> 0" "MetricsBuffer_new cfg = Inr mb"
  shows "int (unat (mb_capacity_per_series mb)) = buffered_time_window cfg div collection_interval cfg"
    "(0 < unat (mb_capacity_per_series mb)) = (collection_interval cfg \<le> buffered_time_window cfg)"
    "unat (mb_capacity_per_series mb) \<le> vector_max_size"
proof -
  show eq: "int (unat (mb_capacity_per_series mb)) = buffered_time_window cfg div collection_interval cfg"
    "(0 < unat (mb_capacity_per_series mb)) = (collection_interval cfg \<le> buffered_time_window cfg)"
    using LoadConfig_buffer_capacity [OF assms(1,2)] assms(3) by auto
  have w: "0 \<le> buffered_time_window cfg" "buffered_time_window cfg < 2 ^ 32" "0 < collection_interval cfg"
    using LoadConfig_ok [OF assms(1)] assms(2) by (auto simp: cfg_ok_def)
  have "buffered_time_window cfg div collection_interval cfg \<le> buffered_time_window cfg"
    using zdiv_mono2 [of "buffered_time_window cfg" 1 "collection_interval cfg"] w by simp
  with eq(1) w(2) have "int (unat (mb_capacity_per_series mb)) < 2 ^ 32" by linarith
  then have "unat (mb_capacity_per_series mb) < 2 ^ 32" by (metis of_nat_less_iff of_nat_numeral of_nat_power)
  then show "unat (mb_capacity_per_series mb) \<le> vector_max_size" by (simp add: vector_max_size_def)
qed

section \<open>Properties\<close>

text \<open>
  C19.  The tool and the agent agree on the protocol: while the agent's queue has room, \<^verbatim>\<open>volta export
  start DIR\<close> and \<^verbatim>\<open>volta export stop\<close> exit with 0 and add one message, on which the agent's handler
  does exactly \<^verbatim>\<open>StartDump\<close> with the absolute path, respectively \<^verbatim>\<open>EndDump\<close>.
\<close>

theorem cli_commands_reach_exporter:
  assumes "agent_listens i k fs" "int (length (kq_messages k)) < kq_maxmsg k"
    "absolute dir = CHR ''/'' # p" "length p \<le> 4084"
  shows "(\<exists>k' m. cli_mode absolute None [prog, ''export'', ''start'', dir] fs
        = (fs\<lparr>fs_queues := (fs_queues fs)[i := k']\<rparr>, ''Message '' @ m @ '' sent'' @ newline, Inr 0) \<and>
      kq_messages k' = kq_messages k @ [m] \<and> on_message env m st = Inr (StartDump env (Some (absolute dir)) st)) \<and>
    (\<exists>k'. cli_mode absolute None [prog, ''export'', ''stop''] fs
        = (fs\<lparr>fs_queues := (fs_queues fs)[i := k']\<rparr>, ''Message dump_end sent'' @ newline, Inr 0) \<and>
      kq_messages k' = kq_messages k @ [''dump_end''] \<and> on_message env ''dump_end'' st = Inr (EndDump (fst st), snd st))"
proof -
  have room: "kq_messages (fst (kq_send m k)) = kq_messages k @ [m]" if "length m \<le> 4096" for m
    using assms(1,2) that by (simp add: kq_send_def agent_listens_def default_Options_def Let_def)
  let ?m = "''dump_start;'' @ absolute dir"
  have len: "length ?m \<le> 4096" using assms(3,4) by simp
  have "on_message env ?m st = Inr (StartDump env (Some (absolute dir)) st)"
    by (rule on_message_start) (simp_all add: assms(3) starts_with_def)
  moreover have "cli_mode absolute None [prog, ''export'', ''start'', dir] fs
      = (fs\<lparr>fs_queues := (fs_queues fs)[i := fst (kq_send ?m k)]\<rparr>, ''Message '' @ ?m @ '' sent'' @ newline, Inr 0)"
    using cli_send_listening [OF assms(1) len] by (simp add: cli_mode_def sender_open [OF assms(1)])
  moreover have "cli_mode absolute None [prog, ''export'', ''stop''] fs
      = (fs\<lparr>fs_queues := (fs_queues fs)[i := fst (kq_send ''dump_end'' k)]\<rparr>, ''Message dump_end sent'' @ newline, Inr 0)"
    using cli_send_listening [OF assms(1), of "''dump_end''"] by (simp add: cli_mode_def sender_open [OF assms(1)])
  ultimately show ?thesis using room [OF len] room [of "''dump_end''"] on_message_end [of env st]
    by (intro conjI exI [of _ "fst (kq_send ?m k)"] exI [of _ ?m] exI [of _ "fst (kq_send ''dump_end'' k)"]) simp_all
qed

definition example_queues :: "string list \<Rightarrow> mqfs" where
  "example_queues ms = \<lparr>fs_names = [kCommandQueue \<mapsto> 0],
     fs_queues = [\<lparr>kq_messages = ms, kq_notify = True, kq_maxmsg = 10, kq_msgsize = 4096\<rparr>]\<rparr>"

lemma example_listens: "agent_listens 0 \<lparr>kq_messages = ms, kq_notify = True, kq_maxmsg = 10, kq_msgsize = 4096\<rparr> (example_queues ms)"
  by (simp add: agent_listens_def example_queues_def default_Options_def)

theorem cli_commands_reach_exporter_witness:
  "\<exists>fs' m. cli_mode (\<lambda>p. ''/tmp/'' @ p) None [''volta'', ''export'', ''start'', ''out''] (example_queues []) =
       (fs', ''Message '' @ m @ '' sent'' @ newline, Inr 0) \<and>
     on_message example_env m (idle_exporter, Map.empty) = Inr (StartDump example_env (Some ''/tmp/out'') (idle_exporter, Map.empty))"
  using cli_commands_reach_exporter [OF example_listens, of "[]" "\<lambda>p. ''/tmp/'' @ p" "''out''" "''tmp/out''" "''volta''"
      example_env "(idle_exporter, Map.empty)"] by auto

text \<open>
  C36.  Without a directory the tool reports success and brings the agent down: \<^verbatim>\<open>dump_start;\<close> has
  eleven characters, the handler then dereferences an empty \<^verbatim>\<open>std::optional\<close>.  And when the queue
  is full the tool reports a message as sent that the kernel refused.
\<close>

theorem cli_reports_success_wrongly:
  assumes "agent_listens i k fs"
  shows "fst (snd (cli_mode absolute None [prog, ''export'', ''start''] fs)) = ''Message dump_start; sent'' @ newline \<and>
    on_message env ''dump_start;'' st = Inl EmptyOptional \<and>
    (kq_maxmsg k \<le> int (length (kq_messages k)) \<longrightarrow>
      cli_mode absolute None [prog, ''export'', ''stop''] fs = (fs, ''Message dump_end sent'' @ newline, Inr 0))"
proof -
  have "fst (snd (cli_mode absolute None [prog, ''export'', ''start''] fs)) = ''Message dump_start; sent'' @ newline \<and>
      on_message env ''dump_start;'' st = Inl EmptyOptional"
    using cli_send_listening [OF assms, of "''dump_start;''"]
    by (simp add: cli_mode_def sender_open [OF assms] on_message_def starts_with_def)
  moreover have "cli_mode absolute None [prog, ''export'', ''stop''] fs = (fs, ''Message dump_end sent'' @ newline, Inr 0)"
    if "kq_maxmsg k \<le> int (length (kq_messages k))"
  proof -
    have "kq_send ''dump_end'' k = (k, False, False)" using that by (simp add: kq_send_def)
    moreover have "(fs_queues fs)[i := k] = fs_queues fs" using assms by (auto simp: agent_listens_def)
    ultimately show ?thesis using cli_send_listening [OF assms, of "''dump_end''"]
      by (simp add: cli_mode_def sender_open [OF assms])
  qed
  ultimately show ?thesis by blast
qed

theorem cli_reports_success_wrongly_witness:
  "cli_mode (\<lambda>p. p) None [''volta'', ''export'', ''stop''] (example_queues (replicate 10 ''dump_end'')) =
     (example_queues (replicate 10 ''dump_end''), ''Message dump_end sent'' @ newline, Inr 0)"
  using cli_reports_success_wrongly [OF example_listens, of "\<lambda>p. p" "''volta''"] by simp



definition example_agent :: "((string \<times> tval) list, tval, nat) agent_env" where
  "example_agent = \<lparr>ae_toml = example_toml, ae_parse = MetricType_table_parse, ae_cast = MetricType_table_cast,
     ae_loader = example_loader_env [(''metrics'', TArr [TStr ''GPU_TEMPERATURE'', TStr ''METRIC_TYPE_RAM_USED''])],
     ae_sensors = example_sensors, ae_exists = (\<lambda>_. False), ae_mq_denied = None\<rparr>"

lemma example_metric_names:
  "parse_metric_name MetricType_table_parse ''GPU_TEMPERATURE'' = Some METRIC_TYPE_GPU_TEMPERATURE"
  "parse_metric_name MetricType_table_parse ''METRIC_TYPE_RAM_USED'' = Some METRIC_TYPE_RAM_USED"
  by code_simp+

lemma example_agent_start:
  "\<exists>s q fs. agent_start example_agent registered_collectors Map.empty (example_queues []) = Inr (s, q, fs) \<and>
     sch_collectors s = sch_collectors example_scheduler \<and> sch_buffer s = sch_buffer example_scheduler \<and>
     collection_interval (sch_config s) = 500 \<and> buffered_time_window (sch_config s) = 2000 \<and>
     sch_exporter s = idle_exporter \<and> sch_files s = Map.empty \<and>
     q = \<lparr>mq_name = kCommandQueue, mq_role = Receiver, mq_opts = default_Options, mq_fd = Some 1, mq_listening = False\<rparr> \<and>
     queue_of q fs = Inr \<lparr>kq_messages = [], kq_notify = False, kq_maxmsg = 10, kq_msgsize = 4096\<rparr>"
proof -
  obtain cfg where cfg: "LoadConfig (ae_toml example_agent) (ae_parse example_agent) (ae_cast example_agent) (ae_loader example_agent) = Inr cfg"
    "requestedMetrics cfg = [METRIC_TYPE_GPU_TEMPERATURE, METRIC_TYPE_RAM_USED]"
    "collection_interval cfg = 500" "buffered_time_window cfg = 2000"
    by (simp add: example_agent_def LoadConfig_def LoadConfigFile_def LoadTimeWindow_def LoadCoreAffinity_def LoadInterval_def
        LoadServerAddress_def LoadServerPort_def LoadMetrics_def selected_metrics_def metric_entry_def append_metric_def
        example_simps example_metric_names)
  have "MetricsBuffer_new cfg = Inr (sch_buffer example_scheduler)"
    using cfg(3,4) by (simp add: MetricsBuffer_new_def example_scheduler_def Scheduler_new_def signed_divide_int_def)
  then show ?thesis
    using cfg example_resolve
    by (simp add: agent_start_def Scheduler_new_def example_agent_def MessageQueue_new_def open_queue_def mq_open_def
        mq_unlink_def kCommandQueue_def example_scheduler_def Let_def Exporter_new_def idle_exporter_def queue_of_def
        default_Options_def example_queues_def)
qed



end
