(* ===== verification/Agent_System.thy ===== *)
theory Agent_System
  imports Agent_Main
begin

text \<open>
  The running agent: every thread of \<^verbatim>\<open>voltad\<close> and their interleaving.

  \<^verbatim>\<open>agent_mode\<close> (main.cc) has the main thread run \<^verbatim>\<open>Scheduler::Run\<close> and starts one thread for gRPC.
  Beside these two there are the thread that \<^verbatim>\<open>mq_notify\<close> makes for a command, the callbacks of
  gRPC for the two reactors, the polling thread of the stream reactor, and the signal handler.
  The state keeps a program counter for each thread that is in the middle of something;
  \<open>agent_do\<close> is the next step of one of them.  A step is a locked region or one access to what the
  threads share; in particular \<^verbatim>\<open>Exporter\<close>, which has no lock, is taken apart into its statements.

  A failure on the main thread that is an exception leads to the end of \<^verbatim>\<open>agent_mode\<close>; every other
  failure, and an exception on any other thread, ends the process.  The destructors at the end of
  the gRPC thread and of \<^verbatim>\<open>agent_mode\<close> are steps, too: a thread that then uses what has been
  destroyed ends the process with \<open>Dangling\<close>.
\<close>

section \<open>State\<close>

datatype process = Running | Exited int | Crashed cpp_error

datatype main_pc =
    MInit                          \<comment> \<open>about to initialise the collectors\<close>
  | MListen                        \<comment> \<open>about to call \<open>ms_queue_.listen\<close>\<close>
  | MLoop                          \<comment> \<open>at \<open>while (g_running)\<close>\<close>
  | MCollect nat                   \<comment> \<open>at the inner loop, with the next collector\<close>
  | MDump nat "Metric list"        \<comment> \<open>metrics are in the buffer; \<open>Dump\<close> about to test \<open>IsActive\<close>\<close>
  | MLines nat "Metric list"       \<comment> \<open>inside \<open>Dump\<close>, metrics still to write\<close>
  | MDash                          \<comment> \<open>after the inner loop\<close>
  | MClose                         \<comment> \<open>the final \<open>EndDump\<close>\<close>
  | MUnflag
  | MStop                          \<comment> \<open>about to call \<open>stop_listening\<close>\<close>
  | MJoin "cpp_error option"       \<comment> \<open>leaving the \<open>try\<close> block: joining the gRPC thread\<close>
  | MDestroy "cpp_error option"    \<comment> \<open>\<open>exporter_\<close> is destroyed, \<open>ms_queue_\<close> not yet\<close>

datatype cmd_pc =
    CIdle                          \<comment> \<open>no thread is running\<close>
  | CDrain                         \<comment> \<open>about to call \<open>mq_receive\<close>\<close>
  | CStart string                  \<comment> \<open>\<open>StartDump\<close> about to test \<open>is_exporting\<close>\<close>
  | COpen string                   \<comment> \<open>about to open the file\<close>
  | CHeader string                 \<comment> \<open>about to write the header\<close>
  | CFlag string                   \<comment> \<open>about to set \<open>is_exporting\<close>\<close>
  | CClose                         \<comment> \<open>\<open>EndDump\<close>: about to close the file\<close>
  | CUnflag
  | CRearm                         \<comment> \<open>about to call \<open>arm_notify\<close>\<close>

datatype grpc_pc =
    GChannel                       \<comment> \<open>about to create the channel\<close>
  | GLoad                          \<comment> \<open>\<open>Connect\<close>, about to load the id\<close>
  | GConstruct                     \<comment> \<open>inside the constructor of \<open>ConnectReactor\<close>\<close>
  | GAwait                         \<comment> \<open>in the loop of \<open>Await\<close>\<close>
  | GTear                          \<comment> \<open>\<open>Connect\<close> has returned; \<open>~Client\<close> about to destroy the stream reactor\<close>
  | GStop                          \<comment> \<open>queue, map and mutexes destroyed; \<open>~jthread\<close> about to request the stop\<close>
  | GJoinPoll                      \<comment> \<open>joining the polling thread\<close>
  | GTearConnect                   \<comment> \<open>about to destroy the control reactor\<close>
  | GDone

record 'd agent =
  ag_status :: process
  g_running :: bool
  ag_main :: main_pc
  ag_sched :: "'d Scheduler"
  ag_good :: bool                  \<comment> \<open>no error bit is set in \<open>dump_file_\<close>\<close>
  ag_q :: MessageQueue
  ag_k :: kqueue
  ag_fs :: mqfs
  ag_cmd :: cmd_pc
  ag_grpc :: grpc_pc
  ag_client :: Client
  ag_cancelled :: bool             \<comment> \<open>\<open>TryCancel\<close> was called on the control stream\<close>
  ag_stop :: bool                  \<comment> \<open>the stop token of the polling thread\<close>
  ag_poll_done :: bool
  ag_stream_done :: bool           \<comment> \<open>\<open>OnDone\<close> of the stream reactor has run\<close>
  ag_collected :: "Metric list"    \<comment> \<open>what an observer has seen: all metrics collected,\<close>
  ag_log :: "(u64 \<times> BufferKey \<times> Snapshot) list"   \<comment> \<open>batches registered,\<close>
  ag_acked :: "u64 set"            \<comment> \<open>ids acknowledged,\<close>
  ag_sent :: "string list"         \<comment> \<open>commands the queue has accepted,\<close>
  ag_seen :: "string list"         \<comment> \<open>commands received,\<close>
  ag_exports :: "string set"       \<comment> \<open>files opened for export\<close>

text \<open>What the agent meets and does not change: how types and numbers are printed, the channel gRPC
  makes for an address, what a write of the id file leaves on disk, an error of \<^verbatim>\<open>mq_notify\<close>, and
  the metadata the server sends.\<close>

record world =
  w_type_name :: name_fun
  w_double :: "double \<Rightarrow> string"
  w_key_name :: "i32 \<Rightarrow> string"
  w_fixed2 :: "double \<Rightarrow> string"
  w_channel :: "string \<Rightarrow> nat option"
  w_write_tmp :: "string \<Rightarrow> string option"
  w_refused :: "string option"
  w_metadata :: "string \<rightharpoonup> string"

definition crash :: "cpp_error \<Rightarrow> 'd agent \<Rightarrow> 'd agent" where
  "crash err s = s\<lparr>ag_status := Crashed err\<rparr>"

text \<open>The \<^verbatim>\<open>catch\<close> clause is reached after the locals of the \<^verbatim>\<open>try\<close> block are gone.\<close>

definition main_fail :: "cpp_error \<Rightarrow> 'd agent \<Rightarrow> 'd agent" where
  "main_fail err s = (if is_exception err then s\<lparr>ag_main := MJoin (Some err)\<rparr> else crash err s)"

section \<open>The signal handler\<close>

datatype agent_signal = SIGINT | SIGTERM

definition on_signal :: "agent_signal \<Rightarrow> 'd agent \<Rightarrow> 'd agent" where
  "on_signal sig s = s\<lparr>g_running := False\<rparr>"

section \<open>The exporter, statement by statement\<close>

text \<open>Output to \<^verbatim>\<open>dump_file_\<close>: dropped when an error bit is set; without an open file it sets one.\<close>

definition write_dump :: "string \<Rightarrow> 'd agent \<Rightarrow> 'd agent" where
  "write_dump text s =
     (if \<not> ag_good s then s
      else case dump_file (sch_exporter (ag_sched s)) of
        None \<Rightarrow> s\<lparr>ag_good := False\<rparr>
      | Some path \<Rightarrow> s\<lparr>ag_sched := ag_sched s\<lparr>sch_files := append_file (Some path) text (sch_files (ag_sched s))\<rparr>\<rparr>)"

text \<open>\<^verbatim>\<open>open\<close> fails on a stream that is open, and sets an error bit; success clears it.\<close>

definition open_dump :: "export_env \<Rightarrow> string \<Rightarrow> 'd agent \<Rightarrow> 'd agent" where
  "open_dump env dir s =
     (let path = dir @ ''/dump_'' @ clock_text env @ ''.csv''; sch = ag_sched s in
      if dump_file (sch_exporter sch) = None \<and> can_open env path then
        s\<lparr>ag_sched := sch\<lparr>sch_exporter := (sch_exporter sch)\<lparr>dump_file := Some path\<rparr>,
                          sch_files := (sch_files sch)(path \<mapsto> '''')\<rparr>,
          ag_good := True, ag_exports := insert path (ag_exports s)\<rparr>
      else s\<lparr>ag_good := False\<rparr>)"

definition close_dump :: "'d agent \<Rightarrow> 'd agent" where
  "close_dump s = s\<lparr>ag_sched := (ag_sched s)\<lparr>sch_exporter := (sch_exporter (ag_sched s))\<lparr>dump_file := None\<rparr>\<rparr>\<rparr>"

definition set_exporting :: "bool \<Rightarrow> 'd agent \<Rightarrow> 'd agent" where
  "set_exporting b s = s\<lparr>ag_sched := (ag_sched s)\<lparr>sch_exporter := (sch_exporter (ag_sched s))\<lparr>is_exporting := b\<rparr>\<rparr>\<rparr>"

section \<open>The main thread\<close>

text \<open>\<open>e\<close> is what the collectors read and \<open>order\<close> the order of the keys, should this step need them.\<close>

definition main_collect :: "'d sensors \<Rightarrow> nat \<Rightarrow> 'd agent \<Rightarrow> 'd agent" where
  "main_collect e i s =
     (let sch = ag_sched s in
      if length (sch_collectors sch) \<le> i then s\<lparr>ag_main := MDash\<rparr>
      else case Collector_Collect e (sch_collectors sch ! i) of
        Inl err \<Rightarrow> main_fail err s
      | Inr (c, metrics) \<Rightarrow>
          (case AddMetrics metrics (sch_buffer sch) of
             Inl err \<Rightarrow> main_fail err s
           | Inr buffer \<Rightarrow> s\<lparr>ag_sched := sch\<lparr>sch_collectors := (sch_collectors sch)[i := c], sch_buffer := buffer\<rparr>,
               ag_collected := ag_collected s @ metrics, ag_main := MDump i metrics\<rparr>))"

definition main_dash :: "world \<Rightarrow> BufferKey list \<Rightarrow> 'd agent \<Rightarrow> 'd agent" where
  "main_dash w order s =
     (if print_dashboard (ag_sched s) then
        (case PrintDashboard (w_key_name w) (w_fixed2 w) order (ag_sched s) of
           Inl err \<Rightarrow> main_fail err s
         | Inr text \<Rightarrow> s\<lparr>ag_main := MLoop\<rparr>)
      else s\<lparr>ag_main := MLoop\<rparr>)"

text \<open>The rest of \<^verbatim>\<open>~Scheduler\<close>, then the exit code of \<^verbatim>\<open>agent_mode\<close>.\<close>

definition main_exit :: "cpp_error option \<Rightarrow> 'd agent \<Rightarrow> 'd agent" where
  "main_exit r s = (case (stop_listening (ag_q s) (ag_k s) (ag_fs s), MessageQueue_destroy (ag_q s) (ag_k s) (ag_fs s)) of
     ((q, _), k, fs) \<Rightarrow> s\<lparr>ag_q := q, ag_k := k, ag_fs := fs, ag_status := Exited (if r = None then 0 else 1)\<rparr>)"

text \<open>A registration that fails leaves \<open>listening_\<close> set in the code and unset here; nothing reads it before
  the destructor of the queue, which then leaves the same state.\<close>

definition main_step :: "world \<Rightarrow> 'd sensors \<Rightarrow> BufferKey list \<Rightarrow> 'd agent \<Rightarrow> 'd agent option" where
  "main_step w e order s = (case ag_main s of
     MInit \<Rightarrow> Some (case init_collectors e (sch_collectors (ag_sched s)) of
         Inl err \<Rightarrow> main_fail err s
       | Inr cs \<Rightarrow> s\<lparr>ag_sched := ag_sched s\<lparr>sch_collectors := cs\<rparr>, ag_main := MListen\<rparr>)
   | MListen \<Rightarrow> Some (case listen (w_refused w) (ag_q s) (ag_k s) of
         Inl err \<Rightarrow> main_fail err s
       | Inr (q, k) \<Rightarrow> s\<lparr>ag_q := q, ag_k := k, ag_main := MLoop\<rparr>)
   | MLoop \<Rightarrow> Some (s\<lparr>ag_main := if g_running s then MCollect 0 else MClose\<rparr>)
   | MCollect i \<Rightarrow> Some (main_collect e i s)
   | MDump i metrics \<Rightarrow>
       Some (s\<lparr>ag_main := if IsActive (sch_exporter (ag_sched s)) then MLines i metrics else MCollect (Suc i)\<rparr>)
   | MLines i [] \<Rightarrow> Some (s\<lparr>ag_main := MCollect (Suc i)\<rparr>)
   | MLines i (m # metrics) \<Rightarrow>
       Some ((write_dump (dump_line (w_type_name w) (w_double w) m) s)\<lparr>ag_main := MLines i metrics\<rparr>)
   | MDash \<Rightarrow> Some (main_dash w order s)
   | MClose \<Rightarrow> Some ((close_dump s)\<lparr>ag_main := MUnflag\<rparr>)
   | MUnflag \<Rightarrow> Some ((set_exporting False s)\<lparr>ag_main := MStop\<rparr>)
   | MStop \<Rightarrow> (case stop_listening (ag_q s) (ag_k s) (ag_fs s) of (q, k, fs) \<Rightarrow>
       Some (s\<lparr>ag_q := q, ag_k := k, ag_fs := fs, ag_main := MJoin None\<rparr>))
   | MJoin r \<Rightarrow> if ag_grpc s = GDone then Some (s\<lparr>ag_main := MDestroy r\<rparr>) else None
   | MDestroy r \<Rightarrow> Some (main_exit r s))"

section \<open>The command thread\<close>

text \<open>\<^verbatim>\<open>mq_send\<close> of the tool; a notification starts the thread.\<close>

definition command_sent :: "string \<Rightarrow> 'd agent \<Rightarrow> 'd agent option" where
  "command_sent m s = (case kq_send m (ag_k s) of
     (k, fires, True) \<Rightarrow> Some (s\<lparr>ag_k := k, ag_cmd := if fires then CDrain else ag_cmd s, ag_sent := ag_sent s @ [m]\<rparr>)
   | (k, fires, False) \<Rightarrow> None)"

text \<open>The handler that \<^verbatim>\<open>Run\<close> gives to \<^verbatim>\<open>listen\<close>, up to its first use of the exporter.\<close>

definition command_begin :: "string \<Rightarrow> cmd_pc result" where
  "command_begin message =
     (if starts_with message ''dump_start'' then
        if 11 < length message then
          let path_start = (case str_find message '';'' of Some i \<Rightarrow> int i | None \<Rightarrow> - 1)
          in Inr (CStart (drop (nat (path_start + 1)) message))
        else Inl EmptyOptional
      else if starts_with message ''dump_end'' then Inr CClose
      else Inr CDrain)"

text \<open>After \<^verbatim>\<open>StartDump\<close> the handler looks at what is left of the message, the path.\<close>

definition after_start :: "string \<Rightarrow> cmd_pc" where
  "after_start path = (if starts_with path ''dump_end'' then CClose else CDrain)"

definition command_receive :: "'d agent \<Rightarrow> 'd agent" where
  "command_receive s = (case kq_messages (ag_k s) of
     [] \<Rightarrow> s\<lparr>ag_cmd := if mq_listening (ag_q s) then CRearm else CIdle\<rparr>
   | m # ms \<Rightarrow>
       let s' = s\<lparr>ag_k := (ag_k s)\<lparr>kq_messages := ms\<rparr>, ag_seen := ag_seen s @ [m]\<rparr> in
       (case command_begin m of Inl err \<Rightarrow> crash err s' | Inr pc \<Rightarrow> s'\<lparr>ag_cmd := pc\<rparr>))"

fun in_exporter :: "cmd_pc \<Rightarrow> bool" where
  "in_exporter CIdle = False"
| "in_exporter CDrain = False"
| "in_exporter CRearm = False"
| "in_exporter _ = True"

fun exporter_gone :: "main_pc \<Rightarrow> bool" where
  "exporter_gone (MDestroy r) = True"
| "exporter_gone _ = False"

definition command_export :: "export_env \<Rightarrow> 'd agent \<Rightarrow> 'd agent" where
  "command_export env s = (case ag_cmd s of
     CStart path \<Rightarrow> s\<lparr>ag_cmd := if is_exporting (sch_exporter (ag_sched s)) \<or> \<not> dir_exists env path
                              then after_start path else COpen path\<rparr>
   | COpen path \<Rightarrow> (open_dump env path s)\<lparr>ag_cmd := CHeader path\<rparr>
   | CHeader path \<Rightarrow> (write_dump dump_header s)\<lparr>ag_cmd := CFlag path\<rparr>
   | CFlag path \<Rightarrow> (set_exporting True s)\<lparr>ag_cmd := after_start path\<rparr>
   | CClose \<Rightarrow> (close_dump s)\<lparr>ag_cmd := CUnflag\<rparr>
   | CUnflag \<Rightarrow> (set_exporting False s)\<lparr>ag_cmd := CDrain\<rparr>
   | _ \<Rightarrow> s)"

definition command_step :: "world \<Rightarrow> export_env \<Rightarrow> 'd agent \<Rightarrow> 'd agent option" where
  "command_step w env s =
     (if ag_cmd s = CIdle then None
      else if ag_cmd s = CDrain then Some (command_receive s)
      else if ag_cmd s = CRearm then Some (case arm_notify (w_refused w) (ag_k s) of
          Inl err \<Rightarrow> crash err s
        | Inr k \<Rightarrow> s\<lparr>ag_k := k, ag_cmd := CIdle\<rparr>)
      else if exporter_gone (ag_main s) then Some (crash Dangling s)
      else Some (command_export env s))"

text \<open>An error of \<^verbatim>\<open>mq_receive\<close> other than \<^verbatim>\<open>EAGAIN\<close>.\<close>

definition command_error :: "'d agent \<Rightarrow> 'd agent option" where
  "command_error s = (if ag_cmd s = CDrain
     then Some (s\<lparr>ag_q := (ag_q s)\<lparr>mq_listening := False\<rparr>, ag_cmd := CIdle\<rparr>) else None)"

section \<open>The gRPC thread and the control stream\<close>

definition control_done :: "'d agent \<Rightarrow> bool" where
  "control_done s = (case cl_connect_reactor (ag_client s) of None \<Rightarrow> False | Some cr \<Rightarrow> cr_done cr)"

definition grpc_step :: "world \<Rightarrow> 'd agent \<Rightarrow> 'd agent option" where
  "grpc_step w s = (case ag_grpc s of
     GChannel \<Rightarrow> Some (case grpc_thread (w_channel w) (ag_sched s) of
         (sch, None) \<Rightarrow> s\<lparr>ag_sched := sch, ag_grpc := GDone\<rparr>
       | (sch, Some cl) \<Rightarrow> s\<lparr>ag_sched := sch, ag_client := cl, ag_grpc := GLoad\<rparr>)
   | GLoad \<Rightarrow> Some (s\<lparr>ag_client := (ag_client s)\<lparr>cl_id := fst (LoadUUID (sch_files (ag_sched s)) (cl_id (ag_client s)))\<rparr>,
       ag_grpc := GConstruct\<rparr>)
   | GConstruct \<Rightarrow> Some (s\<lparr>ag_client := (ag_client s)\<lparr>cl_connect_reactor := Some ConnectReactor_new\<rparr>, ag_grpc := GAwait\<rparr>)
   | GAwait \<Rightarrow> Some (if control_done s then s\<lparr>ag_grpc := GTear\<rparr>
       else s\<lparr>ag_cancelled := ag_cancelled s \<or> \<not> g_running s\<rparr>)
   | GTear \<Rightarrow> Some (s\<lparr>ag_grpc := if cl_stream_data_reactor (ag_client s) = None then GTearConnect else GStop\<rparr>)
   | GStop \<Rightarrow> Some (s\<lparr>ag_stop := True, ag_grpc := GJoinPoll\<rparr>)
   | GJoinPoll \<Rightarrow> if ag_poll_done s then Some (s\<lparr>ag_grpc := GTearConnect\<rparr>) else None
   | GTearConnect \<Rightarrow> Some (case ConnectReactor_destroy (w_metadata w) of
         Inl err \<Rightarrow> crash err s
       | Inr text \<Rightarrow> s\<lparr>ag_grpc := GDone\<rparr>)
   | GDone \<Rightarrow> None)"

text \<open>The callbacks of the control stream; they stop with \<^verbatim>\<open>OnDone\<close>.\<close>

definition control_read :: "world \<Rightarrow> ControlMessage \<Rightarrow> 'd agent \<Rightarrow> 'd agent option" where
  "control_read w msg s =
     (if ag_grpc s \<in> {GConstruct, GAwait} \<and> \<not> control_done s then
        Some (case ConnectReactor_OnReadDone (w_write_tmp w) True msg (ag_client s, sch_files (ag_sched s)) of
          Inl err \<Rightarrow> crash err s
        | Inr ((cl, fs), go_on) \<Rightarrow> s\<lparr>ag_client := cl, ag_sched := ag_sched s\<lparr>sch_files := fs\<rparr>\<rparr>)
      else None)"

definition control_write_done :: "'d agent \<Rightarrow> 'd agent option" where
  "control_write_done s = (case cl_connect_reactor (ag_client s) of
     None \<Rightarrow> None
   | Some cr \<Rightarrow> if ag_grpc s = GAwait \<and> cr_writing cr \<and> \<not> cr_done cr then
       Some (case ConnectReactor_OnWriteDone True cr of
         Inl err \<Rightarrow> crash err s
       | Inr cr \<Rightarrow> s\<lparr>ag_client := (ag_client s)\<lparr>cl_connect_reactor := Some cr\<rparr>\<rparr>)
     else None)"

definition control_ended :: "grpc_status \<Rightarrow> 'd agent \<Rightarrow> 'd agent option" where
  "control_ended status s = (case cl_connect_reactor (ag_client s) of
     None \<Rightarrow> None
   | Some cr \<Rightarrow> if ag_grpc s = GAwait \<and> \<not> cr_done cr then
       Some (s\<lparr>ag_client := (ag_client s)\<lparr>cl_connect_reactor := Some (ConnectReactor_OnDone status cr)\<rparr>\<rparr>)
     else None)"

section \<open>The metrics stream\<close>

text \<open>The part of the agent that theory \<open>Stream_Reactor\<close> is about.  Before there is a reactor the view
  has one that has done nothing.\<close>

definition stream_view :: "'d agent \<Rightarrow> stream_sys" where
  "stream_view s = \<lparr>ss_mb = sch_buffer (ag_sched s),
     ss_sr = (case cl_stream_data_reactor (ag_client s) of None \<Rightarrow> StreamMetricsReactor_new | Some sr \<Rightarrow> sr),
     ss_metrics = ag_collected s, ss_log = ag_log s, ss_acked = ag_acked s\<rparr>"

definition put_stream :: "stream_sys \<Rightarrow> 'd agent \<Rightarrow> 'd agent" where
  "put_stream v s = s\<lparr>ag_sched := (ag_sched s)\<lparr>sch_buffer := ss_mb v\<rparr>,
     ag_client := (ag_client s)\<lparr>cl_stream_data_reactor := Some (ss_sr v)\<rparr>,
     ag_log := ss_log v, ag_acked := ss_acked v\<rparr>"

fun reactor_gone :: "grpc_pc \<Rightarrow> bool" where
  "reactor_gone GStop = True"
| "reactor_gone GJoinPoll = True"
| "reactor_gone GTearConnect = True"
| "reactor_gone GDone = True"
| "reactor_gone _ = False"

text \<open>A step of the polling thread or of a callback, on members that may be destroyed.\<close>

definition stream_do :: "stream_act \<Rightarrow> 'd agent \<Rightarrow> 'd agent" where
  "stream_do a s =
     (if reactor_gone (ag_grpc s) then crash Dangling s
      else case stream_act_step a (stream_view s) of
        Inl err \<Rightarrow> crash err s
      | Inr v \<Rightarrow> put_stream v s)"

definition poll_do :: "'d agent \<Rightarrow> 'd agent option" where
  "poll_do s = (case cl_stream_data_reactor (ag_client s) of
     None \<Rightarrow> None
   | Some sr \<Rightarrow> if ag_poll_done s then None
       else if ag_stop s \<and> sr_poll sr = PollTop then Some (s\<lparr>ag_poll_done := True\<rparr>)
       else Some (stream_do ActPoll s))"

definition stream_callback :: "stream_act \<Rightarrow> 'd agent \<Rightarrow> 'd agent option" where
  "stream_callback a s =
     (if cl_stream_data_reactor (ag_client s) = None \<or> ag_stream_done s then None else Some (stream_do a s))"

definition stream_ended :: "grpc_status \<Rightarrow> 'd agent \<Rightarrow> 'd agent option" where
  "stream_ended status s = (case cl_stream_data_reactor (ag_client s) of
     None \<Rightarrow> None
   | Some sr \<Rightarrow> if ag_stream_done s \<or> sr_done_writes sr \<noteq> 0 then None
       else if reactor_gone (ag_grpc s) then Some (crash Dangling s)
       else Some (s\<lparr>ag_client := snd (StreamMetricsReactor_OnDone status (ag_client s)), ag_stream_done := True\<rparr>))"

section \<open>The whole\<close>

datatype 'd act =
    Main "'d sensors" "BufferKey list"
  | Signal agent_signal
  | Send string
  | Cmd export_env
  | CmdError
  | Grpc
  | ControlRead ControlMessage
  | ControlWriteDone
  | ControlDone grpc_status
  | Poll
  | WriteDone
  | WriteNext
  | Ack BatchAck
  | StreamDone grpc_status

fun agent_act :: "world \<Rightarrow> 'd act \<Rightarrow> 'd agent \<Rightarrow> 'd agent option" where
  "agent_act w (Main e order) s = main_step w e order s"
| "agent_act w (Signal sig) s = Some (on_signal sig s)"
| "agent_act w (Send m) s = command_sent m s"
| "agent_act w (Cmd env) s = command_step w env s"
| "agent_act w CmdError s = command_error s"
| "agent_act w Grpc s = grpc_step w s"
| "agent_act w (ControlRead msg) s = control_read w msg s"
| "agent_act w ControlWriteDone s = control_write_done s"
| "agent_act w (ControlDone status) s = control_ended status s"
| "agent_act w Poll s = poll_do s"
| "agent_act w WriteDone s = stream_callback ActWriteDone s"
| "agent_act w WriteNext s = stream_callback ActWriteNext s"
| "agent_act w (Ack ack) s = stream_callback (ActAck ack) s"
| "agent_act w (StreamDone status) s = stream_ended status s"

text \<open>A thread that cannot move leaves the state as it is; a process that has ended does nothing.\<close>

definition agent_do :: "world \<Rightarrow> 'd act \<Rightarrow> 'd agent \<Rightarrow> 'd agent" where
  "agent_do w a s = (if ag_status s = Running then (case agent_act w a s of None \<Rightarrow> s | Some t \<Rightarrow> t) else s)"

definition agent_run :: "world \<Rightarrow> 'd act list \<Rightarrow> 'd agent \<Rightarrow> 'd agent" where
  "agent_run w acts s = fold (agent_do w) acts s"

text \<open>The agent when \<^verbatim>\<open>agent_mode\<close> has made its objects and started the gRPC thread.\<close>

definition agent_init :: "'d Scheduler \<Rightarrow> MessageQueue \<Rightarrow> kqueue \<Rightarrow> mqfs \<Rightarrow> 'd agent" where
  "agent_init sch q k fs = \<lparr>ag_status = Running, g_running = True, ag_main = MInit, ag_sched = sch, ag_good = True,
     ag_q = q, ag_k = k, ag_fs = fs, ag_cmd = CIdle, ag_grpc = GChannel, ag_client = Client_new True,
     ag_cancelled = False, ag_stop = False, ag_poll_done = False, ag_stream_done = False, ag_collected = [],
     ag_log = [], ag_acked = {}, ag_sent = [], ag_seen = [], ag_exports = {}\<rparr>"

inductive agent_reachable :: "world \<Rightarrow> ('t, 'n, 'd) agent_env \<Rightarrow> 'd agent \<Rightarrow> bool" for w env where
  start: "agent_start env entries files fs = Inr (sch, q, fs') \<Longrightarrow> queue_of q fs' = Inr k \<Longrightarrow>
    agent_reachable w env (agent_init sch q k fs')"
| step: "agent_reachable w env s \<Longrightarrow> agent_reachable w env (agent_do w a s)"

section \<open>What the operations leave alone\<close>

lemma crash_frame [simp]:
  "g_running (crash err s) = g_running s" "ag_main (crash err s) = ag_main s" "ag_good (crash err s) = ag_good s"
  "ag_q (crash err s) = ag_q s" "ag_k (crash err s) = ag_k s" "ag_fs (crash err s) = ag_fs s"
  "ag_cmd (crash err s) = ag_cmd s" "ag_grpc (crash err s) = ag_grpc s" "ag_client (crash err s) = ag_client s"
  "ag_cancelled (crash err s) = ag_cancelled s" "ag_stop (crash err s) = ag_stop s"
  "ag_poll_done (crash err s) = ag_poll_done s" "ag_stream_done (crash err s) = ag_stream_done s"
  "ag_collected (crash err s) = ag_collected s" "ag_log (crash err s) = ag_log s"
  "ag_acked (crash err s) = ag_acked s" "ag_sent (crash err s) = ag_sent s" "ag_seen (crash err s) = ag_seen s"
  "ag_exports (crash err s) = ag_exports s" "ag_sched (crash err s) = ag_sched s"
  by (simp_all add: crash_def)

lemma main_fail_frame [simp]:
  "g_running (main_fail err s) = g_running s" "ag_good (main_fail err s) = ag_good s"
  "ag_q (main_fail err s) = ag_q s" "ag_k (main_fail err s) = ag_k s" "ag_fs (main_fail err s) = ag_fs s"
  "ag_cmd (main_fail err s) = ag_cmd s" "ag_grpc (main_fail err s) = ag_grpc s"
  "ag_client (main_fail err s) = ag_client s" "ag_cancelled (main_fail err s) = ag_cancelled s"
  "ag_stop (main_fail err s) = ag_stop s" "ag_poll_done (main_fail err s) = ag_poll_done s"
  "ag_stream_done (main_fail err s) = ag_stream_done s" "ag_collected (main_fail err s) = ag_collected s"
  "ag_log (main_fail err s) = ag_log s" "ag_acked (main_fail err s) = ag_acked s"
  "ag_sent (main_fail err s) = ag_sent s" "ag_seen (main_fail err s) = ag_seen s"
  "ag_exports (main_fail err s) = ag_exports s" "ag_sched (main_fail err s) = ag_sched s"
  by (simp_all add: main_fail_def crash_def)

lemma on_signal_frame [simp]:
  "ag_status (on_signal sig s) = ag_status s" "ag_main (on_signal sig s) = ag_main s"
  "ag_good (on_signal sig s) = ag_good s" "ag_q (on_signal sig s) = ag_q s" "ag_k (on_signal sig s) = ag_k s"
  "ag_fs (on_signal sig s) = ag_fs s" "ag_cmd (on_signal sig s) = ag_cmd s" "ag_grpc (on_signal sig s) = ag_grpc s"
  "ag_client (on_signal sig s) = ag_client s" "ag_cancelled (on_signal sig s) = ag_cancelled s"
  "ag_stop (on_signal sig s) = ag_stop s" "ag_poll_done (on_signal sig s) = ag_poll_done s"
  "ag_stream_done (on_signal sig s) = ag_stream_done s" "ag_collected (on_signal sig s) = ag_collected s"
  "ag_log (on_signal sig s) = ag_log s" "ag_acked (on_signal sig s) = ag_acked s"
  "ag_sent (on_signal sig s) = ag_sent s" "ag_seen (on_signal sig s) = ag_seen s"
  "ag_exports (on_signal sig s) = ag_exports s" "ag_sched (on_signal sig s) = ag_sched s"
  by (simp_all add: on_signal_def)

lemma write_dump_frame [simp]:
  "ag_status (write_dump text s) = ag_status s" "g_running (write_dump text s) = g_running s"
  "ag_main (write_dump text s) = ag_main s" "ag_q (write_dump text s) = ag_q s" "ag_k (write_dump text s) = ag_k s"
  "ag_fs (write_dump text s) = ag_fs s" "ag_cmd (write_dump text s) = ag_cmd s"
  "ag_grpc (write_dump text s) = ag_grpc s" "ag_client (write_dump text s) = ag_client s"
  "ag_cancelled (write_dump text s) = ag_cancelled s" "ag_stop (write_dump text s) = ag_stop s"
  "ag_poll_done (write_dump text s) = ag_poll_done s" "ag_stream_done (write_dump text s) = ag_stream_done s"
  "ag_collected (write_dump text s) = ag_collected s" "ag_log (write_dump text s) = ag_log s"
  "ag_acked (write_dump text s) = ag_acked s" "ag_sent (write_dump text s) = ag_sent s"
  "ag_seen (write_dump text s) = ag_seen s" "ag_exports (write_dump text s) = ag_exports s"
  "sch_collectors (ag_sched (write_dump text s)) = sch_collectors (ag_sched s)"
  "sch_config (ag_sched (write_dump text s)) = sch_config (ag_sched s)"
  "sch_buffer (ag_sched (write_dump text s)) = sch_buffer (ag_sched s)"
  "sch_exporter (ag_sched (write_dump text s)) = sch_exporter (ag_sched s)"
  "print_dashboard (ag_sched (write_dump text s)) = print_dashboard (ag_sched s)"
  by (simp_all add: write_dump_def split: option.split)

lemma open_dump_frame [simp]:
  "ag_status (open_dump env dir s) = ag_status s" "g_running (open_dump env dir s) = g_running s"
  "ag_main (open_dump env dir s) = ag_main s" "ag_q (open_dump env dir s) = ag_q s"
  "ag_k (open_dump env dir s) = ag_k s" "ag_fs (open_dump env dir s) = ag_fs s"
  "ag_cmd (open_dump env dir s) = ag_cmd s" "ag_grpc (open_dump env dir s) = ag_grpc s"
  "ag_client (open_dump env dir s) = ag_client s" "ag_cancelled (open_dump env dir s) = ag_cancelled s"
  "ag_stop (open_dump env dir s) = ag_stop s" "ag_poll_done (open_dump env dir s) = ag_poll_done s"
  "ag_stream_done (open_dump env dir s) = ag_stream_done s" "ag_collected (open_dump env dir s) = ag_collected s"
  "ag_log (open_dump env dir s) = ag_log s" "ag_acked (open_dump env dir s) = ag_acked s"
  "ag_sent (open_dump env dir s) = ag_sent s" "ag_seen (open_dump env dir s) = ag_seen s"
  "sch_collectors (ag_sched (open_dump env dir s)) = sch_collectors (ag_sched s)"
  "sch_config (ag_sched (open_dump env dir s)) = sch_config (ag_sched s)"
  "sch_buffer (ag_sched (open_dump env dir s)) = sch_buffer (ag_sched s)"
  "print_dashboard (ag_sched (open_dump env dir s)) = print_dashboard (ag_sched s)"
  by (simp_all add: open_dump_def Let_def)

lemma close_dump_frame [simp]:
  "ag_status (close_dump s) = ag_status s" "g_running (close_dump s) = g_running s"
  "ag_main (close_dump s) = ag_main s" "ag_good (close_dump s) = ag_good s" "ag_q (close_dump s) = ag_q s"
  "ag_k (close_dump s) = ag_k s" "ag_fs (close_dump s) = ag_fs s" "ag_cmd (close_dump s) = ag_cmd s"
  "ag_grpc (close_dump s) = ag_grpc s" "ag_client (close_dump s) = ag_client s"
  "ag_cancelled (close_dump s) = ag_cancelled s" "ag_stop (close_dump s) = ag_stop s"
  "ag_poll_done (close_dump s) = ag_poll_done s" "ag_stream_done (close_dump s) = ag_stream_done s"
  "ag_collected (close_dump s) = ag_collected s" "ag_log (close_dump s) = ag_log s"
  "ag_acked (close_dump s) = ag_acked s" "ag_sent (close_dump s) = ag_sent s" "ag_seen (close_dump s) = ag_seen s"
  "ag_exports (close_dump s) = ag_exports s" "sch_collectors (ag_sched (close_dump s)) = sch_collectors (ag_sched s)"
  "sch_config (ag_sched (close_dump s)) = sch_config (ag_sched s)"
  "sch_buffer (ag_sched (close_dump s)) = sch_buffer (ag_sched s)"
  "sch_files (ag_sched (close_dump s)) = sch_files (ag_sched s)"
  "print_dashboard (ag_sched (close_dump s)) = print_dashboard (ag_sched s)"
  by (simp_all add: close_dump_def)

lemma set_exporting_frame [simp]:
  "ag_status (set_exporting b s) = ag_status s" "g_running (set_exporting b s) = g_running s"
  "ag_main (set_exporting b s) = ag_main s" "ag_good (set_exporting b s) = ag_good s"
  "ag_q (set_exporting b s) = ag_q s" "ag_k (set_exporting b s) = ag_k s" "ag_fs (set_exporting b s) = ag_fs s"
  "ag_cmd (set_exporting b s) = ag_cmd s" "ag_grpc (set_exporting b s) = ag_grpc s"
  "ag_client (set_exporting b s) = ag_client s" "ag_cancelled (set_exporting b s) = ag_cancelled s"
  "ag_stop (set_exporting b s) = ag_stop s" "ag_poll_done (set_exporting b s) = ag_poll_done s"
  "ag_stream_done (set_exporting b s) = ag_stream_done s" "ag_collected (set_exporting b s) = ag_collected s"
  "ag_log (set_exporting b s) = ag_log s" "ag_acked (set_exporting b s) = ag_acked s"
  "ag_sent (set_exporting b s) = ag_sent s" "ag_seen (set_exporting b s) = ag_seen s"
  "ag_exports (set_exporting b s) = ag_exports s"
  "sch_collectors (ag_sched (set_exporting b s)) = sch_collectors (ag_sched s)"
  "sch_config (ag_sched (set_exporting b s)) = sch_config (ag_sched s)"
  "sch_buffer (ag_sched (set_exporting b s)) = sch_buffer (ag_sched s)"
  "sch_files (ag_sched (set_exporting b s)) = sch_files (ag_sched s)"
  "print_dashboard (ag_sched (set_exporting b s)) = print_dashboard (ag_sched s)"
  by (simp_all add: set_exporting_def)

lemma put_stream_frame [simp]:
  "ag_status (put_stream v s) = ag_status s" "g_running (put_stream v s) = g_running s"
  "ag_main (put_stream v s) = ag_main s" "ag_good (put_stream v s) = ag_good s" "ag_q (put_stream v s) = ag_q s"
  "ag_k (put_stream v s) = ag_k s" "ag_fs (put_stream v s) = ag_fs s" "ag_cmd (put_stream v s) = ag_cmd s"
  "ag_grpc (put_stream v s) = ag_grpc s" "ag_cancelled (put_stream v s) = ag_cancelled s"
  "ag_stop (put_stream v s) = ag_stop s" "ag_poll_done (put_stream v s) = ag_poll_done s"
  "ag_stream_done (put_stream v s) = ag_stream_done s" "ag_collected (put_stream v s) = ag_collected s"
  "ag_sent (put_stream v s) = ag_sent s" "ag_seen (put_stream v s) = ag_seen s"
  "ag_exports (put_stream v s) = ag_exports s"
  "sch_collectors (ag_sched (put_stream v s)) = sch_collectors (ag_sched s)"
  "sch_config (ag_sched (put_stream v s)) = sch_config (ag_sched s)"
  "sch_exporter (ag_sched (put_stream v s)) = sch_exporter (ag_sched s)"
  "sch_files (ag_sched (put_stream v s)) = sch_files (ag_sched s)"
  "print_dashboard (ag_sched (put_stream v s)) = print_dashboard (ag_sched s)"
  by (simp_all add: put_stream_def)

lemma set_exporting_exporter [simp]:
  "sch_exporter (ag_sched (set_exporting b s)) = (sch_exporter (ag_sched s))\<lparr>is_exporting := b\<rparr>"
  "sch_exporter (ag_sched (close_dump s)) = (sch_exporter (ag_sched s))\<lparr>dump_file := None\<rparr>"
  by (simp_all add: set_exporting_def close_dump_def)

lemma main_fail_cases: "ag_main (main_fail err s) \<in> {ag_main s, MJoin (Some err)}"
  by (simp add: main_fail_def crash_def)

text \<open>Threads: a step of one leaves the program counters, and most of the state, of the others.\<close>

lemma main_step_frame_all:
  assumes "main_step w e order s = Some t"
  shows "ag_cmd t = ag_cmd s \<and> ag_grpc t = ag_grpc s \<and> ag_client t = ag_client s \<and> g_running t = g_running s \<and>
    ag_log t = ag_log s \<and> ag_acked t = ag_acked s \<and> ag_sent t = ag_sent s \<and> ag_seen t = ag_seen s \<and>
    ag_exports t = ag_exports s \<and> ag_cancelled t = ag_cancelled s \<and> ag_stop t = ag_stop s \<and>
    ag_poll_done t = ag_poll_done s \<and> ag_stream_done t = ag_stream_done s \<and>
    sch_config (ag_sched t) = sch_config (ag_sched s)"
  using assms
  by (cases "ag_main s"; auto simp: main_step_def main_collect_def main_dash_def main_exit_def Let_def
      split: sum.splits prod.splits if_splits list.splits)

lemma main_step_frame:
  assumes "main_step w e order s = Some t"
  shows "ag_cmd t = ag_cmd s" "ag_grpc t = ag_grpc s" "ag_client t = ag_client s" "g_running t = g_running s"
    "ag_log t = ag_log s" "ag_acked t = ag_acked s" "ag_sent t = ag_sent s" "ag_seen t = ag_seen s"
    "ag_exports t = ag_exports s" "ag_cancelled t = ag_cancelled s" "ag_stop t = ag_stop s"
    "ag_poll_done t = ag_poll_done s" "ag_stream_done t = ag_stream_done s"
    "sch_config (ag_sched t) = sch_config (ag_sched s)"
  using main_step_frame_all [OF assms] by simp_all

lemma command_step_frame_all:
  assumes "command_step w env s = Some t"
  shows "ag_main t = ag_main s \<and> ag_grpc t = ag_grpc s \<and> ag_client t = ag_client s \<and> g_running t = g_running s \<and>
    ag_collected t = ag_collected s \<and> ag_log t = ag_log s \<and> ag_acked t = ag_acked s \<and> ag_sent t = ag_sent s \<and>
    ag_q t = ag_q s \<and> ag_fs t = ag_fs s \<and> ag_cancelled t = ag_cancelled s \<and> ag_stop t = ag_stop s \<and>
    ag_poll_done t = ag_poll_done s \<and> ag_stream_done t = ag_stream_done s \<and>
    sch_config (ag_sched t) = sch_config (ag_sched s) \<and> sch_collectors (ag_sched t) = sch_collectors (ag_sched s) \<and>
    sch_buffer (ag_sched t) = sch_buffer (ag_sched s)"
  using assms
  by (auto simp: command_step_def command_receive_def command_export_def Let_def
      split: if_splits list.splits sum.splits cmd_pc.splits)
lemma command_step_frame:
  assumes "command_step w env s = Some t"
  shows "ag_main t = ag_main s" "ag_grpc t = ag_grpc s" "ag_client t = ag_client s" "g_running t = g_running s"
    "ag_collected t = ag_collected s" "ag_log t = ag_log s" "ag_acked t = ag_acked s" "ag_sent t = ag_sent s"
    "ag_q t = ag_q s" "ag_fs t = ag_fs s" "ag_cancelled t = ag_cancelled s" "ag_stop t = ag_stop s"
    "ag_poll_done t = ag_poll_done s" "ag_stream_done t = ag_stream_done s"
    "sch_config (ag_sched t) = sch_config (ag_sched s)" "sch_collectors (ag_sched t) = sch_collectors (ag_sched s)"
    "sch_buffer (ag_sched t) = sch_buffer (ag_sched s)"
  using command_step_frame_all [OF assms] by simp_all

lemma grpc_step_frame:
  assumes "grpc_step w s = Some t"
  shows "ag_main t = ag_main s" "ag_cmd t = ag_cmd s" "ag_q t = ag_q s" "ag_k t = ag_k s" "ag_fs t = ag_fs s"
    "g_running t = g_running s" "ag_good t = ag_good s" "ag_collected t = ag_collected s" "ag_log t = ag_log s"
    "ag_acked t = ag_acked s" "ag_sent t = ag_sent s" "ag_seen t = ag_seen s" "ag_exports t = ag_exports s"
    "ag_poll_done t = ag_poll_done s" "ag_stream_done t = ag_stream_done s"
    "sch_config (ag_sched t) = sch_config (ag_sched s)" "sch_collectors (ag_sched t) = sch_collectors (ag_sched s)"
    "sch_buffer (ag_sched t) = sch_buffer (ag_sched s)" "sch_exporter (ag_sched t) = sch_exporter (ag_sched s)"
    "sch_files (ag_sched t) = sch_files (ag_sched s)"
  using assms
  by (auto simp: grpc_step_def grpc_thread_def split: grpc_pc.splits if_splits sum.splits option.splits)

text \<open>The callbacks of the control stream.\<close>

definition is_control :: "'d act \<Rightarrow> bool" where
  "is_control a = (case a of ControlRead m \<Rightarrow> True | ControlWriteDone \<Rightarrow> True | ControlDone st \<Rightarrow> True | _ \<Rightarrow> False)"

lemma control_frame:
  assumes "agent_act w a s = Some t" "is_control a"
  shows "ag_main t = ag_main s" "ag_cmd t = ag_cmd s" "ag_grpc t = ag_grpc s" "ag_q t = ag_q s" "ag_k t = ag_k s"
    "ag_fs t = ag_fs s" "g_running t = g_running s" "ag_good t = ag_good s" "ag_collected t = ag_collected s"
    "ag_log t = ag_log s" "ag_acked t = ag_acked s" "ag_sent t = ag_sent s" "ag_seen t = ag_seen s"
    "ag_exports t = ag_exports s" "ag_cancelled t = ag_cancelled s" "ag_stop t = ag_stop s"
    "ag_poll_done t = ag_poll_done s" "ag_stream_done t = ag_stream_done s"
    "sch_config (ag_sched t) = sch_config (ag_sched s)" "sch_collectors (ag_sched t) = sch_collectors (ag_sched s)"
    "sch_buffer (ag_sched t) = sch_buffer (ag_sched s)" "sch_exporter (ag_sched t) = sch_exporter (ag_sched s)"
    "ag_grpc s \<in> {GConstruct, GAwait}"
  using assms
  by (auto simp: is_control_def control_read_def control_write_done_def control_ended_def
      split: act.splits if_splits sum.splits option.splits prod.splits)

text \<open>The polling thread and the callbacks of the metrics stream.\<close>

definition is_stream :: "'d act \<Rightarrow> bool" where
  "is_stream a = (case a of Poll \<Rightarrow> True | WriteDone \<Rightarrow> True | WriteNext \<Rightarrow> True | Ack ack \<Rightarrow> True
     | StreamDone st \<Rightarrow> True | _ \<Rightarrow> False)"

lemma stream_do_frame:
  "ag_main (stream_do a s) = ag_main s" "ag_cmd (stream_do a s) = ag_cmd s" "ag_grpc (stream_do a s) = ag_grpc s"
  "ag_q (stream_do a s) = ag_q s" "ag_k (stream_do a s) = ag_k s" "ag_fs (stream_do a s) = ag_fs s"
  "g_running (stream_do a s) = g_running s" "ag_good (stream_do a s) = ag_good s"
  "ag_collected (stream_do a s) = ag_collected s" "ag_sent (stream_do a s) = ag_sent s"
  "ag_seen (stream_do a s) = ag_seen s" "ag_exports (stream_do a s) = ag_exports s"
  "ag_cancelled (stream_do a s) = ag_cancelled s" "ag_stop (stream_do a s) = ag_stop s"
  "sch_config (ag_sched (stream_do a s)) = sch_config (ag_sched s)"
  "sch_collectors (ag_sched (stream_do a s)) = sch_collectors (ag_sched s)"
  "sch_exporter (ag_sched (stream_do a s)) = sch_exporter (ag_sched s)"
  "sch_files (ag_sched (stream_do a s)) = sch_files (ag_sched s)"
  by (simp_all add: stream_do_def split: sum.split)

lemma stream_frame:
  assumes "agent_act w a s = Some t" "is_stream a"
  shows "ag_main t = ag_main s" "ag_cmd t = ag_cmd s" "ag_grpc t = ag_grpc s" "ag_q t = ag_q s" "ag_k t = ag_k s"
    "ag_fs t = ag_fs s" "g_running t = g_running s" "ag_good t = ag_good s" "ag_collected t = ag_collected s"
    "ag_sent t = ag_sent s" "ag_seen t = ag_seen s" "ag_exports t = ag_exports s" "ag_cancelled t = ag_cancelled s"
    "ag_stop t = ag_stop s"
    "sch_config (ag_sched t) = sch_config (ag_sched s)" "sch_collectors (ag_sched t) = sch_collectors (ag_sched s)"
    "sch_exporter (ag_sched t) = sch_exporter (ag_sched s)" "sch_files (ag_sched t) = sch_files (ag_sched s)"
    "cl_stream_data_reactor (ag_client s) \<noteq> None"
  using assms
  by (auto simp: is_stream_def poll_do_def stream_callback_def stream_ended_def stream_do_frame
      split: act.splits if_splits option.splits)

text \<open>The steps by groups, and induction over what the agent can reach.\<close>

lemma agent_act_groups:
  obtains (main) e order where "a = Main e order" | (signal) sig where "a = Signal sig" | (send) m where "a = Send m"
  | (cmd) env where "a = Cmd env" | (cmd_error) "a = CmdError" | (grpc) "a = Grpc" | (control) "is_control a"
  | (stream) "is_stream a"
  by (cases a) (auto simp: is_control_def is_stream_def)

lemma agent_do_cases:
  assumes "P s" "\<And>t. ag_status s = Running \<Longrightarrow> agent_act w a s = Some t \<Longrightarrow> P t"
  shows "P (agent_do w a s)"
  using assms by (auto simp: agent_do_def split: option.split)

lemma agent_invariant [consumes 1, case_names start act]:
  assumes "agent_reachable w env s"
    and "\<And>entries files fs sch q fs' k. agent_start env entries files fs = Inr (sch, q, fs') \<Longrightarrow> queue_of q fs' = Inr k \<Longrightarrow>
      P (agent_init sch q k fs')"
    and "\<And>s a t. agent_reachable w env s \<Longrightarrow> P s \<Longrightarrow> ag_status s = Running \<Longrightarrow> agent_act w a s = Some t \<Longrightarrow> P t"
  shows "P s"
  using assms(1)
proof induction
  case (step s a)
  with assms(3) show ?case by (metis agent_do_cases)
qed (rule assms(2))

lemma agent_reachable_run: "agent_reachable w env s \<Longrightarrow> agent_reachable w env (agent_run w acts s)"
  unfolding agent_run_def by (induction acts arbitrary: s) (auto intro: agent_reachable.step)

lemma command_sentE:
  assumes "command_sent m s = Some t"
  obtains k fires where "kq_send m (ag_k s) = (k, fires, True)"
    "t = s\<lparr>ag_k := k, ag_cmd := if fires then CDrain else ag_cmd s, ag_sent := ag_sent s @ [m]\<rparr>"
  using assms by (auto simp: command_sent_def split: prod.splits bool.splits)

lemma command_errorE:
  assumes "command_error s = Some t"
  obtains "ag_cmd s = CDrain" "t = s\<lparr>ag_q := (ag_q s)\<lparr>mq_listening := False\<rparr>, ag_cmd := CIdle\<rparr>"
  using assms by (auto simp: command_error_def split: if_splits)

section \<open>A small agent\<close>

definition example_world :: world where
  "example_world = \<lparr>w_type_name = MetricType_table_name, w_double = (\<lambda>_. ''1''), w_key_name = (\<lambda>_. ''''),
     w_fixed2 = (\<lambda>_. ''1''), w_channel = Some \<circ> length, w_write_tmp = Some, w_refused = None,
     w_metadata = [''agent-id'' \<mapsto> ''a'']\<rparr>"

text \<open>The agent of \<open>example_agent\<close>, with one collector and an empty queue.\<close>

definition example_started :: "nat agent \<Rightarrow> bool" where
  "example_started s \<longleftrightarrow> (\<exists>sch q fs. s = agent_init sch q \<lparr>kq_messages = [], kq_notify = False, kq_maxmsg = 10, kq_msgsize = 4096\<rparr> fs \<and>
     sch_collectors sch = sch_collectors example_scheduler \<and> sch_buffer sch = sch_buffer example_scheduler \<and>
     collection_interval (sch_config sch) = 500 \<and> buffered_time_window (sch_config sch) = 2000 \<and>
     sch_exporter sch = idle_exporter \<and> sch_files sch = Map.empty \<and> mq_role q = Receiver \<and> \<not> mq_listening q)"

lemma example_started_reachable: "\<exists>s. example_started s \<and> agent_reachable w example_agent s"
proof -
  obtain sch q fs where s: "agent_start example_agent registered_collectors Map.empty (example_queues []) = Inr (sch, q, fs)"
    "sch_collectors sch = sch_collectors example_scheduler" "sch_buffer sch = sch_buffer example_scheduler"
    "collection_interval (sch_config sch) = 500" "buffered_time_window (sch_config sch) = 2000"
    "sch_exporter sch = idle_exporter" "sch_files sch = Map.empty"
    "q = \<lparr>mq_name = kCommandQueue, mq_role = Receiver, mq_opts = default_Options, mq_fd = Some 1, mq_listening = False\<rparr>"
    "queue_of q fs = Inr \<lparr>kq_messages = [], kq_notify = False, kq_maxmsg = 10, kq_msgsize = 4096\<rparr>"
    using example_agent_start by blast
  then have "example_started (agent_init sch q \<lparr>kq_messages = [], kq_notify = False, kq_maxmsg = 10, kq_msgsize = 4096\<rparr> fs)"
    unfolding example_started_def by (intro exI [of _ sch] exI [of _ q] exI [of _ fs]) simp
  with agent_reachable.start [OF s(1,9), of w] show ?thesis by blast
qed

abbreviation step_main :: "nat act" where
  "step_main \<equiv> Main example_sensors []"

text \<open>The main thread initialises the collector and listens.\<close>

definition example_listening :: "nat agent \<Rightarrow> bool" where
  "example_listening s \<longleftrightarrow> ag_status s = Running \<and> g_running s \<and> ag_main s = MLoop \<and> ag_cmd s = CIdle \<and> ag_grpc s = GChannel \<and>
     ag_collected s = [] \<and> ag_log s = [] \<and> ag_acked s = {} \<and> ag_sent s = [] \<and> ag_seen s = [] \<and> ag_exports s = {} \<and> ag_good s \<and>
     ag_k s = \<lparr>kq_messages = [], kq_notify = True, kq_maxmsg = 10, kq_msgsize = 4096\<rparr> \<and> mq_listening (ag_q s) \<and>
     sch_collectors (ag_sched s) = [NvmlC started_collector] \<and> sch_buffer (ag_sched s) = sch_buffer example_scheduler \<and>
     collection_interval (sch_config (ag_sched s)) = 500 \<and> buffered_time_window (sch_config (ag_sched s)) = 2000 \<and>
     sch_exporter (ag_sched s) = idle_exporter \<and> sch_files (ag_sched s) = Map.empty \<and> ag_client s = Client_new True \<and>
     \<not> ag_cancelled s \<and> \<not> ag_stop s \<and> \<not> ag_poll_done s \<and> \<not> ag_stream_done s"

lemma example_listening_reachable:
  "\<exists>s. example_listening s \<and> agent_reachable example_world example_agent s"
proof -
  obtain s sch q fs where st: "agent_reachable example_world example_agent s" and
    s: "s = agent_init sch q \<lparr>kq_messages = [], kq_notify = False, kq_maxmsg = 10, kq_msgsize = 4096\<rparr> fs"
    "sch_collectors sch = sch_collectors example_scheduler" "sch_buffer sch = sch_buffer example_scheduler"
    "collection_interval (sch_config sch) = 500" "buffered_time_window (sch_config sch) = 2000"
    "sch_exporter sch = idle_exporter" "sch_files sch = Map.empty" "mq_role q = Receiver" "\<not> mq_listening q"
    using example_started_reachable [of example_world] unfolding example_started_def by blast
  have "example_listening (agent_run example_world [step_main, step_main] s)"
    by (simp add: agent_run_def agent_do_def main_step_def s agent_init_def example_init listen_def arm_notify_def
        example_world_def example_listening_def)
  with agent_reachable_run [OF st] show ?thesis by blast
qed

text \<open>The main thread collects once.\<close>

lemma example_collected:
  assumes "example_listening s" "AddMetrics [example_metric] (sch_buffer example_scheduler) = Inr mb"
  shows "agent_run example_world [step_main, step_main] s = s\<lparr>ag_main := MDump 0 [example_metric],
    ag_sched := (ag_sched s)\<lparr>sch_buffer := mb\<rparr>, ag_collected := [example_metric]\<rparr>"
  using assms
  by (simp add: example_listening_def agent_run_def agent_do_def main_step_def main_collect_def example_collect Let_def
      del: Collector_Collect.simps)

end
