(* ===== verification/Agent_Delivery.thy ===== *)
theory Agent_Delivery
  imports Agent_System
begin

text \<open>
  What the composed agent inherits from its parts.  Seen through \<open>stream_view\<close> every step of the
  agent is a step of the streaming system of theory \<open>Stream_Reactor\<close> or changes nothing there, and
  seen through \<open>command_view\<close> it is one of the message queue of theory \<open>Message_Queue\<close>.  So their
  invariants hold for the threads of the agent together.
\<close>

section \<open>Steps that leave the stream alone\<close>

lemma stream_view_frame [simp]:
  "stream_view (s\<lparr>ag_main := pc\<rparr>) = stream_view s" "stream_view (s\<lparr>ag_cmd := c\<rparr>) = stream_view s"
  "stream_view (s\<lparr>ag_grpc := g\<rparr>) = stream_view s" "stream_view (s\<lparr>ag_k := k\<rparr>) = stream_view s"
  "stream_view (s\<lparr>ag_q := q\<rparr>) = stream_view s" "stream_view (s\<lparr>ag_seen := ms\<rparr>) = stream_view s"
  "stream_view (s\<lparr>ag_sent := ms\<rparr>) = stream_view s" "stream_view (s\<lparr>ag_fs := fs\<rparr>) = stream_view s"
  "stream_view (s\<lparr>ag_status := st\<rparr>) = stream_view s" "stream_view (s\<lparr>ag_cancelled := b\<rparr>) = stream_view s"
  "stream_view (s\<lparr>ag_stop := b\<rparr>) = stream_view s" "stream_view (s\<lparr>ag_poll_done := b\<rparr>) = stream_view s"
  "stream_view (s\<lparr>ag_stream_done := b\<rparr>) = stream_view s"
  "stream_view (crash err s) = stream_view s" "stream_view (main_fail err s) = stream_view s"
  "stream_view (on_signal sig s) = stream_view s" "stream_view (close_dump s) = stream_view s"
  "stream_view (set_exporting b s) = stream_view s"
  "stream_view (s\<lparr>ag_sched := (ag_sched s)\<lparr>sch_collectors := cs\<rparr>\<rparr>) = stream_view s"
  "stream_view (s\<lparr>ag_sched := (ag_sched s)\<lparr>print_dashboard := b\<rparr>\<rparr>) = stream_view s"
  by (simp_all add: stream_view_def crash_def main_fail_def on_signal_def close_dump_def set_exporting_def)

lemma stream_view_dump [simp]:
  "stream_view (write_dump text s) = stream_view s" "stream_view (open_dump env dir s) = stream_view s"
  by (simp_all add: stream_view_def write_dump_def open_dump_def Let_def split: option.split)

lemma stream_view_put: "ss_metrics v = ag_collected s \<Longrightarrow> stream_view (put_stream v s) = v"
  by (simp add: stream_view_def put_stream_def)

lemma stream_act_keeps_metrics:
  "stream_act_step a v = Inr v' \<Longrightarrow> (\<forall>ms. a \<noteq> ActCollect ms) \<Longrightarrow> ss_metrics v' = ss_metrics v"
  by (cases a) (auto simp: res_map_eq_Inr split: if_splits nat.splits prod.splits)

lemma stream_do_view:
  assumes "\<forall>ms. a \<noteq> ActCollect ms"
  shows "stream_view (stream_do a s) = stream_view s \<or> stream_step (stream_view s) (stream_view (stream_do a s))"
proof (cases "reactor_gone (ag_grpc s)")
  case False
  show ?thesis
  proof (cases "stream_act_step a (stream_view s)")
    case (Inr v)
    have "ss_metrics v = ag_collected s"
      using stream_act_keeps_metrics [OF Inr assms] by (simp add: stream_view_def)
    then have "stream_view (stream_do a s) = v" using False Inr by (simp add: stream_do_def stream_view_put)
    with stream_act_step_sound [OF Inr] show ?thesis by simp
  qed (use False in \<open>simp add: stream_do_def\<close>)
qed (simp add: stream_do_def)

text \<open>A collection is the only step of the main thread that the stream sees.\<close>

lemma main_collect_act:
  "stream_view (main_collect e i s) = stream_view s \<or>
   (\<exists>ms. stream_act_step (ActCollect ms) (stream_view s) = Inr (stream_view (main_collect e i s)))"
proof (cases "length (sch_collectors (ag_sched s)) \<le> i")
  case False
  show ?thesis
  proof (cases "Collector_Collect e (sch_collectors (ag_sched s) ! i)")
    case (Inr p)
    obtain c ms where p: "p = (c, ms)" by fastforce
    show ?thesis
    proof (cases "AddMetrics ms (sch_buffer (ag_sched s))")
      case add: (Inr mb)
      have "stream_view (main_collect e i s) = (stream_view s)\<lparr>ss_mb := mb, ss_metrics := ss_metrics (stream_view s) @ ms\<rparr>"
        using False Inr p add by (simp add: main_collect_def stream_view_def Let_def)
      moreover have "AddMetrics ms (ss_mb (stream_view s)) = Inr mb" using add by (simp add: stream_view_def)
      ultimately show ?thesis by (intro disjI2 exI [of _ ms]) simp
    qed (use False Inr p in \<open>simp add: main_collect_def\<close>)
  qed (use False in \<open>simp add: main_collect_def\<close>)
qed (simp add: main_collect_def)

lemma main_step_act:
  assumes "main_step w e order s = Some t"
  shows "stream_view t = stream_view s \<or> (\<exists>ms. stream_act_step (ActCollect ms) (stream_view s) = Inr (stream_view t))"
proof (cases "ag_main s")
  case (MCollect i)
  with assms main_collect_act [of e i s] show ?thesis by (simp add: main_step_def del: stream_act_step.simps)
next
  case (MLines i ms)
  with assms show ?thesis by (cases ms) (auto simp: main_step_def)
qed (use assms in \<open>auto simp: main_step_def main_dash_def main_exit_def split: sum.splits prod.splits if_splits\<close>)

lemma main_step_view:
  "main_step w e order s = Some t \<Longrightarrow> stream_view t = stream_view s \<or> stream_step (stream_view s) (stream_view t)"
  by (drule main_step_act) (auto dest: stream_act_step_sound simp del: stream_act_step.simps)

lemma command_step_view: "command_step w env s = Some t \<Longrightarrow> stream_view t = stream_view s"
  by (auto simp: command_step_def command_receive_def command_export_def Let_def
      split: if_splits list.splits sum.splits cmd_pc.splits)

text \<open>A control message can only install a fresh stream reactor.\<close>

lemma reply_stream: "reply t p cl = Inr cl' \<Longrightarrow> cl_stream_data_reactor cl' = cl_stream_data_reactor cl"
  by (auto simp: reply_def split: option.splits)

lemma OnMessage_stream:
  assumes "OnMessage write_tmp m (cl, fs) = Inr (cl', fs')"
  shows "cl_stream_data_reactor cl' = cl_stream_data_reactor cl \<or>
    cl_stream_data_reactor cl = None \<and> cl_stream_data_reactor cl' = Some StreamMetricsReactor_new"
  using assms
  by (auto simp: OnMessage_def SaveUUID_def SendData_def StreamData_def res_map_eq_Inr Let_def
      split: MessageType.splits if_splits dest: reply_stream)

lemma control_read_view: "control_read w msg s = Some t \<Longrightarrow> stream_view t = stream_view s"
  by (auto simp: control_read_def ConnectReactor_OnReadDone_def stream_view_def res_map_eq_Inr crash_def
      split: if_splits sum.splits prod.splits dest!: OnMessage_stream)

text \<open>Before the channel exists there is a client without reactors.\<close>

definition client_inv :: "'d agent \<Rightarrow> bool" where
  "client_inv s \<longleftrightarrow> (ag_grpc s = GChannel \<longrightarrow> ag_client s = Client_new True)"

lemma grpc_step_view: "client_inv s \<Longrightarrow> grpc_step w s = Some t \<Longrightarrow> stream_view t = stream_view s"
  by (auto simp: grpc_step_def client_inv_def grpc_thread_def Client_new_def stream_view_def crash_def
      split: grpc_pc.splits if_splits sum.splits option.splits)

lemma control_write_done_view: "control_write_done s = Some t \<Longrightarrow> stream_view t = stream_view s"
  by (auto simp: control_write_done_def stream_view_def crash_def split: option.splits if_splits sum.splits)

lemma control_ended_view: "control_ended st s = Some t \<Longrightarrow> stream_view t = stream_view s"
  by (auto simp: control_ended_def stream_view_def split: option.splits if_splits)

lemma stream_ended_view: "stream_ended st s = Some t \<Longrightarrow> stream_view t = stream_view s"
  by (auto simp: stream_ended_def StreamMetricsReactor_OnDone_def stream_on_done_def Let_def split: option.splits if_splits)

lemma agent_act_view:
  assumes "agent_act w a s = Some t" "client_inv s"
  shows "stream_view t = stream_view s \<or> stream_step (stream_view s) (stream_view t)"
proof (cases a)
  case (Main e order)
  with assms main_step_view show ?thesis by simp
next
  case (Send m)
  with assms show ?thesis by (auto simp: command_sent_def split: prod.splits bool.splits)
next
  case (Cmd env)
  with assms command_step_view show ?thesis by auto
next
  case CmdError
  with assms show ?thesis by (auto simp: command_error_def split: if_splits)
next
  case Grpc
  with assms grpc_step_view show ?thesis by auto
next
  case (ControlRead msg)
  with assms control_read_view show ?thesis by auto
next
  case ControlWriteDone
  with assms control_write_done_view show ?thesis by auto
next
  case (ControlDone st)
  with assms control_ended_view show ?thesis by auto
next
  case Poll
  with assms stream_do_view [of ActPoll s] show ?thesis by (auto simp: poll_do_def split: option.splits if_splits)
next
  case WriteDone
  with assms stream_do_view [of ActWriteDone s] show ?thesis by (auto simp: stream_callback_def split: if_splits)
next
  case WriteNext
  with assms stream_do_view [of ActWriteNext s] show ?thesis by (auto simp: stream_callback_def split: if_splits)
next
  case (Ack ack)
  with assms stream_do_view [of "ActAck ack" s] show ?thesis by (auto simp: stream_callback_def split: if_splits)
next
  case (StreamDone st)
  with assms stream_ended_view show ?thesis by auto
qed (use assms in auto)

section \<open>Delivery\<close>

lemma client_inv_act:
  assumes "agent_act w a s = Some t" "client_inv s"
  shows "client_inv t"
proof (cases a rule: agent_act_groups)
  case (main e order)
  with assms main_step_frame [of w e order s t] show ?thesis by (simp add: client_inv_def)
next
  case (send m)
  with assms show ?thesis by (auto simp: client_inv_def elim!: command_sentE)
next
  case (cmd env)
  with assms command_step_frame [of w env s t] show ?thesis by (simp add: client_inv_def)
next
  case cmd_error
  with assms show ?thesis by (auto simp: client_inv_def elim!: command_errorE)
next
  case grpc
  with assms(1) have "ag_grpc t \<noteq> GChannel"
    by (auto simp: grpc_step_def crash_def split: grpc_pc.splits if_splits sum.splits option.splits prod.splits)
  then show ?thesis by (simp add: client_inv_def)
next
  case control
  then have "ag_grpc s \<noteq> GChannel" using control_frame(23) [OF assms(1)] by auto
  then show ?thesis using control_frame(3) [OF assms(1)] control by (simp add: client_inv_def)
next
  case stream
  with stream_frame [OF assms(1)] assms(2) show ?thesis by (auto simp: client_inv_def Client_new_def)
qed (use assms in \<open>auto simp: client_inv_def\<close>)

text \<open>What stays as it was at the start: the configuration and the capacity of the series.\<close>

lemma agent_act_config: "agent_act w a s = Some t \<Longrightarrow> sch_config (ag_sched t) = sch_config (ag_sched s)"
  by (cases a rule: agent_act_groups)
    (auto dest: main_step_frame command_step_frame grpc_step_frame control_frame stream_frame
      elim!: command_sentE command_errorE simp: on_signal_def)

lemma agent_start_init:
  assumes "agent_start env entries files fs = Inr (sch, q, fs')"
  shows "stream_reachable (sch_config sch) (stream_init (sch_buffer sch))"
    "int (unat (mb_capacity_per_series (sch_buffer sch))) =
       buffered_time_window (sch_config sch) div collection_interval (sch_config sch)"
    "\<forall>c \<in> set (sch_collectors sch). set (Collector_requested c) \<subseteq> set (requestedMetrics (sch_config sch))"
proof -
  from agent_start_parts [OF assms] obtain entries' active where st:
    "LoadConfig (ae_toml env) (ae_parse env) (ae_cast env) (ae_loader env) = Inr (sch_config sch)"
    "Resolve (ae_sensors env) (requestedMetrics (sch_config sch)) entries = Inr (entries', active)"
    "MetricsBuffer_new (sch_config sch) = Inr (sch_buffer sch)" "sch_collectors sch = map ((!) entries') active" .
  have "collection_interval (sch_config sch) \<noteq> 0" using st(3) by (auto simp: MetricsBuffer_new_def)
  note cap = loaded_capacity_bound [OF st(1) this st(3)]
  show "stream_reachable (sch_config sch) (stream_init (sch_buffer sch))"
    using st(3) cap(3) by (rule stream_reachable.start)
  show "int (unat (mb_capacity_per_series (sch_buffer sch))) =
      buffered_time_window (sch_config sch) div collection_interval (sch_config sch)" by (rule cap(1))
  show "\<forall>c \<in> set (sch_collectors sch). set (Collector_requested c) \<subseteq> set (requestedMetrics (sch_config sch))"
    using Resolve_requested [OF st(2)] by (auto simp: st(4))
qed

lemma stream_view_init [simp]: "stream_view (agent_init sch q k fs) = stream_init (sch_buffer sch)"
  by (simp add: stream_view_def agent_init_def stream_init_def Client_new_def)

lemma agent_stream:
  "agent_reachable w env s \<Longrightarrow> client_inv s \<and> stream_reachable (sch_config (ag_sched s)) (stream_view s)"
proof (induction rule: agent_invariant)
  case (start entries files fs sch q fs' k)
  have "client_inv (agent_init sch q k fs')" "sch_config (ag_sched (agent_init sch q k fs')) = sch_config sch"
    by (simp_all add: client_inv_def agent_init_def)
  with agent_start_init(1) [OF start(1)] show ?case by simp
next
  case (act s a t)
  with agent_act_view [OF act(3)] client_inv_act [OF act(3)] agent_act_config [OF act(3)] show ?case
    by (auto intro: stream_reachable.step)
qed

lemma agent_capacity:
  "agent_reachable w env s \<Longrightarrow> bounded (stream_view s) \<longrightarrow>
   int (unat (mb_capacity_per_series (ss_mb (stream_view s)))) =
     buffered_time_window (sch_config (ag_sched s)) div collection_interval (sch_config (ag_sched s))"
proof (induction rule: agent_invariant)
  case (start entries files fs sch q fs' k)
  have "sch_config (ag_sched (agent_init sch q k fs')) = sch_config sch" by (simp add: agent_init_def)
  with agent_start_init(2) [OF start(1)] show ?case by (simp add: stream_init_def)
next
  case (act s a t)
  note inv = agent_stream [OF act(1)]
  show ?case
  proof (cases "stream_view t = stream_view s")
    case False
    then have st: "stream_step (stream_view s) (stream_view t)" using agent_act_view [OF act(3)] inv by blast
    show ?thesis
      using act(4) stream_step_capacity [OF st] stream_step_grows [OF st] inv agent_act_config [OF act(3)] by auto
  qed (use act(4) agent_act_config [OF act(3)] in simp)
qed

text \<open>Only what the configuration asks for is collected.\<close>

definition types_inv :: "'d agent \<Rightarrow> bool" where
  "types_inv s \<longleftrightarrow> (\<forall>c \<in> set (sch_collectors (ag_sched s)). set (Collector_requested c) \<subseteq> set (requestedMetrics (sch_config (ag_sched s)))) \<and>
     (\<forall>m \<in> set (ag_collected s). metric_type m \<in> set (requestedMetrics (sch_config (ag_sched s))))"

lemma types_inv_collect:
  assumes "types_inv s"
  shows "types_inv (main_collect e i s)"
proof (cases "length (sch_collectors (ag_sched s)) \<le> i")
  case False
  then have ci: "sch_collectors (ag_sched s) ! i \<in> set (sch_collectors (ag_sched s))" by simp
  show ?thesis
  proof (cases "Collector_Collect e (sch_collectors (ag_sched s) ! i)")
    case (Inr p)
    obtain c ms where p: "p = (c, ms)" by fastforce
    have c: "Collector_requested c = Collector_requested (sch_collectors (ag_sched s) ! i)"
      "\<forall>m \<in> set ms. metric_type m \<in> set (Collector_requested (sch_collectors (ag_sched s) ! i))"
      using any.keep_law any.out_law Inr p by blast+
    have "x = c \<or> x \<in> set (sch_collectors (ag_sched s))" if "x \<in> set ((sch_collectors (ag_sched s))[i := c])" for x
      using that set_update_subset_insert [of "sch_collectors (ag_sched s)" i c] by blast
    with assms c(1) ci have "\<forall>x \<in> set ((sch_collectors (ag_sched s))[i := c]).
        set (Collector_requested x) \<subseteq> set (requestedMetrics (sch_config (ag_sched s)))"
      by (metis types_inv_def)
    moreover have "\<forall>m \<in> set (ag_collected s @ ms). metric_type m \<in> set (requestedMetrics (sch_config (ag_sched s)))"
      using assms c(2) ci by (auto simp: types_inv_def)
    ultimately show ?thesis using assms False Inr p
      by (simp add: types_inv_def main_collect_def Let_def split: sum.split)
  qed (use assms False in \<open>simp add: types_inv_def main_collect_def\<close>)
qed (use assms in \<open>simp add: types_inv_def main_collect_def\<close>)

lemma types_inv_frame:
  "types_inv s \<Longrightarrow> sch_collectors (ag_sched t) = sch_collectors (ag_sched s) \<Longrightarrow>
   sch_config (ag_sched t) = sch_config (ag_sched s) \<Longrightarrow> ag_collected t = ag_collected s \<Longrightarrow> types_inv t"
  by (simp add: types_inv_def)

lemma types_inv_init:
  assumes "types_inv s" "init_collectors e (sch_collectors (ag_sched s)) = Inr cs"
  shows "types_inv (s\<lparr>ag_sched := (ag_sched s)\<lparr>sch_collectors := cs\<rparr>, ag_main := pc\<rparr>)"
proof -
  have "\<forall>x \<in> set (map Collector_requested cs). set x \<subseteq> set (requestedMetrics (sch_config (ag_sched s)))"
    using init_collectors_laws [OF assms(2)] assms(1) by (auto simp: types_inv_def)
  with assms(1) show ?thesis by (simp add: types_inv_def)
qed

lemma types_inv_main:
  assumes "main_step w e order s = Some t" "types_inv s"
  shows "types_inv t"
proof (cases "ag_main s")
  case (MCollect i)
  with assms types_inv_collect show ?thesis by (auto simp: main_step_def)
next
  case (MLines i ms)
  with assms show ?thesis by (cases ms) (auto simp: main_step_def intro: types_inv_frame)
next
  case MInit
  with assms types_inv_init show ?thesis by (auto simp: main_step_def split: sum.splits intro: types_inv_frame)
qed (use assms in \<open>auto simp: main_step_def main_dash_def main_exit_def split: sum.splits prod.splits if_splits
      intro: types_inv_frame\<close>)

lemma types_inv_act:
  assumes "agent_act w a s = Some t" "types_inv s"
  shows "types_inv t"
proof (cases a rule: agent_act_groups)
  case (main e order)
  with assms types_inv_main show ?thesis by simp
next
  case (cmd env)
  with assms command_step_frame [of w env s t] show ?thesis by (auto intro: types_inv_frame)
next
  case grpc
  with assms grpc_step_frame [of w s t] show ?thesis by (auto intro: types_inv_frame)
next
  case control
  with control_frame [OF assms(1)] assms(2) show ?thesis by (auto intro: types_inv_frame)
next
  case stream
  with stream_frame [OF assms(1)] assms(2) show ?thesis by (auto intro: types_inv_frame)
qed (use assms in \<open>auto elim!: command_sentE command_errorE intro: types_inv_frame\<close>)

lemma agent_types: "agent_reachable w env s \<Longrightarrow> types_inv s"
proof (induction rule: agent_invariant)
  case (start entries files fs sch q fs' k)
  with agent_start_init(3) [OF start(1)] show ?case by (simp add: types_inv_def agent_init_def)
qed (rule types_inv_act)

section \<open>Commands\<close>

fun phase_of :: "cmd_pc \<Rightarrow> mq_phase" where
  "phase_of CIdle = Idle"
| "phase_of CRearm = Rearming"
| "phase_of _ = Draining"

text \<open>The part of the agent that theory \<open>Message_Queue\<close> is about, with a handler that only takes note.\<close>

definition command_view :: "'d agent \<Rightarrow> unit mq_system" where
  "command_view s = \<lparr>sys_q = ag_q s, sys_k = ag_k s, sys_phase = phase_of (ag_cmd s), sys_h = (),
     sys_sent = ag_sent s, sys_seen = ag_seen s\<rparr>"

abbreviation note_step :: "unit mq_system \<Rightarrow> unit mq_system \<Rightarrow> bool" where
  "note_step \<equiv> mq_step (\<lambda>m h. Inr h)"

lemma command_view_frame:
  "ag_q t = ag_q s \<Longrightarrow> ag_k t = ag_k s \<Longrightarrow> phase_of (ag_cmd t) = phase_of (ag_cmd s) \<Longrightarrow> ag_sent t = ag_sent s \<Longrightarrow>
   ag_seen t = ag_seen s \<Longrightarrow> command_view t = command_view s"
  by (simp add: command_view_def)

lemma phase_after_start [simp]: "phase_of (after_start p) = Draining"
  by (simp add: after_start_def)

lemma command_begin_phase: "command_begin m = Inr pc \<Longrightarrow> phase_of pc = Draining"
  by (auto simp: command_begin_def Let_def split: if_splits)

lemma command_receive_view:
  assumes "ag_cmd s = CDrain"
  shows "note_step (command_view s) (command_view (command_receive s))"
proof (cases "kq_messages (ag_k s)")
  case Nil
  with assms mq_step.Empty [of "command_view s"] show ?thesis
    by (cases "mq_listening (ag_q s)") (simp_all add: command_view_def command_receive_def)
next
  case (Cons m ms)
  have "note_step (command_view s) ((command_view s)\<lparr>sys_k := (ag_k s)\<lparr>kq_messages := ms\<rparr>, sys_h := (),
      sys_seen := ag_seen s @ [m]\<rparr>)"
    using mq_step.Receive [of "command_view s" m ms "\<lambda>m h. Inr h"] assms Cons by (simp add: command_view_def)
  moreover have "command_view (command_receive s) = (command_view s)\<lparr>sys_k := (ag_k s)\<lparr>kq_messages := ms\<rparr>, sys_h := (),
      sys_seen := ag_seen s @ [m]\<rparr>"
    using assms Cons command_begin_phase [of m]
    by (auto simp: command_receive_def command_view_def Let_def split: sum.split)
  ultimately show ?thesis by simp
qed

lemma command_export_frame:
  "ag_k (command_export env s) = ag_k s" "ag_seen (command_export env s) = ag_seen s"
  "in_exporter (ag_cmd s) \<Longrightarrow> phase_of (ag_cmd (command_export env s)) = phase_of (ag_cmd s)"
  by (auto simp: command_export_def split: cmd_pc.split)

lemma command_step_mq:
  assumes "command_step w env s = Some t"
  shows "command_view t = command_view s \<or> note_step (command_view s) (command_view t)"
proof (cases "in_exporter (ag_cmd s)")
  case True
  then consider "t = crash Dangling s" | "t = command_export env s"
    using assms by (auto simp: command_step_def split: if_splits)
  then have "command_view t = command_view s"
  proof cases
    case 2
    with command_step_frame(8,9) [OF assms] command_export_frame(3) [OF True] show ?thesis
      by (simp add: command_view_def command_export_frame(1,2))
  qed (simp add: command_view_def)
  then show ?thesis by simp
next
  case False
  then consider "ag_cmd s = CDrain" | "ag_cmd s = CRearm" using assms by (cases "ag_cmd s") (auto simp: command_step_def)
  then show ?thesis
  proof cases
    case 1
    with assms command_receive_view [OF 1] show ?thesis by (simp add: command_step_def)
  next
    case 2
    with assms mq_step.Rearm [of "command_view s"] show ?thesis
      by (auto simp: command_step_def command_view_def arm_notify_def split: option.splits)
  qed
qed

lemma listen_refused: "listen r q k = Inr (q', k') \<Longrightarrow> listen None q k = Inr (q', k')"
  by (auto simp: listen_def arm_notify_def split: if_splits option.splits)

lemma main_step_mq:
  assumes "main_step w e order s = Some t"
  shows "command_view t = command_view s \<or> note_step (command_view s) (command_view t)"
proof (cases "ag_main s")
  case MListen
  show ?thesis
  proof (cases "listen (w_refused w) (ag_q s) (ag_k s)")
    case (Inr p)
    then obtain q k where "listen None (sys_q (command_view s)) (sys_k (command_view s)) = Inr (q, k)"
      "t = s\<lparr>ag_q := q, ag_k := k, ag_main := MLoop\<rparr>"
      using assms MListen listen_refused by (cases p) (auto simp: main_step_def command_view_def)
    with mq_step.Listen [of "command_view s" q k] show ?thesis by (simp add: command_view_def)
  qed (use assms MListen in \<open>auto simp: main_step_def intro!: command_view_frame\<close>)
next
  case MStop
  obtain q k fs where st: "stop_listening (ag_q s) (ag_k s) (ag_fs s) = (q, k, fs)" by (metis prod_cases3)
  with assms MStop mq_step.Stop [of "command_view s" "ag_fs s" q k fs] show ?thesis
    by (auto simp: main_step_def command_view_def)
next
  case (MDestroy r)
  obtain q k fs where st: "stop_listening (ag_q s) (ag_k s) (ag_fs s) = (q, k, fs)" by (metis prod_cases3)
  with assms MDestroy mq_step.Stop [of "command_view s" "ag_fs s" q k fs] show ?thesis
    by (auto simp: main_step_def main_exit_def MessageQueue_destroy_def command_view_def)
next
  case (MCollect i)
  with assms show ?thesis
    by (auto simp: main_step_def main_collect_def Let_def split: if_splits sum.splits intro!: command_view_frame)
next
  case (MLines i ms)
  with assms show ?thesis by (cases ms) (auto simp: main_step_def intro!: command_view_frame)
qed (use assms in \<open>auto simp: main_step_def main_dash_def split: sum.splits if_splits intro!: command_view_frame\<close>)


lemma agent_act_mq:
  assumes "agent_act w a s = Some t"
  shows "command_view t = command_view s \<or> note_step (command_view s) (command_view t)"
proof (cases a rule: agent_act_groups)
  case (main e order)
  with assms main_step_mq [of w e order s t] show ?thesis by simp
next
  case (send m)
  with assms obtain k fires where "kq_send m (ag_k s) = (k, fires, True)"
    "t = s\<lparr>ag_k := k, ag_cmd := if fires then CDrain else ag_cmd s, ag_sent := ag_sent s @ [m]\<rparr>"
    by (auto elim: command_sentE)
  with mq_step.Send [of m "command_view s" k fires] show ?thesis by (cases fires) (simp_all add: command_view_def)
next
  case (cmd env)
  with assms command_step_mq [of w env s t] show ?thesis by simp
next
  case cmd_error
  with assms mq_step.Error [of "command_view s"] show ?thesis by (auto simp: command_view_def elim!: command_errorE)
next
  case grpc
  with assms grpc_step_frame [of w s t] show ?thesis by (auto intro!: command_view_frame)
next
  case control
  then show ?thesis by (simp add: command_view_def control_frame [OF assms])
next
  case stream
  then show ?thesis by (simp add: command_view_def stream_frame [OF assms])
qed (use assms in \<open>auto intro!: command_view_frame\<close>)

text \<open>A registration is only in place while no command thread runs.\<close>

definition one_thread :: "'d agent \<Rightarrow> bool" where
  "one_thread s \<longleftrightarrow> (kq_notify (ag_k s) \<longrightarrow> ag_cmd s = CIdle) \<and> (ag_main s \<in> {MInit, MListen} \<longrightarrow> ag_cmd s = CIdle \<and> \<not> kq_notify (ag_k s))"

lemma one_thread_frame:
  "one_thread s \<Longrightarrow> ag_k t = ag_k s \<Longrightarrow> ag_cmd t = ag_cmd s \<Longrightarrow> ag_main t = ag_main s \<Longrightarrow> one_thread t"
  by (simp add: one_thread_def)

lemma one_thread_fail: "one_thread s \<Longrightarrow> one_thread (main_fail err s)"
  by (auto simp: one_thread_def main_fail_def crash_def)

lemma one_thread_main:
  assumes "main_step w e order s = Some t" "one_thread s"
  shows "one_thread t"
proof (cases "ag_main s")
  case (MCollect i)
  with assms one_thread_fail [OF assms(2)] show ?thesis
    by (auto simp: main_step_def main_collect_def Let_def split: if_splits sum.splits) (auto simp: one_thread_def)
next
  case (MLines i ms)
  with assms show ?thesis by (cases ms) (auto simp: one_thread_def main_step_def)
next
  case MListen
  with assms one_thread_fail [OF assms(2)] show ?thesis
    by (auto simp: main_step_def split: sum.splits) (auto simp: one_thread_def)
next
  case MInit
  with assms one_thread_fail [OF assms(2)] show ?thesis
    by (auto simp: main_step_def split: sum.splits) (auto simp: one_thread_def)
next
  case MDash
  with assms one_thread_fail [OF assms(2)] show ?thesis
    by (auto simp: main_step_def main_dash_def split: sum.splits if_splits) (auto simp: one_thread_def)
qed (use assms in \<open>auto simp: one_thread_def main_step_def main_exit_def
      MessageQueue_destroy_def stop_listening_def split: if_splits prod.splits\<close>)

lemma one_thread_cmd:
  assumes "command_step w env s = Some t" "one_thread s"
  shows "one_thread t"
proof -
  have "ag_cmd s \<noteq> CIdle" using assms(1) by (auto simp: command_step_def)
  then have off: "\<not> kq_notify (ag_k s)" "ag_main s \<notin> {MInit, MListen}" using assms(2) by (auto simp: one_thread_def)
  have "\<not> kq_notify (ag_k t) \<or> ag_cmd t = CIdle"
    using assms(1) off(1) command_export_frame(1) [of env s]
    by (auto simp: command_step_def command_receive_def arm_notify_def Let_def split: if_splits list.splits sum.splits option.splits)
  with off(2) command_step_frame(1) [OF assms(1)] show ?thesis by (auto simp: one_thread_def)
qed

lemma one_thread_act:
  assumes "agent_act w a s = Some t" "one_thread s"
  shows "one_thread t"
proof (cases a rule: agent_act_groups)
  case (main e order)
  with assms one_thread_main show ?thesis by simp
next
  case (send m)
  with assms show ?thesis by (auto simp: one_thread_def kq_send_def Let_def elim!: command_sentE split: if_splits)
next
  case (cmd env)
  with assms one_thread_cmd show ?thesis by simp
next
  case grpc
  with assms grpc_step_frame [of w s t] show ?thesis by (auto intro: one_thread_frame)
next
  case control
  with control_frame [OF assms(1)] assms(2) show ?thesis by (auto intro: one_thread_frame)
next
  case stream
  with stream_frame [OF assms(1)] assms(2) show ?thesis by (auto intro: one_thread_frame)
qed (use assms in \<open>auto simp: one_thread_def elim!: command_errorE\<close>)

lemma agent_start_queue:
  assumes "agent_start env entries files fs = Inr (sch, q, fs')" "queue_of q fs' = Inr k"
  shows "k = \<lparr>kq_messages = [], kq_notify = False, kq_maxmsg = 10, kq_msgsize = 4096\<rparr>"
  using assms
  by (auto simp: agent_start_def res_bind_eq_Inr MessageQueue_new_def open_queue_def mq_open_def mq_unlink_def
      kCommandQueue_def queue_of_def default_Options_def Let_def split: sum.splits prod.splits option.splits if_splits)

lemma agent_commands: "agent_reachable w env s \<Longrightarrow> one_thread s \<and> mq_inv default_Options (command_view s)"
proof (induction rule: agent_invariant)
  case (start entries files fs sch q fs' k)
  from agent_start_queue [OF start] show ?case
    by (simp add: one_thread_def mq_inv_def command_view_def agent_init_def default_Options_def)
next
  case (act s a t)
  with one_thread_act [OF act(3)] agent_act_mq [OF act(3)] show ?case by (auto intro: mq_inv_step)
qed

section \<open>Properties\<close>



text \<open>
  C4.  Commands in the running agent: whatever the threads do, the commands received are a prefix of
  those the queue accepted, in order and each once, the others are pending within the bounds of
  the queue, and a new message never starts a second command thread beside a running one.
\<close>

theorem agent_commands_in_order:
  assumes "agent_reachable w env s"
  shows "ag_sent s = ag_seen s @ kq_messages (ag_k s) \<and> length (kq_messages (ag_k s)) \<le> 10 \<and>
    (\<forall>m \<in> set (kq_messages (ag_k s)). length m \<le> 4096) \<and> (kq_notify (ag_k s) \<longrightarrow> ag_cmd s = CIdle)"
  using agent_commands [OF assms] by (auto simp: mq_inv_def command_view_def default_Options_def one_thread_def)

theorem agent_commands_in_order_witness:
  "\<exists>s. agent_reachable example_world example_agent s \<and> ag_cmd s = CDrain \<and> ag_sent s = [''dump_end''] \<and>
     ag_seen s = [] \<and> kq_messages (ag_k s) = [''dump_end''] \<and> \<not> kq_notify (ag_k s)"
proof -
  obtain s where s: "example_listening s" "agent_reachable example_world example_agent s"
    using example_listening_reachable by blast
  define t where "t = agent_run example_world [Send ''dump_end''] s"
  have t: "ag_cmd t = CDrain" "ag_sent t = [''dump_end'']" "ag_seen t = []"
    using s(1) by (simp_all add: t_def example_listening_def agent_run_def agent_do_def command_sent_def kq_send_def)
  have r: "agent_reachable example_world example_agent t" unfolding t_def by (rule agent_reachable_run [OF s(2)])
  from agent_commands_in_order [OF r] t r show ?thesis by (intro exI [of _ t]) auto
qed

end
