(* ===== verification/Agent_Export.thy ===== *)
theory Agent_Export
  imports Agent_Delivery
begin

text \<open>
  Exports in the running agent.  \<^verbatim>\<open>Exporter\<close> is used by the main thread and by the command thread
  without a lock, so its statements interleave.  The first part shows what an export file holds
  however they do; the second that a collection, or a command, that is not disturbed does exactly
  what \<open>collect_one\<close> and \<open>on_message\<close> of theory \<open>Scheduler\<close> do in one go.
\<close>

section \<open>What a file holds\<close>

definition lines_of :: "world \<Rightarrow> Metric list \<Rightarrow> string" where
  "lines_of w ms = concat (map (dump_line (w_type_name w) (w_double w)) ms)"

lemma lines_of_simps [simp]:
  "lines_of w [] = ''''" "lines_of w (ms @ ms') = lines_of w ms @ lines_of w ms'"
  "lines_of w (m # ms) = dump_line (w_type_name w) (w_double w) m @ lines_of w ms"
  by (simp_all add: lines_of_def)

text \<open>Metrics that are in the buffer and not yet written.\<close>

fun unwritten :: "main_pc \<Rightarrow> Metric list" where
  "unwritten (MDump i ms) = ms"
| "unwritten (MLines i ms) = ms"
| "unwritten _ = []"

text \<open>The final \<^verbatim>\<open>EndDump\<close> has closed the file, or \<^verbatim>\<open>Run\<close> was left by an exception.\<close>

fun closing :: "main_pc \<Rightarrow> bool" where
  "closing MUnflag = True"
| "closing MStop = True"
| "closing (MJoin r) = True"
| "closing (MDestroy r) = True"
| "closing _ = False"

text \<open>The file has just been opened and the header is the next thing the command thread writes.\<close>

definition header_due :: "'d agent \<Rightarrow> string \<Rightarrow> bool" where
  "header_due s p \<longleftrightarrow> (\<exists>q. ag_cmd s = CHeader q) \<and> ag_good s \<and> dump_file (sch_exporter (ag_sched s)) = Some p"

text \<open>\<open>ms\<close> are the metrics written to the file \<open>p\<close>.\<close>

definition holds :: "world \<Rightarrow> 'd agent \<Rightarrow> string \<Rightarrow> Metric list \<Rightarrow> bool" where
  "holds w s p ms \<longleftrightarrow> (if header_due s p then sch_files (ag_sched s) p = Some (lines_of w ms)
     else (\<exists>ms1 ms2. ms = ms1 @ ms2 \<and> sch_files (ag_sched s) p = Some (lines_of w ms1 @ dump_header @ lines_of w ms2)) \<or>
       closing (ag_main s) \<and> sch_files (ag_sched s) p = Some (lines_of w ms))"

definition export_inv :: "world \<Rightarrow> 'd agent \<Rightarrow> bool" where
  "export_inv w s \<longleftrightarrow> subseq (unwritten (ag_main s)) (ag_collected s) \<and>
     (\<forall>p. dump_file (sch_exporter (ag_sched s)) = Some p \<longrightarrow> p \<in> ag_exports s) \<and>
     (\<forall>p \<in> ag_exports s. suffix ''.csv'' p \<and> (\<exists>ms. holds w s p ms \<and> subseq (ms @ unwritten (ag_main s)) (ag_collected s)))"

lemma export_invD:
  assumes "export_inv w s"
  shows "subseq (unwritten (ag_main s)) (ag_collected s)"
    "dump_file (sch_exporter (ag_sched s)) = Some p \<Longrightarrow> p \<in> ag_exports s"
    "p \<in> ag_exports s \<Longrightarrow> suffix ''.csv'' p"
    "p \<in> ag_exports s \<Longrightarrow> \<exists>ms. holds w s p ms \<and> subseq (ms @ unwritten (ag_main s)) (ag_collected s)"
  using assms by (auto simp: export_inv_def)

lemma export_inv_step:
  assumes "export_inv w s" "ag_exports t = ag_exports s"
    "\<And>p. dump_file (sch_exporter (ag_sched t)) = Some p \<Longrightarrow> p \<in> ag_exports s"
    "subseq (unwritten (ag_main t)) (ag_collected t)"
    "\<And>p ms. p \<in> ag_exports s \<Longrightarrow> holds w s p ms \<Longrightarrow> subseq (ms @ unwritten (ag_main s)) (ag_collected s) \<Longrightarrow>
      \<exists>ms'. holds w t p ms' \<and> subseq (ms' @ unwritten (ag_main t)) (ag_collected t)"
  shows "export_inv w t"
  unfolding export_inv_def
proof (intro conjI allI impI ballI)
  fix p assume "p \<in> ag_exports t"
  then have p: "p \<in> ag_exports s" by (simp add: assms(2))
  with export_invD(3) [OF assms(1)] show "suffix ''.csv'' p" .
  from export_invD(4) [OF assms(1) p] assms(5) [OF p]
  show "\<exists>ms. holds w t p ms \<and> subseq (ms @ unwritten (ag_main t)) (ag_collected t)" by blast
qed (simp_all add: assms)

lemma holds_cong:
  "header_due t p = header_due s p \<Longrightarrow> sch_files (ag_sched t) p = sch_files (ag_sched s) p \<Longrightarrow>
   closing (ag_main t) = closing (ag_main s) \<Longrightarrow> holds w t p ms = holds w s p ms"
  by (simp add: holds_def)

lemma holds_mono:
  "holds w s p ms \<Longrightarrow> header_due t p = header_due s p \<Longrightarrow> sch_files (ag_sched t) p = sch_files (ag_sched s) p \<Longrightarrow>
   closing (ag_main s) \<longrightarrow> closing (ag_main t) \<Longrightarrow> holds w t p ms"
  by (auto simp: holds_def)

text \<open>Steps that touch neither the exporter nor its files.\<close>

lemma export_inv_frame:
  assumes "export_inv w s" "sch_exporter (ag_sched t) = sch_exporter (ag_sched s)" "ag_good t = ag_good s"
    "ag_exports t = ag_exports s" "\<forall>p \<in> ag_exports s. sch_files (ag_sched t) p = sch_files (ag_sched s) p"
    "ag_collected t = ag_collected s" "unwritten (ag_main t) = [] \<or> unwritten (ag_main t) = unwritten (ag_main s)"
    "closing (ag_main s) \<longrightarrow> closing (ag_main t)" "(\<exists>q. ag_cmd t = CHeader q) = (\<exists>q. ag_cmd s = CHeader q)"
  shows "export_inv w t"
proof (rule export_inv_step [OF assms(1,4)])
  fix p ms assume p: "p \<in> ag_exports s" "holds w s p ms" and sub: "subseq (ms @ unwritten (ag_main s)) (ag_collected s)"
  have "holds w t p ms" using p(2) assms(2,3,5,8,9) p(1) by (auto intro!: holds_mono [OF p(2)] simp: header_due_def)
  moreover have "subseq (ms @ unwritten (ag_main t)) (ag_collected t)"
    using sub assms(6,7) subseq_order.order_trans [OF prefix_imp_subseq sub, of ms] by auto
  ultimately show "\<exists>ms'. holds w t p ms' \<and> subseq (ms' @ unwritten (ag_main t)) (ag_collected t)" by blast
qed (use assms export_invD(1,2) [OF assms(1)] in auto)

lemma subseq_skip: "subseq (ms @ m # ns) xs \<Longrightarrow> subseq (ms @ ns) xs"
  using subseq_order.order_trans [of "ms @ ns" "ms @ m # ns" xs] by (auto intro: list_emb_append_mono)

subsection \<open>The main thread\<close>

lemma export_inv_fail: "export_inv w s \<Longrightarrow> export_inv w (main_fail err s)"
  by (rule export_inv_frame [of w s]) (auto simp: main_fail_def crash_def)

lemma export_inv_collect:
  assumes "export_inv w s" "ag_main s = MCollect i"
  shows "export_inv w (main_collect e i s)"
proof (cases "length (sch_collectors (ag_sched s)) \<le> i")
  case True
  then show ?thesis using assms by (auto simp: main_collect_def Let_def intro: export_inv_frame [of w s])
next
  case False
  have new: "export_inv w (s\<lparr>ag_sched := (ag_sched s)\<lparr>sch_collectors := cs, sch_buffer := mb\<rparr>,
      ag_collected := ag_collected s @ ms, ag_main := MDump i ms\<rparr>)" (is "export_inv w ?t") for cs mb ms
  proof (rule export_inv_step [OF assms(1)])
    fix p ns assume h: "holds w s p ns" "subseq (ns @ unwritten (ag_main s)) (ag_collected s)"
    have "holds w ?t p ns" by (rule holds_mono [OF h(1)]) (simp_all add: header_due_def assms(2))
    moreover have "subseq (ns @ unwritten (ag_main ?t)) (ag_collected ?t)"
      using h(2) by (simp add: assms(2) list_emb_append_mono)
    ultimately show "\<exists>ns'. holds w ?t p ns' \<and> subseq (ns' @ unwritten (ag_main ?t)) (ag_collected ?t)" by blast
  next
    show "subseq (unwritten (ag_main ?t)) (ag_collected ?t)" by (simp add: list_emb_append2)
  qed (use export_invD(2) [OF assms(1)] in simp_all)
  show ?thesis
  proof (cases "Collector_Collect e (sch_collectors (ag_sched s) ! i)")
    case (Inr r)
    obtain c ms where r: "r = (c, ms)" by fastforce
    show ?thesis
    proof (cases "AddMetrics ms (sch_buffer (ag_sched s))")
      case add: (Inr mb)
      with False Inr r new show ?thesis by (simp add: main_collect_def Let_def)
    qed (use False Inr r export_inv_fail [OF assms(1)] in \<open>simp add: main_collect_def\<close>)
  qed (use False export_inv_fail [OF assms(1)] in \<open>simp add: main_collect_def\<close>)
qed

text \<open>A line goes to the file that is open, if any.\<close>

lemma holds_line:
  assumes "holds w s p ns" "ag_good s" "dump_file (sch_exporter (ag_sched s)) = Some p" "ag_main s = MLines i (m # ms)"
  shows "holds w ((write_dump (dump_line (w_type_name w) (w_double w) m) s)\<lparr>ag_main := MLines i ms\<rparr>) p (ns @ [m])"
proof (cases "header_due s p")
  case True
  with assms show ?thesis by (simp add: holds_def header_due_def write_dump_def append_file_def)
next
  case False
  with assms obtain ms1 ms2 where "ns = ms1 @ ms2"
    "sch_files (ag_sched s) p = Some (lines_of w ms1 @ dump_header @ lines_of w ms2)" by (auto simp: holds_def)
  then have "ns @ [m] = ms1 @ (ms2 @ [m])" "sch_files (ag_sched ((write_dump (dump_line (w_type_name w) (w_double w) m) s)
      \<lparr>ag_main := MLines i ms\<rparr>)) p = Some (lines_of w ms1 @ dump_header @ lines_of w (ms2 @ [m]))"
    using assms by (simp_all add: write_dump_def append_file_def)
  moreover have "\<not> header_due ((write_dump (dump_line (w_type_name w) (w_double w) m) s)\<lparr>ag_main := MLines i ms\<rparr>) p"
    using False assms by (simp add: header_due_def write_dump_def)
  ultimately show ?thesis unfolding holds_def by metis
qed

lemma export_inv_line:
  assumes "export_inv w s" "ag_main s = MLines i (m # ms)"
  shows "export_inv w ((write_dump (dump_line (w_type_name w) (w_double w) m) s)\<lparr>ag_main := MLines i ms\<rparr>)" (is "export_inv w ?t")
proof (rule export_inv_step [OF assms(1)])
  fix p ns assume h: "holds w s p ns" "subseq (ns @ unwritten (ag_main s)) (ag_collected s)"
  then have sub: "subseq (ns @ [m] @ ms) (ag_collected s)" using assms(2) by simp
  show "\<exists>ns'. holds w ?t p ns' \<and> subseq (ns' @ unwritten (ag_main ?t)) (ag_collected ?t)"
  proof (cases "ag_good s \<and> dump_file (sch_exporter (ag_sched s)) = Some p")
    case True
    with holds_line [OF h(1) _ _ assms(2)] sub show ?thesis by (intro exI [of _ "ns @ [m]"]) simp
  next
    case False
    have "holds w ?t p ns"
      by (rule holds_mono [OF h(1)])
        (use False in \<open>auto simp: header_due_def write_dump_def append_file_def assms(2) split: option.split\<close>)
    with subseq_skip [of ns m ms] sub show ?thesis by auto
  qed
next
  show "subseq (unwritten (ag_main ?t)) (ag_collected ?t)"
    using export_invD(1) [OF assms(1)] assms(2) subseq_skip [of "[]" m ms] by simp
qed (use export_invD(2) [OF assms(1)] in simp_all)

text \<open>The final \<^verbatim>\<open>close\<close>: what had no header stays without one.\<close>

lemma export_inv_close:
  assumes "export_inv w s" "ag_main s = MClose"
  shows "export_inv w ((close_dump s)\<lparr>ag_main := MUnflag\<rparr>)" (is "export_inv w ?t")
proof (rule export_inv_step [OF assms(1)])
  fix p ns assume h: "holds w s p ns" "subseq (ns @ unwritten (ag_main s)) (ag_collected s)"
  have "holds w ?t p ns"
    using h(1) assms(2) by (auto simp: holds_def header_due_def split: if_splits)
  with h(2) show "\<exists>ns'. holds w ?t p ns' \<and> subseq (ns' @ unwritten (ag_main ?t)) (ag_collected ?t)"
    by (auto simp: assms(2))
qed simp_all

lemma export_inv_flag: "export_inv w (set_exporting b s) = export_inv w s"
  by (simp add: export_inv_def holds_def header_due_def set_exporting_def)

lemma export_inv_main:
  assumes "main_step w e order s = Some t" "export_inv w s"
  shows "export_inv w t"
proof (cases "ag_main s")
  case (MCollect i)
  with assms export_inv_collect show ?thesis by (auto simp: main_step_def)
next
  case (MLines i ms)
  show ?thesis
  proof (cases ms)
    case (Cons m ms')
    with MLines assms export_inv_line [OF assms(2)] show ?thesis by (auto simp: main_step_def)
  qed (use MLines assms in \<open>auto simp: main_step_def intro: export_inv_frame\<close>)
next
  case MClose
  with assms export_inv_close show ?thesis by (auto simp: main_step_def)
next
  case MInit
  with assms export_inv_fail [OF assms(2)] show ?thesis
    by (auto simp: main_step_def intro: export_inv_frame split: sum.splits)
next
  case MListen
  with assms export_inv_fail [OF assms(2)] show ?thesis
    by (auto simp: main_step_def intro: export_inv_frame split: sum.splits)
next
  case MDash
  with assms export_inv_fail [OF assms(2)] show ?thesis
    by (auto simp: main_step_def main_dash_def intro: export_inv_frame split: sum.splits if_splits)
next
  case MUnflag
  with assms export_inv_flag [of w False s] show ?thesis
    by (auto simp: main_step_def intro: export_inv_frame [of w "set_exporting False s"])
qed (use assms in \<open>auto simp: main_step_def main_exit_def intro: export_inv_frame split: prod.splits if_splits\<close>)

subsection \<open>The command thread\<close>

lemma export_inv_open:
  assumes "export_inv w s" "ag_cmd s = COpen d"
  shows "export_inv w ((open_dump env d s)\<lparr>ag_cmd := CHeader d\<rparr>)" (is "export_inv w ?t")
proof -
  let ?p = "d @ ''/dump_'' @ clock_text env @ ''.csv''"
  note i = export_invD [OF assms(1)]
  show ?thesis
  proof (cases "dump_file (sch_exporter (ag_sched s)) = None \<and> can_open env ?p")
    case False
    then have t: "?t = s\<lparr>ag_good := False, ag_cmd := CHeader d\<rparr>" by (auto simp: open_dump_def Let_def)
    have "holds w ?t p ns" if "holds w s p ns" for p ns
      by (rule holds_mono [OF that]) (simp_all add: t header_due_def assms(2))
    then show ?thesis by (intro export_inv_step [OF assms(1)]) (use i(1,2) in \<open>auto simp: t\<close>)
  next
    case True
    then have t: "?t = s\<lparr>ag_sched := (ag_sched s)\<lparr>sch_exporter := (sch_exporter (ag_sched s))\<lparr>dump_file := Some ?p\<rparr>,
        sch_files := (sch_files (ag_sched s))(?p \<mapsto> [])\<rparr>, ag_good := True, ag_exports := insert ?p (ag_exports s),
        ag_cmd := CHeader d\<rparr>" by (simp add: open_dump_def Let_def)
    have new: "holds w ?t ?p []" unfolding t by (simp add: holds_def header_due_def)
    have old: "holds w ?t q ms" if "q \<noteq> ?p" "holds w s q ms" for q ms
      by (rule holds_mono [OF that(2)]) (use that(1) assms(2) True in \<open>auto simp: t header_due_def\<close>)
    have "suffix ''.csv'' ?p" by (metis append_assoc suffixI)
    moreover have "subseq ([] @ unwritten (ag_main ?t)) (ag_collected ?t)" using i(1) by (simp add: t)
    moreover have "ag_exports ?t = insert ?p (ag_exports s)" "dump_file (sch_exporter (ag_sched ?t)) = Some ?p"
      "unwritten (ag_main ?t) = unwritten (ag_main s)" "ag_collected ?t = ag_collected s" by (simp_all add: t)
    ultimately show ?thesis using i(1,3,4) new old unfolding export_inv_def by (metis insert_iff option.inject)
  qed
qed

lemma export_inv_header:
  assumes "export_inv w s" "ag_cmd s = CHeader d"
  shows "export_inv w ((write_dump dump_header s)\<lparr>ag_cmd := CFlag d\<rparr>)" (is "export_inv w ?t")
proof (rule export_inv_step [OF assms(1)])
  fix p ns assume h: "holds w s p ns" "subseq (ns @ unwritten (ag_main s)) (ag_collected s)"
  have "holds w ?t p ns"
  proof (cases "header_due s p")
    case True
    with h(1) have "sch_files (ag_sched ?t) p = Some (lines_of w ns @ dump_header @ lines_of w [])"
      by (simp add: holds_def header_due_def write_dump_def append_file_def)
    moreover have "\<not> header_due ?t p" by (simp add: header_due_def)
    ultimately show ?thesis unfolding holds_def by (metis append_Nil2)
  next
    case False
    show ?thesis
      by (rule holds_mono [OF h(1)])
        (use False assms(2) in \<open>auto simp: header_due_def write_dump_def append_file_def split: option.split\<close>)
  qed
  with h(2) show "\<exists>ns'. holds w ?t p ns' \<and> subseq (ns' @ unwritten (ag_main ?t)) (ag_collected ?t)" by auto
qed (use export_invD(1,2) [OF assms(1)] in simp_all)

lemma export_inv_end:
  assumes "export_inv w s" "ag_cmd s = CClose"
  shows "export_inv w ((close_dump s)\<lparr>ag_cmd := CUnflag\<rparr>)" (is "export_inv w ?t")
proof (rule export_inv_step [OF assms(1)])
  fix p ns assume h: "holds w s p ns" "subseq (ns @ unwritten (ag_main s)) (ag_collected s)"
  have "holds w ?t p ns" by (rule holds_mono [OF h(1)]) (simp_all add: header_due_def assms(2))
  with h(2) show "\<exists>ns'. holds w ?t p ns' \<and> subseq (ns' @ unwritten (ag_main ?t)) (ag_collected ?t)" by auto
qed (use export_invD(1) [OF assms(1)] in simp_all)

lemma after_start_pc [simp]: "after_start p \<noteq> CHeader q"
  by (simp add: after_start_def)

lemma command_begin_pc: "command_begin m = Inr pc \<Longrightarrow> pc \<noteq> CHeader q"
  by (auto simp: command_begin_def Let_def split: if_splits)

lemma export_inv_export:
  assumes "export_inv w s"
  shows "export_inv w (command_export env s)"
proof (cases "ag_cmd s")
  case (CFlag d)
  with export_inv_flag [of w True s] assms show ?thesis
    by (auto simp: command_export_def intro: export_inv_frame [of w "set_exporting True s"])
next
  case CUnflag
  with export_inv_flag [of w False s] assms show ?thesis
    by (auto simp: command_export_def intro: export_inv_frame [of w "set_exporting False s"])
next
  case (CStart d)
  with assms show ?thesis by (auto simp: command_export_def intro: export_inv_frame)
qed (use assms export_inv_open export_inv_header export_inv_end in \<open>simp_all add: command_export_def\<close>)

lemma export_inv_command:
  assumes "command_step w' env s = Some t" "export_inv w s"
  shows "export_inv w t"
proof -
  have c: "export_inv w (crash err s)" for err using assms(2) by (auto intro: export_inv_frame)
  have r: "export_inv w (command_receive s)" if "ag_cmd s = CDrain"
    using assms(2) that
    by (auto simp: command_receive_def Let_def dest: command_begin_pc split: list.split sum.split
        intro!: export_inv_frame [OF assms(2)])
  show ?thesis
    using assms(1) c r export_inv_export [OF assms(2)]
    by (auto simp: command_step_def arm_notify_def split: if_splits option.splits intro: export_inv_frame [OF assms(2)])
qed

subsection \<open>All threads\<close>

text \<open>A control message writes the id file and nothing else.\<close>

lemma OnMessage_files:
  "OnMessage write_tmp m (cl, fs) = Inr (cl', fs') \<Longrightarrow> p \<noteq> kUUIDFile \<Longrightarrow> p \<noteq> kUUIDTmp \<Longrightarrow> fs' p = fs p"
  by (auto simp: OnMessage_def SaveUUID_def rename_file_def res_map_eq_Inr Let_def
      split: MessageType.splits if_splits option.splits)

lemma csv_not_uuid: "suffix ''.csv'' p \<Longrightarrow> p \<noteq> kUUIDFile \<and> p \<noteq> kUUIDTmp"
  by (auto simp: suffix_def kUUIDFile_def kUUIDTmp_def)

lemma export_inv_control:
  assumes "agent_act w' a s = Some t" "is_control a" "export_inv w s"
  shows "export_inv w t"
proof -
  note f = control_frame [OF assms(1,2)]
  have "sch_files (ag_sched t) p = sch_files (ag_sched s) p" if "suffix ''.csv'' p" for p
    using assms(1,2) csv_not_uuid [OF that]
    by (auto simp: is_control_def control_read_def control_write_done_def control_ended_def ConnectReactor_OnReadDone_def
        res_map_eq_Inr dest: OnMessage_files split: act.splits if_splits sum.splits option.splits)
  then have "\<forall>p \<in> ag_exports s. sch_files (ag_sched t) p = sch_files (ag_sched s) p"
    using export_invD(3) [OF assms(3)] by blast
  with f show ?thesis by (intro export_inv_frame [OF assms(3)]) auto
qed

lemma export_inv_act:
  assumes "agent_act w a s = Some t" "one_thread s" "export_inv w s"
  shows "export_inv w t"
proof (cases a rule: agent_act_groups)
  case (main e order)
  with assms export_inv_main show ?thesis by simp
next
  case (send m)
  with assms obtain k fires where k: "kq_send m (ag_k s) = (k, fires, True)"
    "t = s\<lparr>ag_k := k, ag_cmd := if fires then CDrain else ag_cmd s, ag_sent := ag_sent s @ [m]\<rparr>"
    by (auto elim: command_sentE)
  then have "fires \<longrightarrow> ag_cmd s = CIdle" using kq_send_accepted [OF k(1)] assms(2) by (auto simp: one_thread_def)
  with k(2) show ?thesis by (auto intro: export_inv_frame [OF assms(3)])
next
  case (cmd env)
  with assms export_inv_command show ?thesis by simp
next
  case cmd_error
  with assms show ?thesis by (auto elim!: command_errorE intro: export_inv_frame [OF assms(3)])
next
  case grpc
  with assms grpc_step_frame [of w s t] show ?thesis by (intro export_inv_frame [OF assms(3)]) auto
next
  case control
  with assms export_inv_control show ?thesis by blast
next
  case stream
  with stream_frame [OF assms(1)] show ?thesis by (intro export_inv_frame [OF assms(3)]) auto
qed (use assms in \<open>auto intro: export_inv_frame [OF assms(3)]\<close>)

lemma agent_start_exporter:
  assumes "agent_start env entries files fs = Inr (sch, q, fs')"
  shows "dump_file (sch_exporter sch) = None \<and> \<not> is_exporting (sch_exporter sch)"
proof -
  obtain fs1 r where r: "MessageQueue_new (ae_mq_denied env) kCommandQueue Receiver default_Options fs = (fs1, r)" by fastforce
  with assms show ?thesis
    by (cases r) (auto simp: agent_start_def res_bind_eq_Inr Scheduler_new_def Exporter_new_def)
qed

lemma agent_exports: "agent_reachable w env s \<Longrightarrow> export_inv w s"
proof (induction rule: agent_invariant)
  case (start entries files fs sch q fs' k)
  from agent_start_exporter [OF start(1)] show ?case by (simp add: export_inv_def agent_init_def)
next
  case (act s a t)
  with export_inv_act agent_commands [OF act(1)] show ?case by blast
qed

section \<open>Undisturbed threads\<close>

lemma agent_run_simps [simp]:
  "agent_run w [] s = s" "agent_run w (a # acts) s = agent_run w acts (agent_do w a s)"
  "agent_run w (acts @ acts') s = agent_run w acts' (agent_run w acts s)"
  by (simp_all add: agent_run_def)

lemma agent_do_Some: "ag_status s = Running \<Longrightarrow> agent_act w a s = Some t \<Longrightarrow> agent_do w a s = t"
  by (simp add: agent_do_def)

text \<open>The stream and the file agree: there is an error bit exactly when no file is open.\<close>

definition stream_ok :: "'d agent \<Rightarrow> bool" where
  "stream_ok s \<longleftrightarrow> (IsActive (sch_exporter (ag_sched s)) \<longrightarrow> ag_good s = (dump_file (sch_exporter (ag_sched s)) \<noteq> None))"

lemma write_dump_ok:
  "ag_good s = (dump_file (sch_exporter (ag_sched s)) \<noteq> None) \<Longrightarrow>
   write_dump text s = s\<lparr>ag_sched := (ag_sched s)\<lparr>sch_files :=
     append_file (dump_file (sch_exporter (ag_sched s))) text (sch_files (ag_sched s))\<rparr>\<rparr>"
  by (auto simp: write_dump_def append_file_def)

lemma lines_run:
  assumes "ag_status s = Running" "ag_main s = MLines i ms" "ag_good s = (dump_file (sch_exporter (ag_sched s)) \<noteq> None)"
  shows "agent_run w (replicate (Suc (length ms)) (Main e order)) s = s\<lparr>ag_main := MCollect (Suc i),
    ag_sched := (ag_sched s)\<lparr>sch_files := fold (\<lambda>m. append_file (dump_file (sch_exporter (ag_sched s)))
      (dump_line (w_type_name w) (w_double w) m)) ms (sch_files (ag_sched s))\<rparr>\<rparr>"
  using assms
proof (induction ms arbitrary: s)
  case Nil
  then show ?case by (simp add: agent_do_def main_step_def)
next
  case (Cons m ms)
  let ?s = "s\<lparr>ag_main := MLines i ms, ag_sched := (ag_sched s)\<lparr>sch_files :=
     append_file (dump_file (sch_exporter (ag_sched s))) (dump_line (w_type_name w) (w_double w) m) (sch_files (ag_sched s))\<rparr>\<rparr>"
  have "agent_do w (Main e order) s = ?s"
    using Cons.prems by (simp add: agent_do_def main_step_def write_dump_ok)
  with Cons.IH [of ?s] Cons.prems show ?case by simp
qed

lemma collect_run:
  assumes "ag_status s = Running" "ag_main s = MCollect i" "stream_ok s"
    "collect_one (w_type_name w) (w_double w) i e (ag_sched s) = Inr (sch, ms)"
  shows "\<exists>n. agent_run w (replicate n (Main e order)) s =
    s\<lparr>ag_main := MCollect (Suc i), ag_sched := sch, ag_collected := ag_collected s @ ms\<rparr>"
proof -
  from assms(4) obtain c buffer where c: "i < length (sch_collectors (ag_sched s))"
    "Collector_Collect e (sch_collectors (ag_sched s) ! i) = Inr (c, ms)" "AddMetrics ms (sch_buffer (ag_sched s)) = Inr buffer"
    "sch = (ag_sched s)\<lparr>sch_collectors := (sch_collectors (ag_sched s))[i := c], sch_buffer := buffer,
       sch_files := Dump (w_type_name w) (w_double w) ms (sch_exporter (ag_sched s)) (sch_files (ag_sched s))\<rparr>"
    by (rule collect_one_cases)
  let ?s = "s\<lparr>ag_main := MDump i ms, ag_collected := ag_collected s @ ms,
    ag_sched := (ag_sched s)\<lparr>sch_collectors := (sch_collectors (ag_sched s))[i := c], sch_buffer := buffer\<rparr>\<rparr>"
  have one: "agent_run w [Main e order] s = ?s"
    using assms(1,2) c(1-3) by (simp add: agent_do_def main_step_def main_collect_def Let_def)
  show ?thesis
  proof (cases "IsActive (sch_exporter (ag_sched s))")
    case False
    then have "agent_run w [Main e order, Main e order] s =
        s\<lparr>ag_main := MCollect (Suc i), ag_sched := sch, ag_collected := ag_collected s @ ms\<rparr>"
      using one assms(1) c(4) by (simp add: agent_do_def main_step_def Dump_def)
    then show ?thesis by (intro exI [of _ 2]) (simp add: numeral_2_eq_2)
  next
    case True
    let ?s2 = "?s\<lparr>ag_main := MLines i ms\<rparr>"
    have "agent_run w [Main e order, Main e order] s = ?s2"
      using one assms(1) True by (simp add: agent_do_def main_step_def)
    moreover have "agent_run w (replicate (Suc (length ms)) (Main e order)) ?s2 =
        s\<lparr>ag_main := MCollect (Suc i), ag_sched := sch, ag_collected := ag_collected s @ ms\<rparr>"
      using lines_run [of ?s2 i ms w e order] assms(1,3) True c(4) by (simp add: stream_ok_def Dump_def del: replicate.simps)
    ultimately show ?thesis by (intro exI [of _ "2 + Suc (length ms)"]) (simp add: replicate_add numeral_2_eq_2)
  qed
qed

text \<open>Between two commands the exporter has a file open only while it exports.\<close>

definition idle_ok :: "'d agent \<Rightarrow> bool" where
  "idle_ok s \<longleftrightarrow> (\<not> is_exporting (sch_exporter (ag_sched s)) \<longrightarrow> dump_file (sch_exporter (ag_sched s)) = None)"

abbreviation set_export :: "Exporter \<Rightarrow> files \<Rightarrow> 'd agent \<Rightarrow> 'd agent" where
  "set_export e fs s \<equiv> s\<lparr>ag_sched := (ag_sched s)\<lparr>sch_exporter := e, sch_files := fs\<rparr>\<rparr>"

lemma end_run:
  assumes "ag_status s = Running" "ag_cmd s = CClose" "\<not> exporter_gone (ag_main s)"
  shows "agent_run w [Cmd env, Cmd env] s =
    (set_export (EndDump (sch_exporter (ag_sched s))) (sch_files (ag_sched s)) s)\<lparr>ag_cmd := CDrain\<rparr>"
  using assms
  by (simp add: agent_do_def command_step_def command_export_def close_dump_def set_exporting_def EndDump_def)

lemma start_run:
  assumes "ag_status s = Running" "ag_cmd s = CStart d" "\<not> exporter_gone (ag_main s)" "idle_ok s"
    "StartDump env (Some d) (sch_exporter (ag_sched s), sch_files (ag_sched s)) = (e', fs')"
  shows "\<exists>n good ex. agent_run w (replicate n (Cmd env)) s =
    (set_export e' fs' s)\<lparr>ag_cmd := after_start d, ag_good := good, ag_exports := ex\<rparr>"
proof (cases "is_exporting (sch_exporter (ag_sched s)) \<or> \<not> dir_exists env d")
  case True
  then have "e' = sch_exporter (ag_sched s)" "fs' = sch_files (ag_sched s)"
    using assms(5) by (auto simp: StartDump_def Let_def split: if_splits)
  with True assms(1-3) have "agent_run w (replicate 1 (Cmd env)) s =
      (set_export e' fs' s)\<lparr>ag_cmd := after_start d, ag_good := ag_good s, ag_exports := ag_exports s\<rparr>"
    by (simp add: agent_do_def command_step_def command_export_def)
  then show ?thesis by blast
next
  case False
  let ?p = "d @ ''/dump_'' @ clock_text env @ ''.csv''"
  have none: "dump_file (sch_exporter (ag_sched s)) = None" using False assms(4) by (simp add: idle_ok_def)
  have "agent_run w [Cmd env, Cmd env, Cmd env, Cmd env] s = (set_export e' fs' s)\<lparr>ag_cmd := after_start d,
      ag_good := can_open env ?p, ag_exports := if can_open env ?p then insert ?p (ag_exports s) else ag_exports s\<rparr>"
    using assms(1-3,5) False none
    by (cases "can_open env ?p") (auto simp: agent_do_def command_step_def command_export_def open_dump_def write_dump_def
        set_exporting_def StartDump_def append_file_def Let_def)
  then show ?thesis
    by (intro exI [of _ 4] exI [of _ "can_open env ?p"] exI [of _ "if can_open env ?p then insert ?p (ag_exports s) else ag_exports s"])
      (simp only: numeral_eq_Suc pred_numeral_simps arith_simps replicate.simps)
qed

lemma command_run:
  assumes "ag_status s = Running" "ag_cmd s = CDrain" "\<not> exporter_gone (ag_main s)" "idle_ok s"
    "kq_messages (ag_k s) = m # ms" "on_message env m (sch_exporter (ag_sched s), sch_files (ag_sched s)) = Inr (e', fs')"
  shows "\<exists>n good ex. agent_run w (replicate n (Cmd env)) s = (set_export e' fs' s)\<lparr>ag_k := (ag_k s)\<lparr>kq_messages := ms\<rparr>,
    ag_seen := ag_seen s @ [m], ag_cmd := CDrain, ag_good := good, ag_exports := ex\<rparr>"
proof -
  let ?st = "(sch_exporter (ag_sched s), sch_files (ag_sched s))"
  let ?s = "s\<lparr>ag_k := (ag_k s)\<lparr>kq_messages := ms\<rparr>, ag_seen := ag_seen s @ [m]\<rparr>"
  obtain pc where pc: "command_begin m = Inr pc"
    using assms(6) by (cases "command_begin m") (auto simp: on_message_def command_begin_def Let_def split: if_splits)
  have one: "agent_run w (replicate 1 (Cmd env)) s = ?s\<lparr>ag_cmd := pc\<rparr>"
    using assms(1,2,5) pc by (simp add: agent_do_def command_step_def command_receive_def Let_def)
  consider (none) "pc = CDrain" "(e', fs') = ?st" | (stop) "pc = CClose" "(e', fs') = (EndDump (fst ?st), snd ?st)"
    | (start) d where "pc = CStart d" "(e', fs') = (let st = StartDump env (Some d) ?st in
        if starts_with d ''dump_end'' then (EndDump (fst st), snd st) else st)"
    using pc assms(6) by (auto simp: command_begin_def on_message_def Let_def split: if_splits)
  then show ?thesis
  proof cases
    case none
    with one show ?thesis by (intro exI [of _ 1] exI [of _ "ag_good s"] exI [of _ "ag_exports s"]) simp
  next
    case stop
    have "agent_run w (replicate 3 (Cmd env)) s = agent_run w [Cmd env, Cmd env] (agent_run w (replicate 1 (Cmd env)) s)"
      by (simp add: numeral_eq_Suc)
    with stop one assms(1,3) end_run [of "?s\<lparr>ag_cmd := CClose\<rparr>" w env] show ?thesis
      by (intro exI [of _ 3] exI [of _ "ag_good s"] exI [of _ "ag_exports s"]) simp
  next
    case start
    let ?s1 = "?s\<lparr>ag_cmd := CStart d\<rparr>"
    obtain e1 fs1 where st: "StartDump env (Some d) ?st = (e1, fs1)" by fastforce
    obtain n good ex where n: "agent_run w (replicate n (Cmd env)) ?s1 =
        (set_export e1 fs1 ?s1)\<lparr>ag_cmd := after_start d, ag_good := good, ag_exports := ex\<rparr>"
      using start_run [of ?s1 d env e1 fs1 w] assms(1,3,4) st by (auto simp: idle_ok_def)
    show ?thesis
    proof (cases "starts_with d ''dump_end''")
      case False
      with one n st start show ?thesis
        by (intro exI [of _ "1 + n"] exI [of _ good] exI [of _ ex]) (simp add: replicate_add after_start_def)
    next
      case True
      have "agent_run w (replicate (1 + n + 2) (Cmd env)) s =
          agent_run w [Cmd env, Cmd env] (agent_run w (replicate n (Cmd env)) (agent_run w (replicate 1 (Cmd env)) s))"
        by (simp only: replicate_add agent_run_simps(3)) (simp add: numeral_2_eq_2)
      with True one n st start assms(1,3)
        end_run [of "(set_export e1 fs1 ?s1)\<lparr>ag_cmd := CClose, ag_good := good, ag_exports := ex\<rparr>" w env]
      show ?thesis by (intro exI [of _ "1 + n + 2"] exI [of _ good] exI [of _ ex]) (simp add: after_start_def)
    qed
  qed
qed

section \<open>A small export\<close>

definition later_env :: export_env where
  "later_env = example_env\<lparr>clock_text := ''t1''\<rparr>"

abbreviation start_message :: string where
  "start_message \<equiv> ''dump_start;/tmp''"

lemma start_message_begin: "command_begin start_message = Inr (CStart ''/tmp'')"
  by (simp add: command_begin_def starts_with_def)

lemma end_message_begin: "command_begin ''dump_end'' = Inr CClose"
  by (simp add: command_begin_def starts_with_def)

text \<open>An export is started, then the main thread collects and is about to write its line.\<close>

definition example_exporting :: "nat agent \<Rightarrow> nat agent" where
  "example_exporting s = s\<lparr>ag_k := (ag_k s)\<lparr>kq_notify := False\<rparr>, ag_sent := [start_message], ag_seen := [start_message],
     ag_cmd := CDrain, ag_exports := {''/tmp/dump_t0.csv''}, ag_sched := (ag_sched s)\<lparr>sch_exporter :=
       idle_exporter\<lparr>dump_file := Some ''/tmp/dump_t0.csv'', is_exporting := True\<rparr>, sch_files := [''/tmp/dump_t0.csv'' \<mapsto> dump_header]\<rparr>\<rparr>"

lemma example_start_export:
  assumes "example_listening s"
  shows "agent_run w (Send start_message # replicate 5 (Cmd example_env)) s = example_exporting s"
  using assms
  by (simp add: example_listening_def example_exporting_def agent_do_def command_sent_def kq_send_def numeral_eq_Suc
      command_step_def command_receive_def start_message_begin command_export_def open_dump_def write_dump_def
      set_exporting_def example_env_def idle_exporter_def append_file_def after_start_def starts_with_def Let_def)

lemma example_exporting_collects:
  assumes "example_listening s" "AddMetrics [example_metric] (sch_buffer example_scheduler) = Inr mb"
  shows "agent_run w [step_main, step_main, step_main] (example_exporting s) =
    (example_exporting s)\<lparr>ag_main := MLines 0 [example_metric], ag_collected := [example_metric],
      ag_sched := (ag_sched (example_exporting s))\<lparr>sch_buffer := mb\<rparr>\<rparr>"
  using assms
  by (simp add: example_listening_def example_exporting_def agent_do_def main_step_def main_collect_def example_collect
      IsActive_def Let_def del: Collector_Collect.simps)

section \<open>Properties\<close>



text \<open>
  C6.  The threads of the agent refine the scheduler: a collection that the main thread carries out
  without being disturbed ends in the state \<open>collect_one\<close> gives, and a command the command thread
  handles undisturbed has the effect of \<open>on_message\<close>.  (The hypotheses on the exporter hold whenever
  no command is half done.)
\<close>

theorem undisturbed_steps_are_atomic:
  assumes "ag_status s = Running"
  shows "(ag_main s = MCollect i \<longrightarrow> stream_ok s \<longrightarrow>
      collect_one (w_type_name w) (w_double w) i e (ag_sched s) = Inr (sch, ms) \<longrightarrow>
      (\<exists>n. agent_run w (replicate n (Main e order)) s =
         s\<lparr>ag_main := MCollect (Suc i), ag_sched := sch, ag_collected := ag_collected s @ ms\<rparr>)) \<and>
    (ag_cmd s = CDrain \<longrightarrow> idle_ok s \<longrightarrow> \<not> exporter_gone (ag_main s) \<longrightarrow> kq_messages (ag_k s) = m # rest \<longrightarrow>
      on_message env m (sch_exporter (ag_sched s), sch_files (ag_sched s)) = Inr (e', fs') \<longrightarrow>
      (\<exists>n. let t = agent_run w (replicate n (Cmd env)) s in
         ag_sched t = (ag_sched s)\<lparr>sch_exporter := e', sch_files := fs'\<rparr> \<and> ag_cmd t = CDrain \<and> ag_main t = ag_main s \<and>
         kq_messages (ag_k t) = rest \<and> ag_seen t = ag_seen s @ [m]))"
proof (intro conjI impI)
  assume "ag_cmd s = CDrain" "idle_ok s" "\<not> exporter_gone (ag_main s)" "kq_messages (ag_k s) = m # rest"
    "on_message env m (sch_exporter (ag_sched s), sch_files (ag_sched s)) = Inr (e', fs')"
  with command_run [OF assms, where env = env and w = w] obtain n good ex where
    "agent_run w (replicate n (Cmd env)) s = (set_export e' fs' s)\<lparr>ag_k := (ag_k s)\<lparr>kq_messages := rest\<rparr>,
      ag_seen := ag_seen s @ [m], ag_cmd := CDrain, ag_good := good, ag_exports := ex\<rparr>" by blast
  then show "\<exists>n. let t = agent_run w (replicate n (Cmd env)) s in
      ag_sched t = (ag_sched s)\<lparr>sch_exporter := e', sch_files := fs'\<rparr> \<and> ag_cmd t = CDrain \<and> ag_main t = ag_main s \<and>
      kq_messages (ag_k t) = rest \<and> ag_seen t = ag_seen s @ [m]" by (intro exI [of _ n]) (simp add: Let_def)
qed (rule collect_run [OF assms])

theorem undisturbed_steps_are_atomic_witness:
  "\<exists>s sch. ag_status s = Running \<and> collect_one (w_type_name example_world) (w_double example_world) 0 example_sensors (ag_sched s) =
      Inr (sch, [example_metric]) \<and>
    (\<exists>n. ag_main (agent_run example_world (replicate n step_main) s) = MCollect 1 \<and>
      ag_sched (agent_run example_world (replicate n step_main) s) = sch) \<and>
    (\<exists>n. sch_files (ag_sched (agent_run example_world (replicate n (Cmd example_env)) s)) ''/tmp/dump_t0.csv'' = Some dump_header)"
proof -
  obtain s0 where s0: "example_listening s0" using example_listening_reachable by blast
  obtain mb where mb: "AddMetrics [example_metric] (sch_buffer example_scheduler) = Inr mb" using example_AddMetrics by blast
  define s where "s = s0\<lparr>ag_main := MCollect 0, ag_cmd := CDrain, ag_k := (ag_k s0)\<lparr>kq_messages := [start_message]\<rparr>\<rparr>"
  note l = s0 [unfolded example_listening_def]
  have s: "ag_status s = Running" "ag_main s = MCollect 0" "ag_cmd s = CDrain" "kq_messages (ag_k s) = [start_message]"
    "ag_sched s = ag_sched s0" using l by (simp_all add: s_def)
  have ok: "stream_ok s" "idle_ok s" "\<not> exporter_gone (ag_main s)"
    using l by (simp_all add: s stream_ok_def idle_ok_def idle_exporter_def IsActive_def)
  obtain sch where c: "collect_one (w_type_name example_world) (w_double example_world) 0 example_sensors (ag_sched s) =
      Inr (sch, [example_metric])"
    using l mb by (auto simp: s collect_one_def example_collect simp del: Collector_Collect.simps)
  obtain e' fs' where m: "on_message example_env start_message (sch_exporter (ag_sched s), sch_files (ag_sched s)) = Inr (e', fs')"
    "fs' ''/tmp/dump_t0.csv'' = Some dump_header"
    using l by (simp add: s on_message_def starts_with_def StartDump_def example_env_def idle_exporter_def append_file_def Let_def)
  note both = undisturbed_steps_are_atomic [OF s(1), of 0 example_world example_sensors sch "[example_metric]" "[]" start_message
      "[]" example_env e' fs']
  obtain n where n: "agent_run example_world (replicate n step_main) s = s\<lparr>ag_main := MCollect (Suc 0), ag_sched := sch,
      ag_collected := ag_collected s @ [example_metric]\<rparr>" using both s(2) ok(1) c by blast
  obtain n' where n': "ag_sched (agent_run example_world (replicate n' (Cmd example_env)) s) =
      (ag_sched s)\<lparr>sch_exporter := e', sch_files := fs'\<rparr>"
    using both [THEN conjunct2] s(3,4) ok(2,3) m(1) unfolding Let_def by blast
  show ?thesis
    by (rule exI [of _ s], rule exI [of _ sch], intro conjI exI [of _ n] exI [of _ n']) (use s(1) c n n' m(2) in simp_all)
qed

text \<open>
  C40.  Without a lock the header need not come first: when an export is stopped and the next one
  started while the main thread is between the test of \<^verbatim>\<open>is_exporting\<close> and the output, the line
  goes to the new file before its header.
\<close>

theorem restart_puts_lines_before_header:
  "\<exists>s. agent_reachable example_world example_agent s \<and> ag_status s = Running \<and>
     ag_seen s = [start_message, ''dump_end'', start_message] \<and>
     sch_files (ag_sched s) = [''/tmp/dump_t0.csv'' \<mapsto> dump_header,
       ''/tmp/dump_t1.csv'' \<mapsto> dump_line (w_type_name example_world) (w_double example_world) example_metric @ dump_header]"
proof -
  obtain s where s: "example_listening s" "agent_reachable example_world example_agent s"
    using example_listening_reachable by blast
  obtain mb where mb: "AddMetrics [example_metric] (sch_buffer example_scheduler) = Inr mb" using example_AddMetrics by blast
  define u where "u = agent_run example_world [step_main, step_main, step_main]
    (agent_run example_world (Send start_message # replicate 5 (Cmd example_env)) s)"
  have u: "u = (example_exporting s)\<lparr>ag_main := MLines 0 [example_metric], ag_collected := [example_metric],
      ag_sched := (ag_sched (example_exporting s))\<lparr>sch_buffer := mb\<rparr>\<rparr>"
    unfolding u_def example_start_export [OF s(1)] by (rule example_exporting_collects [OF s(1) mb])
  define t where "t = agent_run example_world ([Send ''dump_end'', Cmd later_env, Cmd later_env, Cmd later_env, Send start_message,
    Cmd later_env, Cmd later_env, Cmd later_env] @ [step_main, Cmd later_env]) u"
  have "ag_status t = Running \<and> ag_seen t = [start_message, ''dump_end'', start_message] \<and>
      sch_files (ag_sched t) = [''/tmp/dump_t0.csv'' \<mapsto> dump_header,
        ''/tmp/dump_t1.csv'' \<mapsto> dump_line (w_type_name example_world) (w_double example_world) example_metric @ dump_header]"
    using s(1) unfolding t_def u
    by (simp add: example_listening_def example_exporting_def agent_do_def command_sent_def kq_send_def main_step_def
        command_step_def command_receive_def start_message_begin end_message_begin command_export_def open_dump_def
        write_dump_def set_exporting_def close_dump_def later_env_def example_env_def idle_exporter_def append_file_def Let_def)
  moreover have "agent_reachable example_world example_agent t" unfolding t_def u_def by (intro agent_reachable_run s(2))
  ultimately show ?thesis by blast
qed

end
