(* ===== verification/Progress.thy ===== *)
theory Progress
  imports Main
begin

text \<open>
  Progress in infinite runs.  A run is a sequence of states \<open>st\<close>; what must come sooner or later is
  shown by a rank that no step increases and some later step decreases.
\<close>

text \<open>
  While \<open>P\<close> holds and \<open>Q\<close> does not, every step keeps \<open>P\<close> and does not increase the rank, and for each
  rank some step that must come sooner or later decreases it.  Then \<open>Q\<close> comes.
\<close>

lemma eventually_by_rank:
  fixes st :: "nat \<Rightarrow> 's" and f :: "'s \<Rightarrow> 'r"
  assumes wf: "wf r" "trans r"
    and keep: "\<And>k. P (st k) \<Longrightarrow> \<not> Q (st k) \<Longrightarrow> \<not> Q (st (Suc k)) \<Longrightarrow>
      P (st (Suc k)) \<and> (f (st (Suc k)) = f (st k) \<or> (f (st (Suc k)), f (st k)) \<in> r)"
    and helpful: "\<And>k. P (st k) \<Longrightarrow> \<not> Q (st k) \<Longrightarrow> \<exists>j \<ge> k. P (st j) \<longrightarrow> f (st j) = f (st k) \<longrightarrow>
      Q (st j) \<or> Q (st (Suc j)) \<or> (f (st (Suc j)), f (st k)) \<in> r"
  shows "P (st i) \<Longrightarrow> \<exists>j \<ge> i. Q (st j)"
proof (induction "f (st i)" arbitrary: i rule: wf_induct_rule [OF wf(1)])
  case (1 i)
  show ?case
  proof (rule ccontr)
    assume no: "\<not> (\<exists>j \<ge> i. Q (st j))"
    have go: "P (st (i + n)) \<and> (f (st (i + n)) = f (st i) \<or> (f (st (i + n)), f (st i)) \<in> r)" for n
    proof (induction n)
      case (Suc n)
      have "\<not> Q (st (i + n))" "\<not> Q (st (Suc (i + n)))" using no by simp_all
      from keep [OF _ this] Suc wf(2) show ?case by (auto dest: transD)
    qed (simp add: 1(2))
    obtain j where j: "i \<le> j" "P (st j) \<longrightarrow> f (st j) = f (st i) \<longrightarrow> Q (st j) \<or> Q (st (Suc j)) \<or> (f (st (Suc j)), f (st i)) \<in> r"
      using helpful [OF 1(2)] no by blast
    have "\<exists>k \<ge> i. P (st k) \<and> (f (st k), f (st i)) \<in> r"
    proof (cases "f (st j) = f (st i)")
      case True
      with j no go [of "j - i"] go [of "Suc j - i"] show ?thesis
        by (intro exI [of _ "Suc j"]) (auto simp: Suc_diff_le)
    next
      case False
      with j(1) go [of "j - i"] show ?thesis by (intro exI [of _ j]) simp
    qed
    then obtain k where "i \<le> k" "P (st k)" "(f (st k), f (st i)) \<in> r" by blast
    with 1(1) no show False by (meson order_trans)
  qed
qed

text \<open>What holds until \<open>A\<close> happens still holds when it happens.\<close>

lemma until_next:
  assumes "P i" "\<exists>j \<ge> i. A j" "\<And>j. P j \<Longrightarrow> \<not> A j \<Longrightarrow> P (Suc j)"
  shows "\<exists>j \<ge> i. A j \<and> P j"
proof -
  obtain j where j: "i \<le> j" "A j" "\<forall>m. i \<le> m \<longrightarrow> m < j \<longrightarrow> \<not> A m"
    using assms(2) exists_least_iff [of "\<lambda>j. i \<le> j \<and> A j"] by auto
  have "i + n \<le> j \<Longrightarrow> P (i + n)" for n
  proof (induction n)
    case (Suc n)
    then show ?case using assms(3) [of "i + n"] j(3) by simp
  qed (simp add: assms(1))
  from this [of "j - i"] j(1,2) show ?thesis by auto
qed

text \<open>Pairs of numbers, the first one more significant.\<close>

abbreviation rank_less :: "((nat \<times> nat) \<times> nat \<times> nat) set" where
  "rank_less \<equiv> less_than <*lex*> less_than"

end
