(* ===== verification/Agent_Shutdown.thy ===== *)
theory Agent_Shutdown
  imports Agent_Delivery Progress
begin

text \<open>
  The end of the agent: what a signal leads to, what the process leaves behind, and what goes wrong
  when the threads and the destructors do not wait for each other.

  A schedule is an infinite sequence of actions; what cannot move when it is its turn leaves the
  state as it is.  Fairness says that the threads of the agent get their turn again and again, and
  that gRPC answers \<^verbatim>\<open>TryCancel\<close> with \<^verbatim>\<open>OnDone\<close>, as it documents.
\<close>

section \<open>Schedules\<close>

definition run_to :: "world \<Rightarrow> (nat \<Rightarrow> 'd act) \<Rightarrow> 'd agent \<Rightarrow> nat \<Rightarrow> 'd agent" where
  "run_to w acts s n = agent_run w (map acts [0..<n]) s"

lemma run_to_simps [simp]: "run_to w acts s 0 = s" "run_to w acts s (Suc n) = agent_do w (acts n) (run_to w acts s n)"
  by (simp_all add: run_to_def agent_run_def)

lemma run_to_reachable: "agent_reachable w env s \<Longrightarrow> agent_reachable w env (run_to w acts s n)"
  unfolding run_to_def by (rule agent_reachable_run)

definition ended :: "'d agent \<Rightarrow> bool" where
  "ended s \<longleftrightarrow> ag_status s \<noteq> Running"

text \<open>Once the signal has come it stays.\<close>

lemma agent_act_running: "agent_act w a s = Some t \<Longrightarrow> \<not> g_running s \<Longrightarrow> \<not> g_running t"
  by (cases a rule: agent_act_groups)
    (auto dest: main_step_frame command_step_frame grpc_step_frame control_frame stream_frame
      elim!: command_sentE command_errorE simp: on_signal_def)

lemma agent_do_running: "\<not> g_running s \<Longrightarrow> \<not> g_running (agent_do w a s)"
  by (rule agent_do_cases) (auto dest: agent_act_running)

section \<open>The gRPC thread comes to its end\<close>

lemma EnqueueWrite_done [simp]: "cr_done (EnqueueWrite m cr) = cr_done cr"
  by (simp add: EnqueueWrite_def ConnectReactor_Write_def cr_push_def)

lemma reply_control:
  "reply t p cl = Inr cl' \<Longrightarrow> \<exists>cr cr'. cl_connect_reactor cl = Some cr \<and> cl_connect_reactor cl' = Some cr' \<and> cr_done cr' = cr_done cr"
  by (auto simp: reply_def split: option.splits)

lemma OnMessage_control:
  assumes "OnMessage write_tmp m (cl, fs) = Inr (cl', fs')"
  shows "map_option cr_done (cl_connect_reactor cl') = map_option cr_done (cl_connect_reactor cl)"
  using assms
  by (auto simp: OnMessage_def SaveUUID_def SendData_def StreamData_def res_map_eq_Inr Let_def
      split: MessageType.splits if_splits dest!: reply_control)

lemma control_write_client:
  assumes "control_write_done s = Some t"
  shows "map_option cr_done (cl_connect_reactor (ag_client t)) = map_option cr_done (cl_connect_reactor (ag_client s))"
    "cl_stream_data_reactor (ag_client t) = cl_stream_data_reactor (ag_client s)"
  using assms
  by (auto simp: control_write_done_def ConnectReactor_OnWriteDone_def ConnectReactor_Write_def cr_pop_def res_map_eq_Inr
      split: option.splits if_splits sum.splits list.splits)

text \<open>What a callback leaves of the client: whether the control stream is done is changed by \<^verbatim>\<open>OnDone\<close> only.\<close>

definition client_view :: "'d agent \<Rightarrow> bool option \<times> bool" where
  "client_view s = (map_option cr_done (cl_connect_reactor (ag_client s)), cl_stream_data_reactor (ag_client s) \<noteq> None)"

lemma control_done_view: "control_done s = (fst (client_view s) = Some True)"
  by (auto simp: control_done_def client_view_def split: option.split)

lemma stream_do_client: "cl_connect_reactor (ag_client (stream_do a s)) = cl_connect_reactor (ag_client s)"
  by (auto simp: stream_do_def put_stream_def split: sum.split)

lemma stream_do_some: "cl_stream_data_reactor (ag_client s) \<noteq> None \<Longrightarrow> cl_stream_data_reactor (ag_client (stream_do a s)) \<noteq> None"
  by (auto simp: stream_do_def put_stream_def split: sum.split)

lemma stream_client:
  assumes "agent_act w a s = Some t" "is_stream a"
  shows "client_view t = client_view s"
  using assms stream_do_some [of s]
  by (auto simp: is_stream_def poll_do_def stream_callback_def stream_ended_def client_view_def stream_do_client
      StreamMetricsReactor_OnDone_def stream_on_done_def Let_def split: act.splits if_splits option.splits)

lemma control_client:
  assumes "agent_act w a s = Some t" "is_control a"
  shows "fst (client_view t) = fst (client_view s) \<or> (\<exists>st. a = ControlDone st) \<and> fst (client_view t) = Some True"
    "snd (client_view s) \<longrightarrow> snd (client_view t)"
proof -
  have r: "map_option cr_done (cl_connect_reactor cl') = map_option cr_done (cl_connect_reactor cl) \<and>
      (cl_stream_data_reactor cl \<noteq> None \<longrightarrow> cl_stream_data_reactor cl' \<noteq> None)"
    if "OnMessage write_tmp m (cl, fs) = Inr (cl', fs')" for write_tmp m cl fs cl' fs'
    using OnMessage_control [OF that] OnMessage_stream [OF that] by auto
  have "(fst (client_view t) = fst (client_view s) \<or> (\<exists>st. a = ControlDone st) \<and> fst (client_view t) = Some True) \<and>
      (snd (client_view s) \<longrightarrow> snd (client_view t))"
  proof (cases a)
    case (ControlRead m)
    with assms(1) show ?thesis
      by (auto simp: control_read_def ConnectReactor_OnReadDone_def client_view_def res_map_eq_Inr dest!: r
          split: if_splits sum.splits)
  next
    case ControlWriteDone
    with assms(1) control_write_client [of s t] show ?thesis by (simp add: client_view_def)
  next
    case (ControlDone st)
    with assms(1) show ?thesis
      by (auto simp: control_ended_def client_view_def ConnectReactor_OnDone_def split: option.splits if_splits)
  qed (use assms(2) in \<open>simp_all add: is_control_def\<close>)
  then show "fst (client_view t) = fst (client_view s) \<or> (\<exists>st. a = ControlDone st) \<and> fst (client_view t) = Some True"
    "snd (client_view s) \<longrightarrow> snd (client_view t)" by blast+
qed

text \<open>While it waits there is a control reactor, and the polling thread is told to stop only at the end.\<close>

definition grpc_inv :: "'d agent \<Rightarrow> bool" where
  "grpc_inv s \<longleftrightarrow> (ag_grpc s = GAwait \<longrightarrow> fst (client_view s) \<noteq> None) \<and>
     (ag_grpc s \<in> {GChannel, GLoad, GConstruct, GAwait, GTear, GStop} \<longrightarrow> \<not> ag_stop s \<and> \<not> ag_poll_done s) \<and>
     (ag_grpc s \<in> {GStop, GJoinPoll} \<longrightarrow> snd (client_view s)) \<and> (ag_grpc s = GJoinPoll \<longrightarrow> ag_stop s)"

lemma grpc_inv_frame:
  "grpc_inv s \<Longrightarrow> ag_grpc t = ag_grpc s \<Longrightarrow> ag_client t = ag_client s \<Longrightarrow> ag_stop t = ag_stop s \<Longrightarrow>
   ag_poll_done t = ag_poll_done s \<Longrightarrow> grpc_inv t"
  by (simp add: grpc_inv_def client_view_def)

lemma stream_poll_done:
  "agent_act w a s = Some t \<Longrightarrow> is_stream a \<Longrightarrow> ag_poll_done t = ag_poll_done s \<or> ag_stop s \<and> ag_poll_done t"
  by (auto simp: is_stream_def poll_do_def stream_callback_def stream_ended_def stream_do_def
      split: act.splits if_splits option.splits sum.splits)

lemma grpc_inv_grpc: "grpc_step w s = Some t \<Longrightarrow> grpc_inv s \<Longrightarrow> grpc_inv t"
  by (auto simp: grpc_step_def grpc_inv_def client_view_def grpc_thread_def crash_def
      split: grpc_pc.splits if_splits sum.splits option.splits)

lemma grpc_inv_control:
  assumes "agent_act w a s = Some t" "is_control a" "grpc_inv s"
  shows "grpc_inv t"
proof -
  note c = control_client [OF assms(1,2)] and f = control_frame [OF assms(1,2)]
  have "fst (client_view s) \<noteq> None \<longrightarrow> fst (client_view t) \<noteq> None" using c(1) by auto
  with assms(3) c(2) f(3,16,17,23) show ?thesis unfolding grpc_inv_def by auto
qed

lemma grpc_inv_stream:
  assumes "agent_act w a s = Some t" "is_stream a" "grpc_inv s"
  shows "grpc_inv t"
  using assms(3) stream_client [OF assms(1,2)] stream_frame(3,14) [OF assms(1,2)] stream_poll_done [OF assms(1,2)]
  unfolding grpc_inv_def by auto

lemma grpc_inv_act:
  assumes "agent_act w a s = Some t" "grpc_inv s"
  shows "grpc_inv t"
proof (cases a rule: agent_act_groups)
  case (main e order)
  then have m: "main_step w e order s = Some t" using assms(1) by simp
  show ?thesis by (rule grpc_inv_frame [OF assms(2)]) (simp_all add: main_step_frame [OF m])
next
  case (cmd env)
  then have c: "command_step w env s = Some t" using assms(1) by simp
  show ?thesis by (rule grpc_inv_frame [OF assms(2)]) (simp_all add: command_step_frame [OF c])
next
  case grpc
  with assms grpc_inv_grpc show ?thesis by simp
next
  case control
  with assms grpc_inv_control show ?thesis by blast
next
  case stream
  with assms grpc_inv_stream show ?thesis by blast
next
  case (signal sig)
  then show ?thesis using assms(1) by (auto intro: grpc_inv_frame [OF assms(2)])
next
  case (send m)
  then show ?thesis using assms(1) by (auto elim!: command_sentE intro: grpc_inv_frame [OF assms(2)])
next
  case cmd_error
  then show ?thesis using assms(1) by (auto elim!: command_errorE intro: grpc_inv_frame [OF assms(2)])
qed

lemma agent_grpc_inv: "agent_reachable w env s \<Longrightarrow> grpc_inv s"
proof (induction rule: agent_invariant)
  case (start entries files fs sch q fs' k)
  show ?case by (simp add: grpc_inv_def agent_init_def)
qed (rule grpc_inv_act)

text \<open>How far the thread is from its end.  At 7 it waits for \<^verbatim>\<open>OnDone\<close>, at 3 for the polling thread.\<close>

definition grpc_rank :: "'d agent \<Rightarrow> nat" where
  "grpc_rank s = (case ag_grpc s of
     GChannel \<Rightarrow> 11 | GLoad \<Rightarrow> 10 | GConstruct \<Rightarrow> 9
   | GAwait \<Rightarrow> if control_done s then 6 else if ag_cancelled s then 7 else 8
   | GTear \<Rightarrow> 5 | GStop \<Rightarrow> 4 | GJoinPoll \<Rightarrow> if ag_poll_done s then 2 else 3 | GTearConnect \<Rightarrow> 1 | GDone \<Rightarrow> 0)"

lemma grpc_rank_frame:
  "ag_grpc t = ag_grpc s \<Longrightarrow> ag_client t = ag_client s \<Longrightarrow> ag_cancelled t = ag_cancelled s \<Longrightarrow>
   ag_poll_done t = ag_poll_done s \<Longrightarrow> grpc_rank t = grpc_rank s"
  by (simp add: grpc_rank_def control_done_def)

lemma grpc_rank_grpc:
  assumes "grpc_step w s = Some t" "\<not> g_running s"
  shows "grpc_rank t < grpc_rank s \<or> ended t \<or> grpc_rank s = 7 \<and> grpc_rank t = 7"
  using assms
  by (auto simp: grpc_step_def grpc_rank_def grpc_thread_def crash_def ended_def control_done_def
      split: grpc_pc.splits if_splits sum.splits option.splits)

lemma grpc_rank_mono:
  assumes "agent_act w a s = Some t" "\<not> g_running s" "\<not> ended t"
  shows "grpc_rank t \<le> grpc_rank s"
proof (cases a rule: agent_act_groups)
  case (main e order)
  then have m: "main_step w e order s = Some t" using assms(1) by simp
  show ?thesis by (rule eq_imp_le, rule grpc_rank_frame) (simp_all add: main_step_frame [OF m])
next
  case (cmd env)
  then have c: "command_step w env s = Some t" using assms(1) by simp
  show ?thesis by (rule eq_imp_le, rule grpc_rank_frame) (simp_all add: command_step_frame [OF c])
next
  case grpc
  with assms grpc_rank_grpc [of w s t] show ?thesis by auto
next
  case control
  note c = control_frame [OF assms(1) control]
  have "control_done s \<Longrightarrow> control_done t"
    using control_client(1) [OF assms(1) control] by (auto simp: control_done_view)
  then show ?thesis using c(23) by (auto simp: grpc_rank_def c(3,15,17))
next
  case stream
  with stream_client [OF assms(1)] stream_frame [OF assms(1)] stream_poll_done [OF assms(1)] show ?thesis
    by (auto simp: grpc_rank_def control_done_view split: grpc_pc.split)
qed (use assms in \<open>auto elim!: command_sentE command_errorE intro!: eq_imp_le grpc_rank_frame\<close>)

lemma grpc_helpful:
  assumes "grpc_inv s" "\<not> ended s" "\<not> g_running s"
  shows "grpc_rank s \<notin> {0, 3, 7} \<Longrightarrow> ended (agent_do w Grpc s) \<or> grpc_rank (agent_do w Grpc s) < grpc_rank s"
    "grpc_rank s = 7 \<Longrightarrow> grpc_rank (agent_do w (ControlDone st) s) < grpc_rank s"
    "grpc_rank s = 3 \<Longrightarrow> ended (agent_do w Poll s) \<or> grpc_rank (agent_do w Poll s) < grpc_rank s"
proof -
  have run: "ag_status s = Running" using assms(2) by (simp add: ended_def)
  show "ended (agent_do w Grpc s) \<or> grpc_rank (agent_do w Grpc s) < grpc_rank s" if "grpc_rank s \<notin> {0, 3, 7}"
  proof -
    have "grpc_step w s \<noteq> None" using that by (auto simp: grpc_step_def grpc_rank_def split: grpc_pc.splits if_splits)
    then obtain t where t: "grpc_step w s = Some t" by blast
    with run have "agent_do w Grpc s = t" by (simp add: agent_do_def)
    with grpc_rank_grpc [OF t assms(3)] that show ?thesis by auto
  qed
  show "grpc_rank (agent_do w (ControlDone st) s) < grpc_rank s" if "grpc_rank s = 7"
  proof -
    have g: "ag_grpc s = GAwait" "\<not> control_done s" "ag_cancelled s"
      using that by (auto simp: grpc_rank_def split: grpc_pc.splits if_splits)
    then obtain cr where "cl_connect_reactor (ag_client s) = Some cr" "\<not> cr_done cr"
      using assms(1) by (auto simp: grpc_inv_def client_view_def control_done_def)
    with run g show ?thesis
      by (simp add: agent_do_def control_ended_def grpc_rank_def control_done_def ConnectReactor_OnDone_def)
  qed
  show "ended (agent_do w Poll s) \<or> grpc_rank (agent_do w Poll s) < grpc_rank s" if "grpc_rank s = 3"
  proof -
    have g: "ag_grpc s = GJoinPoll" "\<not> ag_poll_done s" using that by (auto simp: grpc_rank_def split: grpc_pc.splits if_splits)
    then obtain sr where "cl_stream_data_reactor (ag_client s) = Some sr" "ag_stop s"
      using assms(1) by (auto simp: grpc_inv_def client_view_def)
    with run g show ?thesis
      by (auto simp: agent_do_def poll_do_def stream_do_def grpc_rank_def ended_def crash_def)
  qed
qed

lemma grpc_ends:
  fixes s :: "'d agent"
  assumes "agent_reachable w env s" "\<not> g_running s" "\<forall>i. \<exists>j \<ge> i. acts j = Grpc" "\<forall>i. \<exists>j \<ge> i. acts j = Poll"
    "\<forall>i. ag_cancelled (run_to w acts s i) \<longrightarrow> (\<exists>j \<ge> i. \<exists>st. acts j = ControlDone st)"
  shows "\<exists>n. ended (run_to w acts s n) \<or> ag_grpc (run_to w acts s n) = GDone"
proof -
  let ?st = "run_to w acts s"
  let ?P = "\<lambda>t. agent_reachable w env t \<and> \<not> g_running t"
  let ?Q = "\<lambda>t. ended t \<or> ag_grpc t = GDone"
  have zero: "grpc_rank t = 0 \<longleftrightarrow> ag_grpc t = GDone" for t :: "'d agent"
    by (auto simp: grpc_rank_def split: grpc_pc.splits if_splits)
  have mono: "grpc_rank (agent_do w a t) \<le> grpc_rank t" if "\<not> g_running t" "\<not> ended (agent_do w a t)" for a and t :: "'d agent"
    using that grpc_rank_mono [of w a t] by (auto simp: agent_do_def split: option.splits if_splits)
  have "\<exists>j \<ge> 0. ?Q (?st j)"
  proof (rule eventually_by_rank [where P = ?P and f = grpc_rank and r = less_than])
    show "?P (?st 0)" using assms(1,2) by simp
  next
    fix k assume "?P (?st k)" "\<not> ?Q (?st k)" "\<not> ?Q (?st (Suc k))"
    with mono [of "?st k" "acts k"] show "?P (?st (Suc k)) \<and>
        (grpc_rank (?st (Suc k)) = grpc_rank (?st k) \<or> (grpc_rank (?st (Suc k)), grpc_rank (?st k)) \<in> less_than)"
      by (auto intro: agent_reachable.step simp: agent_do_running)
  next
    fix k assume P: "?P (?st k)" and Q: "\<not> ?Q (?st k)"
    have inv: "grpc_inv t" if "?P t" for t using that agent_grpc_inv by blast
    have r0: "grpc_rank (?st k) \<noteq> 0" using Q zero by simp
    have go: "\<exists>j \<ge> k. ?P (?st j) \<longrightarrow> grpc_rank (?st j) = grpc_rank (?st k) \<longrightarrow> ?Q (?st j) \<or> ?Q (?st (Suc j)) \<or>
        (grpc_rank (?st (Suc j)), grpc_rank (?st k)) \<in> less_than"
      if h: "\<exists>j \<ge> k. acts j = a"
        "\<And>t. grpc_inv t \<Longrightarrow> \<not> ended t \<Longrightarrow> \<not> g_running t \<Longrightarrow> grpc_rank t = grpc_rank (?st k) \<Longrightarrow>
           ended (agent_do w a t) \<or> grpc_rank (agent_do w a t) < grpc_rank (?st k)" for a
    proof -
      obtain j where j: "j \<ge> k" "acts j = a" using h(1) by blast
      with h(2) [of "?st j"] inv [of "?st j"] show ?thesis by (intro exI [of _ j]) auto
    qed
    consider "grpc_rank (?st k) = 3" | "grpc_rank (?st k) = 7" | "grpc_rank (?st k) \<notin> {0, 3, 7}" using r0 by blast
    then show "\<exists>j \<ge> k. ?P (?st j) \<longrightarrow> grpc_rank (?st j) = grpc_rank (?st k) \<longrightarrow> ?Q (?st j) \<or> ?Q (?st (Suc j)) \<or>
        (grpc_rank (?st (Suc j)), grpc_rank (?st k)) \<in> less_than"
    proof cases
      case 1
      then show ?thesis using go [of Poll] assms(4) grpc_helpful(3) by metis
    next
      case 2
      then have "ag_cancelled (?st k)" by (auto simp: grpc_rank_def split: grpc_pc.splits if_splits)
      then obtain j st where "j \<ge> k" "acts j = ControlDone st" using assms(5) by blast
      then show ?thesis using go [of "ControlDone st"] 2 grpc_helpful(2) by metis
    next
      case 3
      then show ?thesis using go [of Grpc] assms(3) grpc_helpful(1) by metis
    qed
  qed simp_all
  then show ?thesis by blast
qed

section \<open>The main thread comes to its end\<close>

text \<open>Where the loop is, and how many lines are still to be written.\<close>

definition main_rank :: "'d agent \<Rightarrow> nat \<times> nat" where
  "main_rank s = (let n = length (sch_collectors (ag_sched s)) in case ag_main s of
     MInit \<Rightarrow> (8, 0) | MListen \<Rightarrow> (7, 0)
   | MCollect i \<Rightarrow> (8 + 3 * (n - i), 0) | MDump i ms \<Rightarrow> (10 + 3 * (n - Suc i), 0)
   | MLines i ms \<Rightarrow> (9 + 3 * (n - Suc i), length ms)
   | MDash \<Rightarrow> (7, 0) | MLoop \<Rightarrow> (6, 0) | MClose \<Rightarrow> (5, 0) | MUnflag \<Rightarrow> (4, 0) | MStop \<Rightarrow> (3, 0)
   | MJoin r \<Rightarrow> (2, 0) | MDestroy r \<Rightarrow> (1, 0))"

lemma main_rank_frame:
  "ag_main t = ag_main s \<Longrightarrow> sch_collectors (ag_sched t) = sch_collectors (ag_sched s) \<Longrightarrow> main_rank t = main_rank s"
  by (simp add: main_rank_def)

lemma main_rank_fail: "2 < fst (main_rank s) \<Longrightarrow> ended (main_fail err s) \<or> (main_rank (main_fail err s), main_rank s) \<in> rank_less"
  by (cases "main_rank s") (auto simp: main_fail_def main_rank_def crash_def ended_def)

lemma main_rank_step:
  assumes "main_step w e order s = Some t" "\<not> g_running s"
  shows "ended t \<or> (main_rank t, main_rank s) \<in> rank_less"
proof (cases "ag_main s")
  case (MCollect i)
  then have big: "2 < fst (main_rank s)" by (simp add: main_rank_def)
  show ?thesis
  proof (cases "length (sch_collectors (ag_sched s)) \<le> i")
    case True
    with assms MCollect show ?thesis by (auto simp: main_step_def main_collect_def main_rank_def)
  next
    case False
    then have "length (sch_collectors (ag_sched s)) - i = Suc (length (sch_collectors (ag_sched s)) - Suc i)" by simp
    then have new: "ended t' \<or> (main_rank t', main_rank s) \<in> rank_less" if "ag_main t' = MDump i ms"
      "length (sch_collectors (ag_sched t')) = length (sch_collectors (ag_sched s))" for t' ms
      using that MCollect by (simp add: main_rank_def)
    from assms(1) MCollect False have "(\<exists>err. t = main_fail err s) \<or> (\<exists>ms. ag_main t = MDump i ms \<and>
        length (sch_collectors (ag_sched t)) = length (sch_collectors (ag_sched s)))"
      by (auto simp: main_step_def main_collect_def Let_def split: sum.splits)
    with main_rank_fail [OF big] new show ?thesis by blast
  qed
next
  case (MLines i ms)
  with assms show ?thesis by (cases ms) (auto simp: main_step_def main_rank_def)
next
  case MInit
  with assms(1) have "(\<exists>err. t = main_fail err s) \<or> ag_main t = MListen" by (auto simp: main_step_def split: sum.splits)
  with main_rank_fail [of s] MInit show ?thesis by (fastforce simp: main_rank_def [of s] main_rank_def [of t] Let_def)
next
  case MListen
  with assms(1) have "(\<exists>err. t = main_fail err s) \<or> ag_main t = MLoop" by (auto simp: main_step_def split: sum.splits)
  with main_rank_fail [of s] MListen show ?thesis by (fastforce simp: main_rank_def [of s] main_rank_def [of t] Let_def)
next
  case MDash
  with assms(1) have "(\<exists>err. t = main_fail err s) \<or> ag_main t = MLoop"
    by (auto simp: main_step_def main_dash_def split: sum.splits if_splits)
  with main_rank_fail [of s] MDash show ?thesis by (fastforce simp: main_rank_def [of s] main_rank_def [of t] Let_def)
qed (use assms in \<open>auto simp: main_step_def main_exit_def main_rank_def ended_def split: prod.splits if_splits\<close>)

lemma main_rank_other:
  assumes "agent_act w a s = Some t" "\<forall>e order. a \<noteq> Main e order"
  shows "main_rank t = main_rank s"
proof (cases a rule: agent_act_groups)
  case (cmd env)
  then have c: "command_step w env s = Some t" using assms(1) by simp
  show ?thesis by (rule main_rank_frame) (simp_all add: command_step_frame [OF c])
next
  case grpc
  then have c: "grpc_step w s = Some t" using assms(1) by simp
  show ?thesis by (rule main_rank_frame) (simp_all add: grpc_step_frame [OF c])
next
  case control
  show ?thesis by (rule main_rank_frame) (simp_all add: control_frame [OF assms(1) control])
next
  case stream
  show ?thesis by (rule main_rank_frame) (simp_all add: stream_frame [OF assms(1) stream])
qed (use assms in \<open>auto elim!: command_sentE command_errorE intro!: main_rank_frame\<close>)

lemma main_step_some: "ag_grpc s = GDone \<Longrightarrow> main_step w e order s \<noteq> None"
  by (auto simp: main_step_def split: main_pc.split list.split prod.split)

lemma agent_act_GDone:
  assumes "agent_act w a s = Some t" "ag_grpc s = GDone"
  shows "ag_grpc t = GDone"
proof (cases a rule: agent_act_groups)
  case (main e order)
  with assms main_step_frame(2) [of w e order s t] show ?thesis by simp
next
  case (cmd env)
  with assms command_step_frame(2) [of w env s t] show ?thesis by simp
next
  case grpc
  with assms show ?thesis by (simp add: grpc_step_def)
next
  case control
  from control_frame(3) [OF assms(1) control] assms(2) show ?thesis by simp
next
  case stream
  from stream_frame(3) [OF assms(1) stream] assms(2) show ?thesis by simp
qed (use assms in \<open>auto elim!: command_sentE command_errorE\<close>)

lemma agent_do_GDone: "ag_grpc s = GDone \<Longrightarrow> ag_grpc (agent_do w a s) = GDone"
  by (rule agent_do_cases) (auto dest: agent_act_GDone)

lemma main_ends:
  fixes s :: "'d agent"
  assumes "\<not> g_running s" "ag_grpc s = GDone" "\<forall>i. \<exists>j \<ge> i. \<exists>e order. acts j = Main e order"
  shows "\<exists>n. ended (run_to w acts s n)"
proof -
  let ?st = "run_to w acts s"
  let ?P = "\<lambda>t. \<not> g_running t \<and> ag_grpc t = GDone"
  have main: "ended (agent_do w (Main e order) t) \<or> (main_rank (agent_do w (Main e order) t), main_rank t) \<in> rank_less"
    if "?P t" "\<not> ended t" for e order and t :: "'d agent"
  proof -
    from that obtain u where u: "main_step w e order t = Some u" using main_step_some [of t w e order] by blast
    then have "agent_do w (Main e order) t = u" using that(2) by (simp add: agent_do_def ended_def)
    with main_rank_step [OF u] that(1) show ?thesis by simp
  qed
  have other: "main_rank (agent_do w a t) = main_rank t" if "\<forall>e order. a \<noteq> Main e order" for a and t :: "'d agent"
    using main_rank_other [OF _ that] by (auto simp: agent_do_def split: option.split)
  have "\<exists>j \<ge> 0. ended (?st j)"
  proof (rule eventually_by_rank [where P = ?P and f = main_rank and r = rank_less])
    show "wf rank_less" by auto
    show "trans rank_less" by (auto simp: trans_def)
    show "?P (?st 0)" using assms(1,2) by simp
  next
    fix k assume k: "?P (?st k)" "\<not> ended (?st k)" "\<not> ended (?st (Suc k))"
    have "main_rank (?st (Suc k)) = main_rank (?st k) \<or> (main_rank (?st (Suc k)), main_rank (?st k)) \<in> rank_less"
    proof (cases "\<exists>e order. acts k = Main e order")
      case True
      with main [OF k(1,2)] k(3) show ?thesis by (metis run_to_simps(2))
    next
      case False
      with other [of "acts k" "?st k"] show ?thesis by auto
    qed
    with k(1) show "?P (?st (Suc k)) \<and> (main_rank (?st (Suc k)) = main_rank (?st k) \<or>
        (main_rank (?st (Suc k)), main_rank (?st k)) \<in> rank_less)" by (simp add: agent_do_running agent_do_GDone)
  next
    fix k
    obtain j e order where j: "j \<ge> k" "acts j = Main e order" using assms(3) by blast
    have "ended (?st (Suc j)) \<or> (main_rank (?st (Suc j)), main_rank (?st j)) \<in> rank_less" if "?P (?st j)" "\<not> ended (?st j)"
      using main [OF that, of e order] j(2) by simp
    with j(1) show "\<exists>j \<ge> k. ?P (?st j) \<longrightarrow> main_rank (?st j) = main_rank (?st k) \<longrightarrow> ended (?st j) \<or> ended (?st (Suc j)) \<or>
        (main_rank (?st (Suc j)), main_rank (?st k)) \<in> rank_less" by metis
  qed
  then show ?thesis by blast
qed

lemma run_to_add: "run_to w acts s (m + n) = run_to w (\<lambda>i. acts (m + i)) (run_to w acts s m) n"
  by (induction n) simp_all

lemma shifted: "\<forall>i. \<exists>j \<ge> i. Pr (acts j) \<Longrightarrow> \<forall>i. \<exists>j \<ge> i. Pr (acts ((m :: nat) + j))"
proof
  fix i assume "\<forall>i. \<exists>j \<ge> i. Pr (acts j)"
  then obtain j where "m + i \<le> j" "Pr (acts j)" by blast
  then show "\<exists>j \<ge> i. Pr (acts (m + j))" by (intro exI [of _ "j - m"]) simp
qed

section \<open>What the process leaves behind\<close>

definition exit_inv :: "'d agent \<Rightarrow> bool" where
  "exit_inv s \<longleftrightarrow> (ag_main s \<in> {MClose, MUnflag, MStop, MJoin None, MDestroy None} \<longrightarrow> \<not> g_running s) \<and>
     (\<forall>r. ag_main s = MDestroy r \<longrightarrow> ag_grpc s = GDone) \<and>
     mq_name (ag_q s) = kCommandQueue \<and> mq_role (ag_q s) = Receiver \<and> mq_fd (ag_q s) \<noteq> None \<and>
     (\<forall>c. ag_status s = Exited c \<longrightarrow> (\<exists>r. ag_main s = MDestroy r \<and> c = (if r = None then 0 else 1)) \<and>
        \<not> mq_listening (ag_q s) \<and> fs_names (ag_fs s) kCommandQueue = None)"

lemma exit_inv_frame:
  "exit_inv s \<Longrightarrow> ag_main t = ag_main s \<Longrightarrow> (g_running t \<longrightarrow> g_running s) \<Longrightarrow> (ag_grpc s = GDone \<longrightarrow> ag_grpc t = GDone) \<Longrightarrow>
   mq_name (ag_q t) = mq_name (ag_q s) \<Longrightarrow> mq_role (ag_q t) = mq_role (ag_q s) \<Longrightarrow> mq_fd (ag_q t) = mq_fd (ag_q s) \<Longrightarrow>
   (\<forall>c. ag_status t \<noteq> Exited c) \<Longrightarrow> exit_inv t"
  by (auto simp: exit_inv_def)

text \<open>Only the last step of the main thread ends the process in order.\<close>

lemma no_exit:
  assumes "agent_act w a s = Some t" "ag_status s = Running" "\<forall>e order. a \<noteq> Main e order"
  shows "ag_status t \<noteq> Exited c"
  using assms
  by (cases a) (auto simp: command_step_def command_receive_def command_export_def grpc_step_def grpc_thread_def
      control_read_def control_write_done_def control_ended_def poll_do_def stream_callback_def stream_ended_def stream_do_def
      crash_def Let_def elim!: command_sentE command_errorE
      split: if_splits list.splits sum.splits cmd_pc.splits grpc_pc.splits option.splits prod.splits)

lemma exit_inv_main:
  assumes "main_step w e order s = Some t" "ag_status s = Running" "exit_inv s"
  shows "exit_inv t"
  using assms(1)
proof (cases "ag_main s")
  case (MLines i ms)
  with assms show ?thesis by (cases ms) (auto simp: main_step_def exit_inv_def)
next
  case (MCollect i)
  with assms show ?thesis
    by (auto simp: main_step_def main_collect_def main_fail_def crash_def exit_inv_def Let_def split: sum.splits if_splits)
next
  case MDash
  with assms show ?thesis
    by (auto simp: main_step_def main_dash_def main_fail_def crash_def exit_inv_def split: sum.splits if_splits)
next
  case MListen
  with assms show ?thesis
    by (auto simp: main_step_def exit_inv_def main_fail_def crash_def listen_def arm_notify_def split: sum.splits if_splits option.splits)
next
  case MStop
  with assms show ?thesis by (auto simp: main_step_def exit_inv_def stop_listening_def split: if_splits)
next
  case (MDestroy r)
  with assms show ?thesis
    by (auto simp: main_step_def main_exit_def exit_inv_def MessageQueue_destroy_def stop_listening_def mq_unlink_def
        split: if_splits)
qed (use assms in \<open>auto simp: main_step_def main_fail_def crash_def exit_inv_def split: sum.splits if_splits\<close>)

lemma exit_inv_act:
  assumes "agent_act w a s = Some t" "ag_status s = Running" "exit_inv s"
  shows "exit_inv t"
proof (cases a rule: agent_act_groups)
  case (main e order)
  then have "main_step w e order s = Some t" using assms(1) by simp
  from exit_inv_main [OF this assms(2,3)] show ?thesis .
next
  case (cmd env)
  then have c: "command_step w env s = Some t" using assms(1) by simp
  have "\<forall>e order. a \<noteq> Main e order" using cmd by simp
  note n = no_exit [OF assms(1,2) this]
  show ?thesis by (rule exit_inv_frame [OF assms(3)]) (simp_all add: command_step_frame [OF c] n)
next
  case grpc
  then have c: "grpc_step w s = Some t" using assms(1) by simp
  have "\<forall>e order. a \<noteq> Main e order" using grpc by simp
  note n = no_exit [OF assms(1,2) this]
  have "ag_grpc s \<noteq> GDone" using c by (auto simp: grpc_step_def)
  then show ?thesis by (intro exit_inv_frame [OF assms(3)]) (simp_all add: grpc_step_frame [OF c] n)
next
  case control
  have "\<forall>e order. a \<noteq> Main e order" using control by (auto simp: is_control_def)
  note n = no_exit [OF assms(1,2) this]
  show ?thesis by (rule exit_inv_frame [OF assms(3)]) (simp_all add: control_frame [OF assms(1) control] n)
next
  case stream
  have "\<forall>e order. a \<noteq> Main e order" using stream by (auto simp: is_stream_def)
  note n = no_exit [OF assms(1,2) this]
  show ?thesis by (rule exit_inv_frame [OF assms(3)]) (simp_all add: stream_frame [OF assms(1) stream] n)
next
  case (signal sig)
  then have t: "t = on_signal sig s" using assms(1) by simp
  show ?thesis by (rule exit_inv_frame [OF assms(3)]) (simp_all add: t assms(2), simp add: on_signal_def)
next
  case (send m)
  then have "command_sent m s = Some t" using assms(1) by simp
  then obtain k fires where t: "t = s\<lparr>ag_k := k, ag_cmd := if fires then CDrain else ag_cmd s, ag_sent := ag_sent s @ [m]\<rparr>"
    by (rule command_sentE)
  show ?thesis by (rule exit_inv_frame [OF assms(3)]) (simp_all add: t assms(2))
next
  case cmd_error
  then have "command_error s = Some t" using assms(1) by simp
  then have t: "t = s\<lparr>ag_q := (ag_q s)\<lparr>mq_listening := False\<rparr>, ag_cmd := CIdle\<rparr>" by (rule command_errorE)
  show ?thesis by (rule exit_inv_frame [OF assms(3)]) (simp_all add: t assms(2))
qed

lemma agent_start_mq:
  assumes "agent_start env entries files fs = Inr (sch, q, fs')"
  shows "mq_name q = kCommandQueue \<and> mq_role q = Receiver \<and> mq_fd q \<noteq> None"
proof -
  obtain fs1 r where r: "MessageQueue_new (ae_mq_denied env) kCommandQueue Receiver default_Options fs = (fs1, r)" by fastforce
  with assms have "r = Inr q" by (cases r) (auto simp: agent_start_def res_bind_eq_Inr)
  with r show ?thesis
    by (auto simp: MessageQueue_new_def open_queue_def kCommandQueue_def Let_def split: sum.splits prod.splits)
qed

lemma agent_exit_inv: "agent_reachable w env s \<Longrightarrow> exit_inv s"
proof (induction rule: agent_invariant)
  case (start entries files fs sch q fs' k)
  from agent_start_mq [OF start(1)] show ?case by (simp add: exit_inv_def agent_init_def)
next
  case (act s a t)
  with exit_inv_act show ?case by blast
qed

section \<open>Properties\<close>


text \<open>A schedule that takes turns.\<close>

definition turns :: "nat \<Rightarrow> nat act" where
  "turns i = (if i mod 4 = 0 then step_main else if i mod 4 = 1 then Grpc else if i mod 4 = 2 then Poll
     else ControlDone \<lparr>status_ok = True, error_message = ''''\<rparr>)"

lemma turns_fair: "r < 4 \<Longrightarrow> \<exists>j \<ge> i. turns j = turns r"
  by (intro exI [of _ "4 * i + r"]) (simp add: turns_def mod_add_right_eq mod_mult_self2_is_0)



text \<open>
  C38.  An exception on the main thread does not end the agent: \<^verbatim>\<open>agent_mode\<close> joins the gRPC thread,
  which waits for the server.  As long as no signal comes and the server keeps the control stream
  open the process does not exit, and it does not ask gRPC to cancel.
\<close>

theorem exception_leaves_agent_waiting:
  assumes "ag_status s = Running" "ag_main s = MJoin (Some err)" "ag_grpc s = GAwait" "\<not> control_done s" "g_running s"
    "\<not> ag_cancelled s" "\<forall>a \<in> set acts. \<forall>sig st. a \<noteq> Signal sig \<and> a \<noteq> ControlDone st"
  shows "\<forall>c. ag_status (agent_run w acts s) \<noteq> Exited c \<and> \<not> ag_cancelled (agent_run w acts s)"
proof -
  define I where "I s \<longleftrightarrow> (\<forall>c. ag_status s \<noteq> Exited c) \<and> ag_main s = MJoin (Some err) \<and> ag_grpc s = GAwait \<and> \<not> control_done s \<and>
    g_running s \<and> \<not> ag_cancelled s" for s :: "'a agent"
  have "I (agent_do w a s)" if "I s" "\<forall>sig st. a \<noteq> Signal sig \<and> a \<noteq> ControlDone st" for a s
  proof (rule agent_do_cases)
    fix t assume run: "ag_status s = Running" and t: "agent_act w a s = Some t"
    show "I t"
    proof (cases a rule: agent_act_groups)
      case (main e order)
      with t that(1) show ?thesis by (simp add: main_step_def I_def)
    next
      case (cmd env)
      then have c: "command_step w env s = Some t" using t by simp
      from that(1) show ?thesis
        by (simp add: I_def control_done_def command_step_frame [OF c] no_exit [OF t run] cmd)
    next
      case grpc
      with t that(1) show ?thesis by (auto simp: grpc_step_def I_def control_done_def)
    next
      case control
      have "\<forall>e order. a \<noteq> Main e order" using control by (auto simp: is_control_def)
      note n = no_exit [OF t run this]
      from control_client(1) [OF t control] that show ?thesis
        by (auto simp: I_def control_done_view control_frame [OF t control] n)
    next
      case stream
      have "\<forall>e order. a \<noteq> Main e order" using stream by (auto simp: is_stream_def)
      note n = no_exit [OF t run this]
      from stream_client [OF t stream] that show ?thesis by (simp add: I_def control_done_view stream_frame [OF t stream] n)
    qed (use t that in \<open>auto elim!: command_sentE command_errorE simp: I_def control_done_def\<close>)
  qed (rule that(1))
  then have "I s \<Longrightarrow> I (fold (agent_do w) acts s)" using assms(7) by (induction acts arbitrary: s) auto
  with assms(1-6) show ?thesis by (simp add: I_def agent_run_def)
qed


text \<open>
  C39.  The end of the gRPC thread races with the polling thread: when the server ends the control
  stream while metrics are being streamed, the destructor of the stream reactor destroys the map,
  the queue and the mutexes before it stops the polling thread, and the next step of that thread
  uses them.
\<close>

theorem stream_teardown_can_crash:
  assumes "agent_reachable w env s" "ag_status s = Running" "ag_grpc s = GAwait" "\<not> control_done s"
    "cl_stream_data_reactor (ag_client s) \<noteq> None"
  shows "ag_status (agent_run w [ControlDone st, Grpc, Grpc, Poll] s) = Crashed Dangling"
proof -
  from agent_grpc_inv [OF assms(1)] assms(3) have inv: "\<not> ag_stop s" "\<not> ag_poll_done s" "fst (client_view s) \<noteq> None"
    by (simp_all add: grpc_inv_def)
  then obtain cr where cr: "cl_connect_reactor (ag_client s) = Some cr" by (auto simp: client_view_def)
  then have d: "\<not> cr_done cr" using assms(4) by (simp add: control_done_def)
  obtain sr where sr: "cl_stream_data_reactor (ag_client s) = Some sr" using assms(5) by blast
  let ?cl = "(ag_client s)\<lparr>cl_connect_reactor := Some (ConnectReactor_OnDone st cr)\<rparr>"
  have 1: "agent_do w (ControlDone st) s = s\<lparr>ag_client := ?cl\<rparr>"
    using assms(2,3) d cr by (simp add: agent_do_def control_ended_def)
  have 2: "agent_do w Grpc (s\<lparr>ag_client := ?cl\<rparr>) = s\<lparr>ag_client := ?cl, ag_grpc := GTear\<rparr>"
    using assms(2,3) by (simp add: agent_do_def grpc_step_def control_done_def ConnectReactor_OnDone_def)
  have 3: "agent_do w Grpc (s\<lparr>ag_client := ?cl, ag_grpc := GTear\<rparr>) = s\<lparr>ag_client := ?cl, ag_grpc := GStop\<rparr>"
    using assms(2) sr by (simp add: agent_do_def grpc_step_def)
  have 4: "ag_status (agent_do w Poll (s\<lparr>ag_client := ?cl, ag_grpc := GStop\<rparr>)) = Crashed Dangling"
    using assms(2) inv sr by (simp add: agent_do_def poll_do_def stream_do_def crash_def)
  show ?thesis by (simp add: agent_run_def 1 2 3 4)
qed

section \<open>The properties on small runs\<close>

text \<open>A server that asks for the metrics.\<close>

definition stream_request :: ControlMessage where
  "stream_request = CreateMessage MESSAGE_STREAM_DATA []"

theorem stream_teardown_can_crash_witness:
  "\<exists>s. agent_reachable example_world example_agent s \<and>
     ag_status (agent_run example_world [ControlDone \<lparr>status_ok = True, error_message = []\<rparr>, Grpc, Grpc, Poll] s) = Crashed Dangling"
proof -
  obtain s where s: "example_listening s" "agent_reachable example_world example_agent s"
    using example_listening_reachable by blast
  let ?t = "agent_run example_world [Grpc, Grpc, Grpc, ControlRead stream_request] s"
  have "ag_status ?t = Running" "ag_grpc ?t = GAwait" "\<not> control_done ?t" "cl_stream_data_reactor (ag_client ?t) \<noteq> None"
    using s(1) by (simp_all add: example_listening_def agent_run_def agent_do_def grpc_step_def grpc_thread_def example_world_def
        Client_new_def control_read_def control_done_def ConnectReactor_new_def ConnectReactor_OnReadDone_def OnMessage_def
        StreamData_def reply_def EnqueueWrite_def ConnectReactor_Write_def cr_push_def stream_request_def)
  from stream_teardown_can_crash [OF agent_reachable_run [OF s(2)] this] agent_reachable_run [OF s(2)] show ?thesis by blast
qed

text \<open>How the small agent starts, with the definitions that its first steps unfold.\<close>

lemma example_startedE:
  assumes "example_started s"
  obtains sch q fs where
    "s = agent_init sch q \<lparr>kq_messages = [], kq_notify = False, kq_maxmsg = 10, kq_msgsize = 4096\<rparr> fs"
    "sch_collectors sch = sch_collectors example_scheduler" "mq_role q = Receiver" "\<not> mq_listening q"
  using assms by (auto simp: example_started_def)

lemmas first_steps = agent_run_def agent_do_def main_step_def agent_init_def example_init listen_def arm_notify_def
  grpc_step_def grpc_thread_def example_world_def

theorem exception_leaves_agent_waiting_witness:
  "\<exists>s err. agent_reachable (example_world\<lparr>w_refused := Some ''EBUSY''\<rparr>) example_agent s \<and> ag_main s = MJoin (Some err) \<and>
     (\<forall>c. ag_status (agent_run (example_world\<lparr>w_refused := Some ''EBUSY''\<rparr>) [step_main, Grpc, step_main] s) \<noteq> Exited c)"
proof -
  let ?w = "example_world\<lparr>w_refused := Some ''EBUSY''\<rparr>"
  let ?t = "agent_run ?w [step_main, step_main, Grpc, Grpc, Grpc]"
  obtain s where st: "example_started s" "agent_reachable ?w example_agent s"
    using example_started_reachable by blast
  obtain sch q fs where s:
    "s = agent_init sch q \<lparr>kq_messages = [], kq_notify = False, kq_maxmsg = 10, kq_msgsize = 4096\<rparr> fs"
    "sch_collectors sch = sch_collectors example_scheduler" "mq_role q = Receiver" "\<not> mq_listening q"
    by (rule example_startedE [OF st(1)])
  have t: "ag_status (?t s) = Running" "ag_main (?t s) = MJoin (Some (RuntimeError ''mq_notify failed: EBUSY''))"
    "ag_grpc (?t s) = GAwait" "\<not> control_done (?t s)" "g_running (?t s)" "\<not> ag_cancelled (?t s)"
    by (simp_all add: first_steps s main_fail_def control_done_def ConnectReactor_new_def)
  from exception_leaves_agent_waiting [OF t, of "[step_main, Grpc, step_main]" ?w]
  have "\<forall>c. ag_status (agent_run ?w [step_main, Grpc, step_main] (?t s)) \<noteq> Exited c" by simp
  with agent_reachable_run [OF st(2)] t(2) show ?thesis by blast
qed


end
