(* ===== verification/Stream_Liveness.thy ===== *)
theory Stream_Liveness
  imports Stream_Reactor Progress
begin

text \<open>
  Progress of the metrics stream: what is collected gets to the server.

  A run is an infinite sequence of states with the action taken at each point, or none.  It is fair
  when the polling thread gets its turn again and again, gRPC finishes the writes it was given, the
  callback that pops a batch comes to its call of \<^verbatim>\<open>Write\<close>, and the server acknowledges the batches it
  was sent.  In a fair run every round of the polling thread ends, every batch registered is written
  and acknowledged, and so every sample leaves the buffer, as long as the 64-bit counters do not wrap.
\<close>

section \<open>Runs\<close>

definition stream_path :: "(nat \<Rightarrow> stream_act option) \<Rightarrow> (nat \<Rightarrow> stream_sys) \<Rightarrow> bool" where
  "stream_path l v \<longleftrightarrow> (\<forall>i. case l i of None \<Rightarrow> v (Suc i) = v i | Some a \<Rightarrow> stream_act_step a (v i) = Inr (v (Suc i)))"

definition fair_stream :: "(nat \<Rightarrow> stream_act option) \<Rightarrow> (nat \<Rightarrow> stream_sys) \<Rightarrow> bool" where
  "fair_stream l v \<longleftrightarrow> stream_path l v \<and> (\<forall>i. \<exists>j \<ge> i. l j = Some ActPoll) \<and>
     (\<forall>i. sr_writing (ss_sr (v i)) \<longrightarrow> (\<exists>j \<ge> i. l j = Some ActWriteDone)) \<and>
     (\<forall>i. 0 < sr_done_writes (ss_sr (v i)) \<longrightarrow> (\<exists>j \<ge> i. l j = Some ActWriteNext)) \<and>
     (\<forall>i b. b \<in> set (sr_started (ss_sr (v i))) \<longrightarrow> sr_pending (ss_sr (v i)) (batch_id b) \<noteq> None \<longrightarrow>
        (\<exists>j \<ge> i. \<exists>ack. l j = Some (ActAck ack) \<and> ack_batch_id ack = batch_id b))"

lemma fair_streamD:
  assumes "fair_stream l v"
  shows "stream_path l v" "\<exists>j \<ge> i. l j = Some ActPoll"
    "sr_writing (ss_sr (v i)) \<Longrightarrow> \<exists>j \<ge> i. l j = Some ActWriteDone"
    "0 < sr_done_writes (ss_sr (v i)) \<Longrightarrow> \<exists>j \<ge> i. l j = Some ActWriteNext"
    "b \<in> set (sr_started (ss_sr (v i))) \<Longrightarrow> sr_pending (ss_sr (v i)) (batch_id b) \<noteq> None \<Longrightarrow>
      \<exists>j \<ge> i. \<exists>ack. l j = Some (ActAck ack) \<and> ack_batch_id ack = batch_id b"
  using assms by (simp_all add: fair_stream_def)

lemma path_cases:
  assumes "stream_path l v"
  obtains (idle) "l i = None" "v (Suc i) = v i" | (act) a where "l i = Some a" "stream_act_step a (v i) = Inr (v (Suc i))"
  using assms by (cases "l i") (auto simp: stream_path_def dest: spec [of _ i])

lemma path_step: "stream_path l v \<Longrightarrow> v (Suc i) = v i \<or> stream_step (v i) (v (Suc i))"
  by (erule path_cases [where i = i]) (auto dest: stream_act_step_sound)

lemma path_reachable: "stream_path l v \<Longrightarrow> stream_reachable cfg (v 0) \<Longrightarrow> stream_reachable cfg (v i)"
proof (induction i)
  case (Suc i)
  with path_step [of l v i] show ?case by (auto intro: stream_reachable.step)
qed simp

text \<open>How much of a series has been released: acknowledged, or overwritten by newer samples.\<close>

definition released :: "BufferKey \<Rightarrow> stream_sys \<Rightarrow> nat" where
  "released k s = (case GetBuffer k (ss_mb s) of None \<Rightarrow> 0 | Some b \<Rightarrow> unat (sb_tail b))"

lemma released_gone:
  assumes "full_inv s S"
  shows "released k s = gone_of S k"
proof -
  have rel: "mb_rel (ss_mb s) S" using assms by (simp add: full_inv_def stream_inv_def data_inv_def)
  show ?thesis
  proof (cases "S k")
    case None
    then have "mb_series (ss_mb s) k = None" using mb_rel_none [OF rel] by blast
    with None show ?thesis by (simp add: released_def GetBuffer_def gone_of_def)
  next
    case (Some sp)
    from mb_rel_series [OF rel Some] obtain b where "mb_series (ss_mb s) k = Some b" "sb_rel b sp" .
    with Some show ?thesis by (simp add: released_def GetBuffer_def gone_of_def sb_rel_def)
  qed
qed

section \<open>What a step changes\<close>

text \<open>Only the polling thread moves its counter or registers batches; collections only add.\<close>

lemma act_keeps:
  assumes "stream_act_step a s = Inr t" "a \<noteq> ActPoll"
  shows "sr_poll (ss_sr t) = sr_poll (ss_sr s)" "ss_log t = ss_log s" "dom (sr_pending (ss_sr t)) \<subseteq> dom (sr_pending (ss_sr s))"
proof -
  have "sr_poll (ss_sr t) = sr_poll (ss_sr s) \<and> ss_log t = ss_log s \<and>
      dom (sr_pending (ss_sr t)) \<subseteq> dom (sr_pending (ss_sr s))"
    using assms
    by (cases a) (auto simp: res_map_eq_Inr pop_written_def StreamMetricsReactor_OnReadDone_def
        split: if_splits list.splits nat.splits prod.splits option.splits)
  then show "sr_poll (ss_sr t) = sr_poll (ss_sr s)" "ss_log t = ss_log s"
    "dom (sr_pending (ss_sr t)) \<subseteq> dom (sr_pending (ss_sr s))" by simp_all
qed

lemma act_metrics:
  assumes "stream_act_step a s = Inr t"
  shows "\<exists>ms. ss_metrics t = ss_metrics s @ ms"
  using assms
  by (cases a) (auto simp: res_map_eq_Inr split: if_splits nat.splits prod.splits)

lemma act_log: "stream_act_step a s = Inr t \<Longrightarrow> set (ss_log s) \<subseteq> set (ss_log t)"
  by (cases a) (auto simp: res_map_eq_Inr split: if_splits nat.splits prod.splits)

lemma path_log:
  assumes "stream_path l v" "i \<le> j"
  shows "set (ss_log (v i)) \<subseteq> set (ss_log (v j))"
  using assms(2)
proof (induction j rule: dec_induct)
  case (step j)
  from assms(1) have "set (ss_log (v j)) \<subseteq> set (ss_log (v (Suc j)))"
    by (cases rule: path_cases [where i = j]) (auto dest: act_log)
  with step show ?case by blast
qed simp

lemma path_samples:
  assumes "stream_path l v" "i \<le> j"
  shows "prefix (samples_for k (ss_metrics (v i))) (samples_for k (ss_metrics (v j)))"
  using assms(2)
proof (induction j rule: dec_induct)
  case (step j)
  from assms(1) have "\<exists>ms. ss_metrics (v (Suc j)) = ss_metrics (v j) @ ms"
    by (cases rule: path_cases [where i = j]) (auto dest: act_metrics)
  with step.IH show ?case by (auto simp: samples_for_append)
qed simp

section \<open>No write is forgotten\<close>

text \<open>At the top of its loop the polling thread leaves no batch waiting without a write or a callback
  under way, unless everything is acknowledged.\<close>

definition no_stall :: "StreamMetricsReactor \<Rightarrow> bool" where
  "no_stall sr \<longleftrightarrow> sr_poll sr = PollTop \<longrightarrow> sr_pending sr \<noteq> Map.empty \<longrightarrow> sr_writerqu sr \<noteq> [] \<longrightarrow>
     sr_writing sr \<or> 0 < sr_done_writes sr"

lemma no_stall_poll: "poll_step mb sr = Inr sr' \<Longrightarrow> no_stall sr \<Longrightarrow> no_stall sr'"
  by (auto simp: poll_step_def no_stall_def res_map_eq_Inr StreamMetricsReactor_Write_def
      split: poll_pc.splits list.splits if_splits)

lemma no_stall_step: "stream_step s t \<Longrightarrow> no_stall (ss_sr s) \<Longrightarrow> no_stall (ss_sr t)"
proof (induction rule: stream_step.induct)
  case (poll s sr')
  then show ?case using no_stall_poll by simp
next
  case (read_done ack s mb' sr' r)
  then show ?case
    by (auto simp: StreamMetricsReactor_OnReadDone_def no_stall_def split: option.splits)
qed (auto simp: no_stall_def StreamMetricsReactor_Write_def)

lemma no_stall_reachable: "stream_reachable cfg s \<Longrightarrow> no_stall (ss_sr s)"
proof (induction rule: stream_reachable.induct)
  case (step s t)
  then show ?case using no_stall_step by blast
qed (simp add: stream_init_def StreamMetricsReactor_new_def no_stall_def)

section \<open>Every round of the polling thread ends\<close>

fun round_left :: "poll_pc \<Rightarrow> nat \<times> nat" where
  "round_left PollTop = (0, 0)"
| "round_left PollKeys = (1, 0)"
| "round_left (Enqueue ks) = (0, 3 * length ks + 3)"
| "round_left (Register k sn ks) = (0, 3 * length ks + 5)"
| "round_left (PushBatch b ks) = (0, 3 * length ks + 4)"
| "round_left AfterEnqueue = (0, 2)"
| "round_left CallWrite = (0, 1)"

lemma poll_round:
  assumes "poll_step mb sr = Inr sr'" "sr_poll sr \<noteq> PollTop"
  shows "(round_left (sr_poll sr'), round_left (sr_poll sr)) \<in> rank_less"
proof (cases "sr_poll sr")
  case (Enqueue ks)
  with assms(1) show ?thesis by (cases ks) (auto simp: poll_step_def res_map_eq_Inr)
qed (use assms in \<open>auto simp: poll_step_def\<close>)

abbreviation pc_at :: "stream_sys \<Rightarrow> poll_pc" where
  "pc_at s \<equiv> sr_poll (ss_sr s)"

lemma act_round:
  assumes "stream_act_step a s = Inr t" "pc_at s \<noteq> PollTop"
  shows "a \<noteq> ActPoll \<Longrightarrow> round_left (pc_at t) = round_left (pc_at s)"
    "a = ActPoll \<Longrightarrow> (round_left (pc_at t), round_left (pc_at s)) \<in> rank_less"
  using assms act_keeps(1) poll_round [of "ss_mb s" "ss_sr s"] by (auto simp: res_map_eq_Inr)

lemma path_round:
  assumes "stream_path l v" "pc_at (v i) \<noteq> PollTop"
  shows "round_left (pc_at (v (Suc i))) = round_left (pc_at (v i)) \<or>
      (round_left (pc_at (v (Suc i))), round_left (pc_at (v i))) \<in> rank_less"
    "l i = Some ActPoll \<Longrightarrow> (round_left (pc_at (v (Suc i))), round_left (pc_at (v i))) \<in> rank_less"
proof -
  show "round_left (pc_at (v (Suc i))) = round_left (pc_at (v i)) \<or>
      (round_left (pc_at (v (Suc i))), round_left (pc_at (v i))) \<in> rank_less"
    using assms(1)
  proof (cases rule: path_cases [where i = i])
    case (act a)
    with act_round [OF act(2) assms(2)] show ?thesis by blast
  qed simp
  show "(round_left (pc_at (v (Suc i))), round_left (pc_at (v i))) \<in> rank_less" if "l i = Some ActPoll"
    using assms(1)
  proof (cases rule: path_cases [where i = i])
    case (act a)
    with act_round(2) [OF act(2) assms(2)] that show ?thesis by simp
  qed (use that in simp)
qed

lemma round_ends:
  assumes "fair_stream l v"
  shows "\<exists>j \<ge> i. pc_at (v j) = PollTop"
proof (rule eventually_by_rank [where P = "\<lambda>_. True" and Q = "\<lambda>s. pc_at s = PollTop" and f = "\<lambda>s. round_left (pc_at s)" and r = rank_less])
  fix k assume q: "pc_at (v k) \<noteq> PollTop"
  from path_round(1) [OF fair_streamD(1) [OF assms] q]
  show "True \<and> (round_left (pc_at (v (Suc k))) = round_left (pc_at (v k)) \<or>
      (round_left (pc_at (v (Suc k))), round_left (pc_at (v k))) \<in> rank_less)" by simp
next
  fix k
  obtain j where j: "j \<ge> k" "l j = Some ActPoll" using fair_streamD(2) [OF assms] by blast
  have "pc_at (v j) = PollTop \<or> (round_left (pc_at (v (Suc j))), round_left (pc_at (v j))) \<in> rank_less"
    using path_round(2) [OF fair_streamD(1) [OF assms] _ j(2)] by blast
  with j(1) show "\<exists>j \<ge> k. True \<longrightarrow> round_left (pc_at (v j)) = round_left (pc_at (v k)) \<longrightarrow>
      pc_at (v j) = PollTop \<or> pc_at (v (Suc j)) = PollTop \<or> (round_left (pc_at (v (Suc j))), round_left (pc_at (v k))) \<in> rank_less"
    by auto
qed (auto simp: trans_def)

section \<open>Every batch registered is acknowledged\<close>

text \<open>Between two rounds: the batches pending, and what is still to be written.\<close>

definition wait_rank :: "stream_sys \<Rightarrow> u64 set \<times> nat" where
  "wait_rank s = (dom (sr_pending (ss_sr s)),
     2 * length (sr_writerqu (ss_sr s)) - (if sr_writing (ss_sr s) then 1 else 0))"

abbreviation wait_less :: "((u64 set \<times> nat) \<times> u64 set \<times> nat) set" where
  "wait_less \<equiv> finite_psubset <*lex*> less_than"

lemma pending_finite:
  assumes "full_inv s S"
  shows "finite (dom (sr_pending (ss_sr s)))"
proof -
  have "log_inv S (ss_sr s) (ss_log s) (ss_acked s)" using assms by (simp add: full_inv_def stream_inv_def)
  from log_invD(4) [OF this] have "dom (sr_pending (ss_sr s)) \<subseteq> fst ` set (ss_log s)" by force
  then show ?thesis by (rule finite_subset) simp
qed

lemma wait_step:
  assumes "full_inv s S" "pc_at s = PollTop" "sr_pending (ss_sr s) \<noteq> Map.empty" "stream_act_step a s = Inr t"
  shows "pc_at t = PollTop \<and> (wait_rank t = wait_rank s \<or> (wait_rank t, wait_rank s) \<in> wait_less)"
proof (cases a)
  case ActPoll
  with assms show ?thesis by (auto simp: res_map_eq_Inr poll_step_def wait_rank_def)
next
  case ActWriteDone
  with assms show ?thesis
    by (auto simp: res_map_eq_Inr pop_written_def wait_rank_def split: if_splits list.splits)
next
  case ActWriteNext
  show ?thesis
  proof (cases "sr_done_writes (ss_sr s)")
    case (Suc n)
    with ActWriteNext assms(4) have t: "t = s\<lparr>ss_sr := (StreamMetricsReactor_Write (ss_sr s))\<lparr>sr_done_writes := n\<rparr>\<rparr>" by simp
    show ?thesis
    proof (cases "sr_writing (ss_sr s) \<or> sr_writerqu (ss_sr s) = []")
      case True
      then have "StreamMetricsReactor_Write (ss_sr s) = ss_sr s" by (simp add: StreamMetricsReactor_Write_def)
      with assms(2) show ?thesis by (simp add: t wait_rank_def)
    next
      case False
      then have "StreamMetricsReactor_Write (ss_sr s) = (ss_sr s)\<lparr>sr_writing := True,
          sr_started := sr_started (ss_sr s) @ [hd (sr_writerqu (ss_sr s))]\<rparr>" by (simp add: StreamMetricsReactor_Write_def)
      with assms(2) False show ?thesis by (simp add: t wait_rank_def)
    qed
  qed (use ActWriteNext assms in simp)
next
  case (ActAck ack)
  with assms pending_finite [OF assms(1)] show ?thesis
    by (auto simp: res_map_eq_Inr StreamMetricsReactor_OnReadDone_def wait_rank_def finite_psubset_def
        split: if_splits option.splits prod.splits)
qed (use assms in \<open>auto simp: res_map_eq_Inr wait_rank_def\<close>)

text \<open>What moves it on: an acknowledgement, a finished write, or the next one.\<close>

lemma wait_helpful:
  assumes "full_inv s S" "pc_at s = PollTop" "sr_pending (ss_sr s) \<noteq> Map.empty" "stream_act_step a s = Inr t"
  shows "a = ActAck ack \<Longrightarrow> ack_batch_id ack \<in> dom (sr_pending (ss_sr s)) \<Longrightarrow> (wait_rank t, wait_rank s) \<in> wait_less"
    "a = ActWriteDone \<Longrightarrow> sr_writing (ss_sr s) \<Longrightarrow> (wait_rank t, wait_rank s) \<in> wait_less"
    "a = ActWriteNext \<Longrightarrow> \<not> sr_writing (ss_sr s) \<Longrightarrow> sr_writerqu (ss_sr s) \<noteq> [] \<Longrightarrow> 0 < sr_done_writes (ss_sr s) \<Longrightarrow>
      (wait_rank t, wait_rank s) \<in> wait_less"
proof -
  show "(wait_rank t, wait_rank s) \<in> wait_less" if "a = ActAck ack" "ack_batch_id ack \<in> dom (sr_pending (ss_sr s))"
    using that assms pending_finite [OF assms(1)]
    by (auto simp: res_map_eq_Inr StreamMetricsReactor_OnReadDone_def wait_rank_def finite_psubset_def
        split: if_splits option.splits prod.splits)
  show "(wait_rank t, wait_rank s) \<in> wait_less" if "a = ActWriteDone" "sr_writing (ss_sr s)"
    using that assms by (auto simp: res_map_eq_Inr pop_written_def wait_rank_def split: list.splits)
  show "(wait_rank t, wait_rank s) \<in> wait_less" if "a = ActWriteNext" "\<not> sr_writing (ss_sr s)" "sr_writerqu (ss_sr s) \<noteq> []"
      "0 < sr_done_writes (ss_sr s)"
    using that assms by (auto simp: wait_rank_def StreamMetricsReactor_Write_def split: nat.splits)
qed

text \<open>A batch that is pending has been handed to \<^verbatim>\<open>StartWrite\<close>, or there is something to write.\<close>

lemma pending_started:
  assumes "full_inv s S" "pc_at s = PollTop" "sr_pending (ss_sr s) n \<noteq> None"
  shows "(\<exists>b \<in> set (sr_started (ss_sr s)). batch_id b = n) \<or> sr_writerqu (ss_sr s) \<noteq> []"
proof (cases "sr_writerqu (ss_sr s) = []")
  case True
  have inv: "stream_inv s S" using assms(1) by (simp add: full_inv_def)
  note i = stream_invD [OF inv]
  obtain k sn where "sr_pending (ss_sr s) n = Some (k, sn)" using assms(3) by auto
  then have e: "(n, k, sn) \<in> set (ss_log s)" using log_invD(4) [OF i(2)] by blast
  have "fifo_inv (map batch_of (ss_log s)) [] (sr_writing (ss_sr s)) (sr_started (ss_sr s))"
    using i(4) by (simp add: assms(2) True queued_def)
  then have "sr_started (ss_sr s) = map batch_of (ss_log s)" by (auto simp: fifo_inv_def)
  with e have "batch_of (n, k, sn) \<in> set (sr_started (ss_sr s))" by simp
  moreover have "batch_id (batch_of (n, k, sn)) = n" by simp
  ultimately show ?thesis by blast
qed simp


lemma full_inv_writing:
  assumes "full_inv s S" "sr_writing (ss_sr s)"
  shows "sr_writerqu (ss_sr s) \<noteq> []"
  using assms stream_invD(4) [of s S] by (auto simp: full_inv_def fifo_inv_def)


lemma wait_rank_same:
  assumes "full_inv s S" "full_inv t T" "wait_rank t = wait_rank s"
  shows "dom (sr_pending (ss_sr t)) = dom (sr_pending (ss_sr s))" "sr_writing (ss_sr t) = sr_writing (ss_sr s)"
    "length (sr_writerqu (ss_sr t)) = length (sr_writerqu (ss_sr s))"
proof -
  have even: "w = u \<and> m = n" if "2 * m - (if w then 1 else 0) = 2 * n - (if u then 1 else 0)" "w \<longrightarrow> 0 < m" "u \<longrightarrow> 0 < n"
    for w u :: bool and m n :: nat
    using that by (cases w; cases u; simp; presburger)
  show "dom (sr_pending (ss_sr t)) = dom (sr_pending (ss_sr s))" using assms(3) by (simp add: wait_rank_def)
  have "sr_writing (ss_sr t) = sr_writing (ss_sr s) \<and> length (sr_writerqu (ss_sr t)) = length (sr_writerqu (ss_sr s))"
    by (rule even) (use assms(3) full_inv_writing [OF assms(1)] full_inv_writing [OF assms(2)] in \<open>simp_all add: wait_rank_def\<close>)
  then show "sr_writing (ss_sr t) = sr_writing (ss_sr s)"
    "length (sr_writerqu (ss_sr t)) = length (sr_writerqu (ss_sr s))" by simp_all
qed


lemma pending_clears:
  assumes fair: "fair_stream l v" and reach: "stream_reachable cfg (v 0)" and top: "pc_at (v i) = PollTop"
  shows "\<exists>j \<ge> i. \<not> bounded (v j) \<or> pc_at (v j) = PollTop \<and> sr_pending (ss_sr (v j)) = Map.empty"
proof -
  let ?P = "\<lambda>s. stream_reachable cfg s \<and> pc_at s = PollTop"
  let ?Q = "\<lambda>s. \<not> bounded s \<or> pc_at s = PollTop \<and> sr_pending (ss_sr s) = Map.empty"
  note path = fair_streamD(1) [OF fair]
  have inv: "\<exists>S. full_inv s S" "sr_pending (ss_sr s) \<noteq> Map.empty" if "?P s" "\<not> ?Q s" for s
    using that reachable_full by auto
  show ?thesis
  proof (rule eventually_by_rank [where P = ?P and Q = ?Q and f = wait_rank and r = wait_less])
    show "trans wait_less" by (auto simp: trans_def)
    show "?P (v i)" using path_reachable [OF path reach] top by blast
  next
    fix k assume k: "?P (v k)" "\<not> ?Q (v k)"
    obtain S where S: "full_inv (v k) S" using inv [OF k] by blast
    have "pc_at (v (Suc k)) = PollTop \<and> (wait_rank (v (Suc k)) = wait_rank (v k) \<or> (wait_rank (v (Suc k)), wait_rank (v k)) \<in> wait_less)"
      using path
    proof (cases rule: path_cases [where i = k])
      case (act a)
      from wait_step [OF S conjunct2 [OF k(1)] inv(2) [OF k] act(2)] show ?thesis .
    qed (use k in simp)
    then show "?P (v (Suc k)) \<and> (wait_rank (v (Suc k)) = wait_rank (v k) \<or> (wait_rank (v (Suc k)), wait_rank (v k)) \<in> wait_less)"
      using path_reachable [OF path reach] by blast
  next
    fix k assume k: "?P (v k)" "\<not> ?Q (v k)"
    obtain S where S: "full_inv (v k) S" using inv [OF k] by blast
    have go: "\<exists>j \<ge> k. ?P (v j) \<longrightarrow> wait_rank (v j) = wait_rank (v k) \<longrightarrow> ?Q (v j) \<or> ?Q (v (Suc j)) \<or>
        (wait_rank (v (Suc j)), wait_rank (v k)) \<in> wait_less"
      if "\<exists>j \<ge> k. \<exists>a. l j = Some a \<and> (?P (v j) \<longrightarrow> \<not> ?Q (v j) \<longrightarrow> wait_rank (v j) = wait_rank (v k) \<longrightarrow>
          stream_act_step a (v j) = Inr (v (Suc j)) \<longrightarrow> (wait_rank (v (Suc j)), wait_rank (v j)) \<in> wait_less)"
    proof -
      from that obtain j a where j: "j \<ge> k" "l j = Some a" "?P (v j) \<longrightarrow> \<not> ?Q (v j) \<longrightarrow> wait_rank (v j) = wait_rank (v k) \<longrightarrow>
          stream_act_step a (v j) = Inr (v (Suc j)) \<longrightarrow> (wait_rank (v (Suc j)), wait_rank (v j)) \<in> wait_less" by blast
      have "stream_act_step a (v j) = Inr (v (Suc j))"
        using path j(2) by (cases rule: path_cases [where i = j]) simp_all
      with j(3) have "?P (v j) \<longrightarrow> wait_rank (v j) = wait_rank (v k) \<longrightarrow> ?Q (v j) \<or> ?Q (v (Suc j)) \<or>
          (wait_rank (v (Suc j)), wait_rank (v k)) \<in> wait_less" by metis
      with j(1) show ?thesis by blast
    qed
    have same: "dom (sr_pending (ss_sr (v j))) = dom (sr_pending (ss_sr (v k)))"
      "sr_writing (ss_sr (v j)) = sr_writing (ss_sr (v k))"
      "length (sr_writerqu (ss_sr (v j))) = length (sr_writerqu (ss_sr (v k)))"
      if "?P (v j)" "\<not> ?Q (v j)" "wait_rank (v j) = wait_rank (v k)" for j
      using inv(1) [OF that(1,2)] wait_rank_same [OF S _ that(3)] by blast+
    have helps: "\<exists>S'. full_inv (v j) S' \<and> pc_at (v j) = PollTop \<and> sr_pending (ss_sr (v j)) \<noteq> Map.empty"
      if "?P (v j)" "\<not> ?Q (v j)" for j
      using inv [OF that] that(1) by blast
    consider (started) b where "b \<in> set (sr_started (ss_sr (v k)))" "sr_pending (ss_sr (v k)) (batch_id b) \<noteq> None"
      | (writing) "sr_writing (ss_sr (v k))"
      | (waiting) "\<not> sr_writing (ss_sr (v k))" "sr_writerqu (ss_sr (v k)) \<noteq> []"
    proof -
      obtain n where n: "sr_pending (ss_sr (v k)) n \<noteq> None" using inv(2) [OF k] by blast
      with pending_started [OF S conjunct2 [OF k(1)] n] that show thesis by blast
    qed
    then show "\<exists>j \<ge> k. ?P (v j) \<longrightarrow> wait_rank (v j) = wait_rank (v k) \<longrightarrow> ?Q (v j) \<or> ?Q (v (Suc j)) \<or>
        (wait_rank (v (Suc j)), wait_rank (v k)) \<in> wait_less"
    proof cases
      case started
      obtain j ack where j: "j \<ge> k" "l j = Some (ActAck ack)" "ack_batch_id ack = batch_id b"
        using fair_streamD(5) [OF fair started] by blast
      show ?thesis
      proof (rule go, intro exI conjI impI)
        assume s: "?P (v j)" "\<not> ?Q (v j)" "wait_rank (v j) = wait_rank (v k)"
          "stream_act_step (ActAck ack) (v j) = Inr (v (Suc j))"
        have "ack_batch_id ack \<in> dom (sr_pending (ss_sr (v j)))"
          using same(1) [OF s(1-3)] started(2) j(3) by (simp add: domIff)
        with helps [OF s(1,2)] wait_helpful(1) [OF _ _ _ s(4)] show "(wait_rank (v (Suc j)), wait_rank (v j)) \<in> wait_less" by blast
      qed (use j in simp_all)
    next
      case writing
      obtain j where j: "j \<ge> k" "l j = Some ActWriteDone" using fair_streamD(3) [OF fair writing] by blast
      show ?thesis
      proof (rule go, intro exI conjI impI)
        assume s: "?P (v j)" "\<not> ?Q (v j)" "wait_rank (v j) = wait_rank (v k)"
          "stream_act_step ActWriteDone (v j) = Inr (v (Suc j))"
        from helps [OF s(1,2)] wait_helpful(2) [OF _ _ _ s(4)] same(2) [OF s(1-3)] writing
        show "(wait_rank (v (Suc j)), wait_rank (v j)) \<in> wait_less" by blast
      qed (use j in simp_all)
    next
      case waiting
      have due: "0 < sr_done_writes (ss_sr (v j))"
        if "?P (v j)" "\<not> ?Q (v j)" "wait_rank (v j) = wait_rank (v k)" for j
      proof -
        have "sr_writerqu (ss_sr (v j)) \<noteq> []" using same(3) [OF that] waiting(2) by auto
        then show ?thesis using no_stall_reachable [of cfg "v j"] that(1) helps [OF that(1,2)] same(2) [OF that] waiting(1)
          by (auto simp: no_stall_def)
      qed
      obtain j where j: "j \<ge> k" "l j = Some ActWriteNext"
        using fair_streamD(4) [OF fair due [OF k refl]] by blast
      show ?thesis
      proof (rule go, intro exI conjI impI)
        assume s: "?P (v j)" "\<not> ?Q (v j)" "wait_rank (v j) = wait_rank (v k)"
          "stream_act_step ActWriteNext (v j) = Inr (v (Suc j))"
        have "sr_writerqu (ss_sr (v j)) \<noteq> []" using same(3) [OF s(1-3)] waiting(2) by auto
        with helps [OF s(1,2)] wait_helpful(3) [OF _ _ _ s(4)] same(2) [OF s(1-3)] waiting(1) due [OF s(1-3)]
        show "(wait_rank (v (Suc j)), wait_rank (v j)) \<in> wait_less" by blast
      qed (use j in simp_all)
    qed
  qed auto
qed


text \<open>So the polling thread comes, again and again, to the top of its loop with nothing pending.\<close>

lemma all_acknowledged:
  assumes "fair_stream l v" "stream_reachable cfg (v 0)"
  shows "\<exists>j \<ge> i. \<not> bounded (v j) \<or> pc_at (v j) = PollTop \<and> sr_pending (ss_sr (v j)) = Map.empty"
proof -
  obtain m where m: "m \<ge> i" "pc_at (v m) = PollTop" using round_ends [OF assms(1)] by blast
  from pending_clears [OF assms m(2)] m(1) show ?thesis by (meson order_trans)
qed

lemma registered_is_released:
  assumes "fair_stream l v" "stream_reachable cfg (v 0)" "(n, k, sn) \<in> set (ss_log (v i))"
  shows "\<exists>j \<ge> i. \<not> bounded (v j) \<or> unat (snap_end sn) \<le> released k (v j)"
proof -
  note path = fair_streamD(1) [OF assms(1)]
  obtain j where j: "j \<ge> i" "\<not> bounded (v j) \<or> sr_pending (ss_sr (v j)) = Map.empty"
    using all_acknowledged [OF assms(1,2)] by blast
  show ?thesis
  proof (cases "bounded (v j)")
    case True
    with path_reachable [OF path assms(2)] obtain S where S: "full_inv (v j) S" using reachable_full by blast
    then have "log_inv S (ss_sr (v j)) (ss_log (v j)) (ss_acked (v j))" by (simp add: full_inv_def stream_inv_def)
    moreover have "(n, k, sn) \<in> set (ss_log (v j))" using path_log [OF path j(1)] assms(3) by blast
    ultimately have "unat (snap_end sn) \<le> gone_of S k" using log_invD(5) j(2) True by fastforce
    with released_gone [OF S] j(1) show ?thesis by auto
  qed (use j(1) in blast)
qed

text \<open>While the polling thread waits for its turn its place does not change, and nothing gets pending.\<close>

lemma path_quiet:
  assumes "stream_path l v"
  shows "l j \<noteq> Some ActPoll \<Longrightarrow> pc_at (v (Suc j)) = pc_at (v j)"
    "l j \<noteq> Some ActPoll \<Longrightarrow> sr_pending (ss_sr (v j)) = Map.empty \<Longrightarrow> sr_pending (ss_sr (v (Suc j))) = Map.empty"
proof -
  have "pc_at (v (Suc j)) = pc_at (v j) \<and> dom (sr_pending (ss_sr (v (Suc j)))) \<subseteq> dom (sr_pending (ss_sr (v j)))"
    if "l j \<noteq> Some ActPoll"
    using assms
  proof (cases rule: path_cases [where i = j])
    case (act a)
    with act_keeps [OF act(2)] that show ?thesis by simp
  qed simp
  then show "l j \<noteq> Some ActPoll \<Longrightarrow> pc_at (v (Suc j)) = pc_at (v j)"
    "l j \<noteq> Some ActPoll \<Longrightarrow> sr_pending (ss_sr (v j)) = Map.empty \<Longrightarrow> sr_pending (ss_sr (v (Suc j))) = Map.empty"
    by auto
qed

section \<open>Every sample is taken into a batch\<close>

text \<open>The polling thread is on its way to series \<open>k\<close>, or has a snapshot of it that goes far enough.\<close>

fun aims :: "BufferKey \<Rightarrow> nat \<Rightarrow> poll_pc \<Rightarrow> bool" where
  "aims k m (Enqueue ks) = (k \<in> set ks)"
| "aims k m (Register k' sn ks) = (k \<in> set ks \<or> k' = k \<and> m \<le> unat (snap_end sn))"
| "aims k m (PushBatch b ks) = (k \<in> set ks)"
| "aims k m _ = False"

definition taken :: "BufferKey \<Rightarrow> nat \<Rightarrow> stream_sys \<Rightarrow> bool" where
  "taken k m s \<longleftrightarrow> m \<le> released k s \<or> (\<exists>n sn. (n, k, sn) \<in> set (ss_log s) \<and> m \<le> unat (snap_end sn))"

text \<open>A snapshot taken now goes to the end of what was collected.\<close>

lemma snapshot_reaches:
  assumes "full_inv s S" "mb_capacity_per_series (ss_mb s) \<noteq> 0" "m \<le> length (samples_for k (ss_metrics s))"
    "take_snapshot k (ss_mb s) = Inr sn" "k \<in> dom S"
  shows "if snap_samples sn = [] then m \<le> released k s else m \<le> unat (snap_end sn)"
proof -
  have d: "data_inv (ss_mb s) (ss_metrics s) S" using assms(1) by (simp add: full_inv_def stream_inv_def)
  have h: "m \<le> length (hist_of S k)" using data_invD(2) [OF d assms(5)] assms(2,3) by simp
  obtain sn' where "take_snapshot k (ss_mb s) = Inr sn'" "snap_ok S k sn'" "snap_from sn' = gone_of S k"
    "snap_samples sn' = drop (gone_of S k) (hist_of S k)" using take_snapshot_ok [OF data_invD(1) [OF d] assms(5)] by blast
  with assms(4) have sn: "snap_ok S k sn" "snap_from sn = gone_of S k" "snap_samples sn = drop (gone_of S k) (hist_of S k)"
    by simp_all
  show ?thesis
  proof (cases "snap_samples sn = []")
    case True
    with sn(3) h released_gone [OF assms(1), of k] show ?thesis by simp
  next
    case False
    have "unat (snap_end sn) = gone_of S k + length (snap_samples sn)"
      using sn(1,2) by (auto simp: snap_ok_def snap_from_def)
    with False sn(3) h show ?thesis by (simp add: not_le)
  qed
qed

text \<open>One step of the polling thread on its way.\<close>

lemma aim_poll:
  assumes full: "full_inv s S" and cap: "mb_capacity_per_series (ss_mb s) \<noteq> 0"
    and m: "m \<le> length (samples_for k (ss_metrics s))" and aim: "aims k m (pc_at s)"
    and step: "stream_act_step ActPoll s = Inr t"
  shows "taken k m t \<or> aims k m (pc_at t)"
proof (cases "pc_at s")
  case (Enqueue ks)
  then obtain k' ks' where ks: "ks = k' # ks'" using aim by (cases ks) auto
  with Enqueue step obtain sn where sn: "take_snapshot k' (ss_mb s) = Inr sn"
    "t = s\<lparr>ss_sr := (ss_sr s)\<lparr>sr_poll := if snap_samples sn = [] then Enqueue ks' else Register k' sn ks'\<rparr>\<rparr>"
    by (auto simp: res_map_eq_Inr poll_step_def log_entry_def)
  show ?thesis
  proof (cases "k' = k")
    case True
    have "k \<in> dom S" using full Enqueue ks True by (simp add: full_inv_def stream_inv_def)
    from snapshot_reaches [OF full cap m _ this] sn True show ?thesis
      by (auto simp: taken_def released_def split: if_splits)
  next
    case False
    with aim Enqueue ks sn(2) show ?thesis by auto
  qed
next
  case (Register k' sn ks)
  with step have t: "pc_at t = PushBatch (make_batch (sr_counter (ss_sr s)) k' sn) ks"
    "(sr_counter (ss_sr s), k', sn) \<in> set (ss_log t)"
    by (auto simp: res_map_eq_Inr poll_step_def log_entry_def)
  from aim Register consider "k \<in> set ks" | "k' = k" "m \<le> unat (snap_end sn)" by auto
  then show ?thesis
  proof cases
    case 2
    with t(2) show ?thesis unfolding taken_def by blast
  qed (simp add: t(1))
next
  case (PushBatch b ks)
  with aim step show ?thesis by (auto simp: res_map_eq_Inr poll_step_def)
qed (use aim in simp_all)

lemma aimed_is_taken:
  assumes fair: "fair_stream l v" and reach: "stream_reachable cfg (v 0)" and aim: "aims k m (pc_at (v i))"
    and m: "m \<le> length (samples_for k (ss_metrics (v i)))" and cap: "mb_capacity_per_series (ss_mb (v i)) \<noteq> 0"
  shows "\<exists>j \<ge> i. \<not> bounded (v j) \<or> taken k m (v j)"
proof (rule eventually_by_rank [where Q = "\<lambda>s. \<not> bounded s \<or> taken k m s" and f = "\<lambda>s. round_left (pc_at s)" and r = rank_less
    and P = "\<lambda>s. stream_reachable cfg s \<and> aims k m (pc_at s) \<and> m \<le> length (samples_for k (ss_metrics s)) \<and>
      mb_capacity_per_series (ss_mb s) \<noteq> 0"])
  note path = fair_streamD(1) [OF fair]
  let ?P = "\<lambda>s. stream_reachable cfg s \<and> aims k m (pc_at s) \<and> m \<le> length (samples_for k (ss_metrics s)) \<and>
      mb_capacity_per_series (ss_mb s) \<noteq> 0"
  have top: "aims k m pc \<Longrightarrow> pc \<noteq> PollTop" for pc by auto
  show "?P (v i)" using path_reachable [OF path reach] aim m cap by blast
  fix j assume P: "?P (v j)" and Q: "\<not> (\<not> bounded (v j) \<or> taken k m (v j))"
  {
    assume Q': "\<not> (\<not> bounded (v (Suc j)) \<or> taken k m (v (Suc j)))"
    obtain S where S: "full_inv (v j) S" using P Q reachable_full by blast
    have "mb_capacity_per_series (ss_mb (v (Suc j))) = mb_capacity_per_series (ss_mb (v j))"
      using path_step [OF path, of j] stream_step_capacity [of "v j" "v (Suc j)" cfg] P Q' by auto
    moreover have "m \<le> length (samples_for k (ss_metrics (v (Suc j))))"
      using path_samples [OF path, of j "Suc j" k] P by (auto dest: prefix_length_le)
    moreover have "aims k m (pc_at (v (Suc j)))" using path
    proof (cases rule: path_cases [where i = j])
      case (act a)
      show ?thesis
      proof (cases "a = ActPoll")
        case True
        with aim_poll [OF S _ _ _ act(2) [unfolded True]] P Q' show ?thesis by blast
      qed (use act_keeps(1) [OF act(2)] P in simp)
    qed (use P in simp)
    moreover have "round_left (pc_at (v (Suc j))) = round_left (pc_at (v j)) \<or>
        (round_left (pc_at (v (Suc j))), round_left (pc_at (v j))) \<in> rank_less"
      by (rule path_round(1) [OF path]) (use P top in blast)
    ultimately show "?P (v (Suc j)) \<and> (round_left (pc_at (v (Suc j))) = round_left (pc_at (v j)) \<or>
        (round_left (pc_at (v (Suc j))), round_left (pc_at (v j))) \<in> rank_less)"
      using path_reachable [OF path reach, of "Suc j"] P by simp
  }
  obtain j' where j': "j' \<ge> j" "l j' = Some ActPoll" using fair_streamD(2) [OF fair] by blast
  show "\<exists>j' \<ge> j. ?P (v j') \<longrightarrow> round_left (pc_at (v j')) = round_left (pc_at (v j)) \<longrightarrow>
      (\<not> bounded (v j') \<or> taken k m (v j')) \<or> (\<not> bounded (v (Suc j')) \<or> taken k m (v (Suc j'))) \<or>
      (round_left (pc_at (v (Suc j'))), round_left (pc_at (v j))) \<in> rank_less"
    using j'(1) path_round(2) [OF path top j'(2)] by metis
qed (auto simp: trans_def)

section \<open>Every sample is released\<close>

lemma path_poll:
  assumes "stream_path l v" "l j = Some ActPoll"
  shows "stream_act_step ActPoll (v j) = Inr (v (Suc j))"
  using assms by (cases rule: path_cases [where i = j]) simp_all

lemma poll_begins:
  assumes "stream_act_step ActPoll s = Inr t"
  shows "pc_at s = PollTop \<Longrightarrow> sr_pending (ss_sr s) = Map.empty \<Longrightarrow> pc_at t = PollKeys"
    "pc_at s = PollKeys \<Longrightarrow> pc_at t = Enqueue (GetAllKeys (ss_mb s))"
  using assms by (auto simp: poll_step_def)

text \<open>Sooner or later a new round begins.\<close>

lemma round_begins:
  assumes fair: "fair_stream l v" and reach: "stream_reachable cfg (v 0)"
  shows "\<exists>j \<ge> i. \<not> bounded (v j) \<or> l j = Some ActPoll \<and> pc_at (v j) = PollKeys"
proof -
  note path = fair_streamD(1) [OF fair]
  let ?P = "\<lambda>j. pc_at (v j) = PollTop \<and> sr_pending (ss_sr (v j)) = Map.empty"
  obtain j0 where j0: "j0 \<ge> i" "\<not> bounded (v j0) \<or> ?P j0" using all_acknowledged [OF fair reach] by blast
  show ?thesis
  proof (cases "bounded (v j0)")
    case True
    then have p0: "?P j0" using j0(2) by blast
    have "\<exists>j \<ge> j0. l j = Some ActPoll \<and> ?P j"
      by (rule until_next [of ?P j0 "\<lambda>j. l j = Some ActPoll", OF p0 fair_streamD(2) [OF fair]])
        (use path_quiet [OF path] in simp)
    then obtain j1 where j1: "j1 \<ge> j0" "l j1 = Some ActPoll" "?P j1" by blast
    from poll_begins(1) [OF path_poll [OF path j1(2)]] j1(3) have k1: "pc_at (v (Suc j1)) = PollKeys" by blast
    have "\<exists>j \<ge> Suc j1. l j = Some ActPoll \<and> pc_at (v j) = PollKeys"
      by (rule until_next [of "\<lambda>j. pc_at (v j) = PollKeys" "Suc j1" "\<lambda>j. l j = Some ActPoll", OF k1 fair_streamD(2) [OF fair]])
        (use path_quiet(1) [OF path] in simp)
    then obtain j2 where "j2 \<ge> Suc j1" "l j2 = Some ActPoll \<and> pc_at (v j2) = PollKeys" by blast
    moreover have "j2 \<ge> i" using \<open>j2 \<ge> Suc j1\<close> j1(1) j0(1) by linarith
    ultimately show ?thesis by blast
  qed (use j0(1) in blast)
qed

lemma path_bounded:
  assumes "stream_path l v" "i \<le> j" "bounded (v j)"
  shows "bounded (v i)"
  using assms(2,3)
proof (induction j rule: dec_induct)
  case (step j)
  with path_step [OF assms(1), of j] stream_step_grows [of "v j" "v (Suc j)"] show ?case by auto
qed

lemma path_capacity:
  assumes "stream_path l v" "stream_reachable cfg (v 0)" "i \<le> j" "bounded (v j)"
  shows "mb_capacity_per_series (ss_mb (v j)) = mb_capacity_per_series (ss_mb (v i))"
  using assms(3,4)
proof (induction j rule: dec_induct)
  case (step j)
  have "bounded (v j)" using path_bounded [OF assms(1) _ step.prems, of j] by simp
  then have "mb_capacity_per_series (ss_mb (v j)) = mb_capacity_per_series (ss_mb (v i))" by (rule step.IH)
  moreover have "mb_capacity_per_series (ss_mb (v (Suc j))) = mb_capacity_per_series (ss_mb (v j))"
    using path_step [OF assms(1), of j] stream_step_capacity [OF _ path_reachable [OF assms(1,2)] step.prems] by auto
  ultimately show ?case by simp
qed simp

lemma samples_released:
  assumes fair: "fair_stream l v" and reach: "stream_reachable cfg (v 0)"
    and m: "m \<le> length (samples_for k (ss_metrics (v i)))" and cap: "mb_capacity_per_series (ss_mb (v i)) \<noteq> 0"
  shows "\<exists>j \<ge> i. \<not> bounded (v j) \<or> m \<le> released k (v j)"
proof (cases "m = 0")
  case False
  note path = fair_streamD(1) [OF fair]
  obtain j where j: "j \<ge> i" "\<not> bounded (v j) \<or> l j = Some ActPoll \<and> pc_at (v j) = PollKeys"
    using round_begins [OF fair reach] by blast
  show ?thesis
  proof (cases "bounded (v j) \<and> bounded (v (Suc j))")
    case True
    then have poll: "stream_act_step ActPoll (v j) = Inr (v (Suc j))" "pc_at (v j) = PollKeys"
      using path_poll [OF path] j(2) by simp_all
    obtain S where "full_inv (v j) S" using reachable_full [OF path_reachable [OF path reach]] True by blast
    then have d: "data_inv (ss_mb (v j)) (ss_metrics (v j)) S" by (simp add: full_inv_def stream_inv_def)
    have len: "m \<le> length (samples_for k (ss_metrics (v j')))" if "i \<le> j'" for j'
      using prefix_length_le [OF path_samples [OF path that, of k]] m by simp
    have "k \<in> dom S" using data_invD(3) [OF d, of k] len [OF j(1)] False by (cases "k \<in> dom S") auto
    then have "k \<in> set (GetAllKeys (ss_mb (v j)))"
      using mb_relD(5) [OF data_invD(1) [OF d]] by (simp add: GetAllKeys_def)
    then have aim: "aims k m (pc_at (v (Suc j)))" using poll_begins(2) [OF poll] by simp
    have le: "i \<le> Suc j" using j(1) by simp
    have c: "mb_capacity_per_series (ss_mb (v (Suc j))) \<noteq> 0"
      using path_capacity [OF path reach le] True cap by simp
    obtain j' where j': "j' \<ge> Suc j" "\<not> bounded (v j') \<or> taken k m (v j')"
      using aimed_is_taken [OF fair reach aim len [OF le] c] by blast
    have le': "i \<le> j'" using le j'(1) by simp
    show ?thesis
    proof (cases "\<not> bounded (v j') \<or> m \<le> released k (v j')")
      case False
      with j'(2) obtain n sn where e: "(n, k, sn) \<in> set (ss_log (v j'))" "m \<le> unat (snap_end sn)"
        by (auto simp: taken_def)
      obtain q where q: "q \<ge> j'" "\<not> bounded (v q) \<or> unat (snap_end sn) \<le> released k (v q)"
        using registered_is_released [OF fair reach e(1)] by blast
      have "\<not> bounded (v q) \<or> m \<le> released k (v q)" using q(2) e(2) by linarith
      moreover have "i \<le> q" using q(1) le' by simp
      ultimately show ?thesis by blast
    qed (use le' in blast)
  next
    case False
    moreover have "i \<le> j" "i \<le> Suc j" using j(1) by simp_all
    ultimately show ?thesis by blast
  qed
qed auto

text \<open>What has been released of a series that has not overflowed has been acknowledged.\<close>

lemma released_acked:
  assumes "full_inv s S" "length (samples_for k (ss_metrics s)) \<le> unat (mb_capacity_per_series (ss_mb s))"
    "prefix xs (samples_for k (ss_metrics s))" "length xs \<le> released k s"
  shows "prefix xs (acked_samples (ss_sr s) (ss_log s) k)"
proof (cases "xs = []")
  case False
  have inv: "stream_inv s S" and loss: "loss_inv S (unat (mb_capacity_per_series (ss_mb s))) (ss_sr s) (ss_log s)"
    using assms(1) by (simp_all add: full_inv_def)
  note d = data_invD [OF stream_invD(1) [OF inv]]
  have ne: "samples_for k (ss_metrics s) \<noteq> []" using False assms(3) by auto
  then have "k \<in> dom S" "mb_capacity_per_series (ss_mb s) \<noteq> 0" using d(3) assms(2) by auto
  with d(2) have h: "hist_of S k = samples_for k (ss_metrics s)" by simp
  have "acked_samples (ss_sr s) (ss_log s) k = take (gone_of S k) (hist_of S k)"
    using loss_invD(1) [OF loss, of k] assms(2) h by simp
  moreover have "xs = take (length xs) (hist_of S k)" using assms(3) h by (auto elim: prefixE)
  ultimately show ?thesis using assms(4) released_gone [OF assms(1)] by (metis take_is_prefix min.absorb1 take_take)
qed simp

section \<open>A quick run\<close>

text \<open>A buffer with one sample; its batch after the write was started or done; and the reactor at rest.\<close>

definition quick_buffer :: "Metric \<Rightarrow> size_t \<Rightarrow> MetricsBuffer" where
  "quick_buffer m t = \<lparr>mb_capacity_per_series = 4, mb_series = [MakeBufferKey m \<mapsto>
    \<lparr>sb_capacity = 4, sb_samples = [sample_of m, default_Sample, default_Sample, default_Sample], sb_head = 1, sb_tail = t\<rparr>],
    mb_keys = [MakeBufferKey m]\<rparr>"

definition quick_snapshot :: "Metric \<Rightarrow> Snapshot" where
  "quick_snapshot m = \<lparr>snap_samples = [sample_of m], snap_end = 1\<rparr>"

definition quick_start :: "Metric \<Rightarrow> stream_sys" where
  "quick_start m = \<lparr>ss_mb = quick_buffer m 0, ss_sr = StreamMetricsReactor_new, ss_metrics = [m], ss_log = [], ss_acked = {}\<rparr>"

definition quick_sent :: "Metric \<Rightarrow> bool \<Rightarrow> nat \<Rightarrow> stream_sys" where
  "quick_sent m busy d = (let b = make_batch 0 (MakeBufferKey m) (quick_snapshot m) in
     \<lparr>ss_mb = quick_buffer m 0,
      ss_sr = \<lparr>sr_pending = [0 \<mapsto> (MakeBufferKey m, quick_snapshot m)], sr_writerqu = (if busy then [b] else []), sr_writing = busy,
        sr_started = [b], sr_counter = 1, sr_poll = PollTop, sr_done_writes = d\<rparr>,
      ss_metrics = [m], ss_log = [(0, MakeBufferKey m, quick_snapshot m)], ss_acked = {}\<rparr>)"

definition quick_rest :: "Metric \<Rightarrow> poll_pc \<Rightarrow> stream_sys" where
  "quick_rest m pc = \<lparr>ss_mb = quick_buffer m 1,
      ss_sr = \<lparr>sr_pending = Map.empty, sr_writerqu = [], sr_writing = False,
        sr_started = [make_batch 0 (MakeBufferKey m) (quick_snapshot m)], sr_counter = 1, sr_poll = pc, sr_done_writes = 0\<rparr>,
      ss_metrics = [m], ss_log = [(0, MakeBufferKey m, quick_snapshot m)], ss_acked = {0}\<rparr>"

lemmas quick_defs = StreamMetricsReactor_new_def AddMetrics_def
  AddMetric_def AddSample_def SeriesBuffer_new_def SeriesBuffer_SetCapacity_def
  vector_reserve_def vector_max_size_def SeriesBuffer_Push_def Let_def poll_step_def log_entry_def GetAllKeys_def
  take_snapshot_def GetBuffer_def SeriesBuffer_GetSnapshot_def snapshot_loop.simps word_rem_def vector_at_def
  register_batch_def push_batch_def StreamMetricsReactor_Write_def SeriesBuffer_AckSnapshot_def StreamMetricsReactor_OnReadDone_def
  pop_written_def quick_buffer_def quick_snapshot_def quick_start_def quick_sent_def quick_rest_def

lemma replicate4: "replicate 4 x = [x, x, x, x]"
  by (simp add: numeral_eq_Suc)

lemma quick_add: "metric_type m \<noteq> METRIC_TYPE_UNSPECIFIED \<Longrightarrow> AddMetrics [m] \<lparr>mb_capacity_per_series = 4, mb_series = Map.empty, mb_keys = []\<rparr> = Inr (quick_buffer m 0)"
  by (simp add: quick_defs replicate4)

lemma quick_batch: "res_fold stream_act_step [ActPoll, ActPoll, ActPoll, ActPoll, ActPoll, ActPoll, ActPoll, ActPoll] (quick_start m) = Inr (quick_sent m True 0)"
  by (simp add: quick_defs)

lemma quick_write: "stream_act_step ActWriteDone (quick_sent m True 0) = Inr (quick_sent m False 1)"
  "stream_act_step ActWriteNext (quick_sent m False 1) = Inr (quick_sent m False 0)"
  "ack_batch_id ack = 0 \<Longrightarrow> stream_act_step (ActAck ack) (quick_sent m False 0) = Inr (quick_rest m PollTop)"
  by (simp_all add: quick_defs)

lemma quick_idle: "stream_act_step ActPoll (quick_rest m PollTop) = Inr (quick_rest m PollKeys)"
  "stream_act_step ActPoll (quick_rest m PollKeys) = Inr (quick_rest m (Enqueue [MakeBufferKey m]))"
  "stream_act_step ActPoll (quick_rest m (Enqueue [MakeBufferKey m])) = Inr (quick_rest m (Enqueue []))"
  "stream_act_step ActPoll (quick_rest m (Enqueue [])) = Inr (quick_rest m AfterEnqueue)"
  "stream_act_step ActPoll (quick_rest m AfterEnqueue) = Inr (quick_rest m PollTop)"
  by (simp_all add: quick_defs)

end
