(* ===== verification/Agent_Liveness.thy ===== *)
theory Agent_Liveness
  imports Agent_Shutdown Stream_Liveness
begin

text \<open>
  Progress of delivery in the running agent.  While a stream is open, and the threads of the agent,
  gRPC and the server keep doing their part, everything that has been collected is sent and
  acknowledged, whatever else the agent does in between.
\<close>

section \<open>The stream of a running agent\<close>

definition streaming :: "'d agent \<Rightarrow> bool" where
  "streaming s \<longleftrightarrow> ag_status s = Running \<and> \<not> reactor_gone (ag_grpc s) \<and>
     cl_stream_data_reactor (ag_client s) \<noteq> None \<and> \<not> ag_stream_done s"

text \<open>What an action is for the stream.\<close>

definition stream_part :: "'d act \<Rightarrow> stream_sys \<Rightarrow> stream_sys \<Rightarrow> stream_act option \<Rightarrow> bool" where
  "stream_part a v v' lab \<longleftrightarrow> (case lab of None \<Rightarrow> v' = v | Some b \<Rightarrow> stream_act_step b v = Inr v') \<and>
     (a = Poll \<longrightarrow> lab = Some ActPoll) \<and> (a = WriteDone \<longrightarrow> lab = Some ActWriteDone) \<and>
     (a = WriteNext \<longrightarrow> lab = Some ActWriteNext) \<and> (\<forall>ack. a = Ack ack \<longrightarrow> lab = Some (ActAck ack))"

lemma stream_do_part:
  assumes "streaming s" "ag_status (stream_do b s) = Running" "\<forall>ms. b \<noteq> ActCollect ms"
  shows "stream_act_step b (stream_view s) = Inr (stream_view (stream_do b s))"
proof (cases "stream_act_step b (stream_view s)")
  case (Inl err)
  with assms show ?thesis by (simp add: streaming_def stream_do_def crash_def)
next
  case (Inr v)
  have "ss_metrics v = ag_collected s" using stream_act_keeps_metrics [OF Inr assms(3)] by (simp add: stream_view_def)
  with Inr assms(1) show ?thesis by (simp add: streaming_def stream_do_def stream_view_put)
qed

lemma agent_do_some: "ag_status s = Running \<Longrightarrow> agent_act w a s = Some t \<Longrightarrow> agent_do w a s = t"
  by (simp add: agent_do_def)

lemma callback_part:
  assumes "streaming s" "streaming (agent_do w a s)" "agent_act w a s = stream_callback b s" "\<forall>ms. b \<noteq> ActCollect ms"
  shows "stream_act_step b (stream_view s) = Inr (stream_view (agent_do w a s))"
proof -
  have "cl_stream_data_reactor (ag_client s) \<noteq> None" "\<not> ag_stream_done s" "ag_status s = Running"
    using assms(1) by (simp_all add: streaming_def)
  then have t: "agent_do w a s = stream_do b s"
    by (intro agent_do_some) (simp_all add: assms(3) stream_callback_def)
  have "ag_status (stream_do b s) = Running" using assms(2) by (simp add: streaming_def t)
  from stream_do_part [OF assms(1) this assms(4)] show ?thesis by (simp only: t)
qed

lemma poll_part:
  assumes "streaming s" "streaming (agent_do w Poll s)" "grpc_inv s"
  shows "stream_act_step ActPoll (stream_view s) = Inr (stream_view (agent_do w Poll s))"
proof -
  have "\<not> ag_stop s \<and> \<not> ag_poll_done s"
    using assms(1,3) by (cases "ag_grpc s") (simp_all add: streaming_def grpc_inv_def)
  moreover obtain sr where "cl_stream_data_reactor (ag_client s) = Some sr" "ag_status s = Running"
    using assms(1) by (auto simp: streaming_def)
  ultimately have t: "agent_do w Poll s = stream_do ActPoll s"
    by (intro agent_do_some) (simp_all add: poll_do_def)
  have "ag_status (stream_do ActPoll s) = Running" using assms(2) by (simp add: streaming_def t)
  from stream_do_part [OF assms(1) this] show ?thesis by (simp only: t) blast
qed

lemma other_part:
  assumes "client_inv s" "\<forall>e order. a \<noteq> Main e order" "\<not> is_stream a"
  shows "stream_view (agent_do w a s) = stream_view s"
proof (rule agent_do_cases)
  fix t assume t: "agent_act w a s = Some t"
  show "stream_view t = stream_view s"
  proof (cases a rule: agent_act_groups)
    case (signal sig)
    with t show ?thesis by auto
  next
    case (send m)
    with t have "command_sent m s = Some t" by simp
    then show ?thesis by (rule command_sentE) simp
  next
    case (cmd env)
    with t command_step_view show ?thesis by auto
  next
    case cmd_error
    with t have "command_error s = Some t" by simp
    then show ?thesis by (rule command_errorE) simp
  next
    case grpc
    with t grpc_step_view [OF assms(1)] show ?thesis by auto
  next
    case control
    then show ?thesis using t
      by (cases a) (auto simp: is_control_def dest: control_read_view control_write_done_view control_ended_view)
  qed (use assms in simp_all)
qed simp

lemma agent_part:
  assumes "streaming s" "streaming (agent_do w a s)" "client_inv s" "grpc_inv s"
  shows "\<exists>lab. stream_part a (stream_view s) (stream_view (agent_do w a s)) lab"
proof (cases a)
  case (Main e order)
  have "stream_view (agent_do w a s) = stream_view s \<or>
      (\<exists>ms. stream_act_step (ActCollect ms) (stream_view s) = Inr (stream_view (agent_do w a s)))"
  proof (cases "main_step w e order s")
    case (Some t)
    have "agent_do w a s = t" using assms(1) Main Some by (intro agent_do_some) (simp_all add: streaming_def)
    with main_step_act [OF Some] show ?thesis by (simp only:)
  qed (use Main in \<open>simp add: agent_do_def\<close>)
  then show ?thesis
  proof (elim disjE exE)
    assume "stream_view (agent_do w a s) = stream_view s"
    with Main show ?thesis by (intro exI [of _ None]) (simp add: stream_part_def)
  next
    fix ms assume "stream_act_step (ActCollect ms) (stream_view s) = Inr (stream_view (agent_do w a s))"
    with Main show ?thesis by (intro exI [of _ "Some (ActCollect ms)"]) (simp add: stream_part_def del: stream_act_step.simps)
  qed
next
  case Poll
  with poll_part [of s w] assms show ?thesis
    by (intro exI [of _ "Some ActPoll"]) (simp add: stream_part_def del: stream_act_step.simps)
next
  case WriteDone
  with callback_part [OF assms(1,2), of ActWriteDone] show ?thesis
    by (intro exI [of _ "Some ActWriteDone"]) (simp add: stream_part_def del: stream_act_step.simps)
next
  case WriteNext
  with callback_part [OF assms(1,2), of ActWriteNext] show ?thesis
    by (intro exI [of _ "Some ActWriteNext"]) (simp add: stream_part_def del: stream_act_step.simps)
next
  case (Ack ack)
  with callback_part [OF assms(1,2), of "ActAck ack"] show ?thesis
    by (intro exI [of _ "Some (ActAck ack)"]) (simp add: stream_part_def del: stream_act_step.simps)
next
  case (StreamDone st)
  have "stream_view (agent_do w a s) = stream_view s"
    by (rule agent_do_cases) (auto simp: StreamDone stream_ended_view)
  with StreamDone show ?thesis by (intro exI [of _ None]) (simp add: stream_part_def)
qed (use other_part [OF assms(3), of a w] in \<open>intro exI [of _ None], simp add: stream_part_def is_stream_def\<close>)+

section \<open>A fair run of the agent\<close>

text \<open>The stream stays open; the polling thread gets its turn; gRPC completes the writes and runs the
  callbacks; the server acknowledges the batches it was sent.\<close>

definition stream_goes_on :: "world \<Rightarrow> (nat \<Rightarrow> 'd act) \<Rightarrow> 'd agent \<Rightarrow> bool" where
  "stream_goes_on w acts s \<longleftrightarrow> (\<forall>i. let sr = ss_sr (stream_view (run_to w acts s i)) in
     streaming (run_to w acts s i) \<and> (\<exists>j \<ge> i. acts j = Poll) \<and>
     (sr_writing sr \<longrightarrow> (\<exists>j \<ge> i. acts j = WriteDone)) \<and> (0 < sr_done_writes sr \<longrightarrow> (\<exists>j \<ge> i. acts j = WriteNext)) \<and>
     (\<forall>b \<in> set (sr_started sr). sr_pending sr (batch_id b) \<noteq> None \<longrightarrow>
        (\<exists>j \<ge> i. \<exists>ack. acts j = Ack ack \<and> ack_batch_id ack = batch_id b)))"

lemma agent_fair:
  assumes "agent_reachable w env s" "stream_goes_on w acts s"
  shows "\<exists>l. fair_stream l (\<lambda>i. stream_view (run_to w acts s i))"
proof -
  let ?st = "run_to w acts s" and ?v = "\<lambda>i. stream_view (run_to w acts s i)"
  note reach = run_to_reachable [OF assms(1), of acts]
  have on: "streaming (?st i)" for i using assms(2) by (simp add: stream_goes_on_def Let_def)
  have "\<exists>lab. stream_part (acts i) (?v i) (?v (Suc i)) lab" for i
    using agent_part [OF on [of i], of w "acts i"] on [of "Suc i"] agent_stream [OF reach] agent_grpc_inv [OF reach] by simp
  then obtain l where l: "stream_part (acts i) (?v i) (?v (Suc i)) (l i)" for i by metis
  have lab: "acts i = Poll \<Longrightarrow> l i = Some ActPoll" "acts i = WriteDone \<Longrightarrow> l i = Some ActWriteDone"
    "acts i = WriteNext \<Longrightarrow> l i = Some ActWriteNext" "acts i = Ack ack \<Longrightarrow> l i = Some (ActAck ack)" for i ack
    using l [of i] by (simp_all add: stream_part_def)
  have "case l i of None \<Rightarrow> ?v (Suc i) = ?v i | Some a \<Rightarrow> stream_act_step a (?v i) = Inr (?v (Suc i))" for i
    using l [of i] unfolding stream_part_def by blast
  then have "stream_path l ?v" unfolding stream_path_def by blast
  moreover have go: "\<exists>j \<ge> i. acts j = Poll" "sr_writing (ss_sr (?v i)) \<Longrightarrow> \<exists>j \<ge> i. acts j = WriteDone"
    "0 < sr_done_writes (ss_sr (?v i)) \<Longrightarrow> \<exists>j \<ge> i. acts j = WriteNext"
    "b \<in> set (sr_started (ss_sr (?v i))) \<Longrightarrow> sr_pending (ss_sr (?v i)) (batch_id b) \<noteq> None \<Longrightarrow>
      \<exists>j \<ge> i. \<exists>ack. acts j = Ack ack \<and> ack_batch_id ack = batch_id b" for i b
    using assms(2) [unfolded stream_goes_on_def Let_def, rule_format, of i] by blast+
  have "\<exists>j \<ge> i. l j = Some ActPoll" "sr_writing (ss_sr (?v i)) \<longrightarrow> (\<exists>j \<ge> i. l j = Some ActWriteDone)"
    "0 < sr_done_writes (ss_sr (?v i)) \<longrightarrow> (\<exists>j \<ge> i. l j = Some ActWriteNext)" for i
    using go(1-3) [of i] lab(1-3) by blast+
  moreover have "\<exists>j \<ge> i. \<exists>ack. l j = Some (ActAck ack) \<and> ack_batch_id ack = batch_id b"
    if "b \<in> set (sr_started (ss_sr (?v i)))" "sr_pending (ss_sr (?v i)) (batch_id b) \<noteq> None" for i b
    using go(4) [OF that] lab(4) by blast
  ultimately have "fair_stream l ?v" unfolding fair_stream_def by blast
  then show ?thesis by blast
qed

section \<open>Properties\<close>


section \<open>A small run\<close>

text \<open>Steps of the stream that the agent takes while nothing else happens.\<close>

fun act_of :: "stream_act \<Rightarrow> 'd act" where
  "act_of ActPoll = Poll"
| "act_of ActWriteDone = WriteDone"
| "act_of ActWriteNext = WriteNext"
| "act_of (ActAck ack) = Ack ack"
| "act_of (ActCollect ms) = CmdError"

definition calm :: "'d agent \<Rightarrow> bool" where
  "calm s \<longleftrightarrow> streaming s \<and> \<not> ag_stop s \<and> \<not> ag_poll_done s"

lemma calm_step:
  assumes "calm s" "stream_act_step b (stream_view s) = Inr v" "\<forall>ms. b \<noteq> ActCollect ms"
  shows "calm (agent_do w (act_of b) s) \<and> stream_view (agent_do w (act_of b) s) = v"
proof -
  note c = assms(1) [unfolded calm_def streaming_def]
  have "stream_do b s = put_stream v s" using c assms(2) by (simp add: stream_do_def)
  then have "agent_act w (act_of b) s = Some (put_stream v s)"
    using c assms(3) by (cases b) (auto simp: poll_do_def stream_callback_def)
  then have t: "agent_do w (act_of b) s = put_stream v s" using c by (intro agent_do_some) simp_all
  have "ss_metrics v = ag_collected s" using stream_act_keeps_metrics [OF assms(2,3)] by (simp add: stream_view_def)
  then have "stream_view (put_stream v s) = v" by (rule stream_view_put)
  moreover have "calm (put_stream v s)" using c by (simp add: calm_def streaming_def, simp add: put_stream_def)
  ultimately show ?thesis by (simp add: t)
qed

lemma calm_run:
  assumes "calm s" "res_fold stream_act_step bs (stream_view s) = Inr v" "\<forall>b \<in> set bs. \<forall>ms. b \<noteq> ActCollect ms"
  shows "calm (agent_run w (map act_of bs) s) \<and> stream_view (agent_run w (map act_of bs) s) = v"
  using assms
proof (induction bs arbitrary: s)
  case (Cons b bs)
  then obtain u where u: "stream_act_step b (stream_view s) = Inr u" "res_fold stream_act_step bs u = Inr v"
    by (cases "stream_act_step b (stream_view s)") auto
  have "calm (agent_do w (act_of b) s) \<and> stream_view (agent_do w (act_of b) s) = u"
    using calm_step [OF Cons.prems(1) u(1)] Cons.prems(3) by simp
  with Cons.IH [of "agent_do w (act_of b) s"] u(2) Cons.prems(3) show ?case by (simp add: agent_run_def)
qed (simp add: agent_run_def)

text \<open>The agent has collected one metric and sent it; then the server acknowledges it, and the polling
  thread goes round.\<close>

definition example_acts :: "nat \<Rightarrow> nat act" where
  "example_acts i = (if i = 0 then WriteDone else if i = 1 then WriteNext
     else if i = 2 then Ack \<lparr>ack_batch_id = 0, ack_samples_received = 1, ack_error = None\<rparr> else Poll)"

definition example_round :: "nat \<Rightarrow> poll_pc" where
  "example_round r = [PollTop, PollKeys, Enqueue [MakeBufferKey example_metric], Enqueue [], AfterEnqueue] ! (r mod 5)"

definition example_view :: "nat \<Rightarrow> stream_sys" where
  "example_view i = (if i = 0 then quick_sent example_metric True 0 else if i = 1 then quick_sent example_metric False 1
     else if i = 2 then quick_sent example_metric False 0 else quick_rest example_metric (example_round (i - 3)))"

lemma example_round_step: "stream_act_step ActPoll (quick_rest example_metric (example_round r)) =
    Inr (quick_rest example_metric (example_round (Suc r)))"
proof -
  have "r mod 5 < 5" by simp
  then consider "r mod 5 = 0" | "r mod 5 = 1" | "r mod 5 = 2" | "r mod 5 = 3" | "r mod 5 = 4" by linarith
  then show ?thesis by cases (simp_all add: example_round_def mod_Suc quick_idle del: stream_act_step.simps)
qed

lemma example_view_step:
  "\<exists>b. example_acts i = act_of b \<and> (\<forall>ms. b \<noteq> ActCollect ms) \<and> stream_act_step b (example_view i) = Inr (example_view (Suc i))"
proof -
  consider "i = 0" | "i = 1" | "i = 2" | r where "i = 3 + r" by (metis One_nat_def Suc_1 add_Suc le_Suc_ex less_2_cases_iff not_less numeral_3_eq_3 numeral_2_eq_2 not_less_eq_eq plus_1_eq_Suc)
  then show ?thesis
  proof cases
    case 1
    then show ?thesis by (intro exI [of _ ActWriteDone])
        (simp add: example_acts_def example_view_def quick_write del: stream_act_step.simps)
  next
    case 2
    then show ?thesis by (intro exI [of _ ActWriteNext])
        (simp add: example_acts_def example_view_def quick_write [unfolded One_nat_def] del: stream_act_step.simps)
  next
    case 3
    then show ?thesis by (intro exI [of _ "ActAck \<lparr>ack_batch_id = 0, ack_samples_received = 1, ack_error = None\<rparr>"])
        (simp add: example_acts_def example_view_def quick_write example_round_def del: stream_act_step.simps)
  next
    case (4 r)
    then show ?thesis using example_round_step [of r] by (intro exI [of _ ActPoll])
        (simp add: example_acts_def example_view_def Suc_diff_le del: stream_act_step.simps)
  qed
qed

lemma example_stream_goes_on:
  assumes "calm s" "stream_view s = example_view 0"
  shows "stream_goes_on w example_acts s"
proof -
  let ?st = "run_to w example_acts s"
  have st: "calm (?st i) \<and> stream_view (?st i) = example_view i" for i
  proof (induction i)
    case (Suc i)
    from example_view_step [of i] obtain b where "example_acts i = act_of b" "\<forall>ms. b \<noteq> ActCollect ms"
      "stream_act_step b (example_view i) = Inr (example_view (Suc i))" by blast
    with calm_step [of "?st i" b "example_view (Suc i)" w] Suc show ?case by simp
  qed (use assms in simp)
  have v: "sr_writing (ss_sr (example_view i)) \<Longrightarrow> i \<le> 0" "0 < sr_done_writes (ss_sr (example_view i)) \<Longrightarrow> i \<le> 1"
    "sr_pending (ss_sr (example_view i)) n \<noteq> None \<Longrightarrow> i \<le> 2 \<and> n = 0" for i n
    by (auto simp: example_view_def quick_sent_def quick_rest_def Let_def split: if_splits)
  have p: "\<exists>j \<ge> i. example_acts j = Poll" for i by (intro exI [of _ "i + 3"]) (simp add: example_acts_def)
  have wd: "\<exists>j \<ge> i. example_acts j = WriteDone" if "i \<le> 0" for i
    using that by (intro exI [of _ 0]) (simp add: example_acts_def)
  have wn: "\<exists>j \<ge> i. example_acts j = WriteNext" if "i \<le> 1" for i
    using that by (intro exI [of _ 1]) (simp add: example_acts_def)
  have ak: "\<exists>j \<ge> i. \<exists>ack. example_acts j = Ack ack \<and> ack_batch_id ack = 0" if "i \<le> 2" for i
    using that by (intro exI [of _ 2]) (simp add: example_acts_def)
  have view: "stream_view (?st i) = example_view i" "streaming (?st i)" for i using st [of i] by (simp_all add: calm_def)
  show ?thesis unfolding stream_goes_on_def Let_def view(1)
  proof (intro allI conjI impI ballI)
    fix i b assume "sr_pending (ss_sr (example_view i)) (batch_id b) \<noteq> None"
    from v(3) [OF this] ak [of i] show "\<exists>j \<ge> i. \<exists>ack. example_acts j = Ack ack \<and> ack_batch_id ack = batch_id b" by simp
  qed (use view(2) p wd wn v(1,2) in blast)+
qed

lemma agent_run_config: "sch_config (ag_sched (agent_run w acts s)) = sch_config (ag_sched s)"
proof (induction acts arbitrary: s)
  case (Cons a acts)
  have "sch_config (ag_sched (agent_do w a s)) = sch_config (ag_sched s)"
    by (rule agent_do_cases) (auto dest: agent_act_config)
  with Cons.IH [of "agent_do w a s"] show ?case by (simp add: agent_run_def)
qed (simp add: agent_run_def)


end
