(* ===== verification/Spec2Isabelle.thy ===== *)
theory Spec2Isabelle
  imports Stream_Reactor Utils Exporter Config_Loader Connect_Reactor Client
    Proc_Collectors Rapl_Collector Nvml Nvml_Types Nvml_Enums Nvml_Fields Collectors
    Platform Message_Queue Scheduler Agent_Main Agent_System Agent_Delivery Agent_Export Agent_Shutdown
    Progress Stream_Liveness Agent_Liveness
begin

text \<open>
  \<^bold>\<open>Verification of the volta agent\<close>

  Volta monitors machines: an agent in C++ (\<^verbatim>\<open>src/sources/agent/src\<close>) samples hardware and system
  metrics, keeps a time window of them in memory and streams them over gRPC to a server, which
  acknowledges what it received.  This library models the agent and proves what makes it correct.
  The server, the dashboard and the code that protoc generates are outside of it.

  \<^bold>\<open>How the parts work together.\<close>  \<^verbatim>\<open>main.cc\<close> loads a configuration, asks the registry for the
  collectors that can deliver the requested metrics, makes the buffer and runs the scheduler.
  The scheduler goes round the collectors; each collection is added to the buffer and, while an
  export is active, appended to a file.  Commands for exports arrive on a POSIX message queue from
  the same executable under its other name.  A thread of its own holds the connection to the
  server: the client answers control messages through one reactor and starts a second one that
  polls the buffer, sends batches of samples and, as they are acknowledged, releases them.

  \<^bold>\<open>Theories, in the order of the code.\<close>

  \<^item> \<open>Prelude\<close>: words of the widths the code uses, C++ failures as values (\<open>cpp_error\<close>, \<open>result\<close>), loops
    that can fail.  \<open>Floating\<close>: rounding of IEEE binary32 and binary64 on rationals, with the locale
    \<open>rounding_mode\<close> for what the callers need of it.  \<open>Text_IO\<close>: the parts of iostream, sscanf and
    std::string the agent uses.  \<open>C_Layout\<close>: sizes, alignments and offsets of C types.
  \<^item> \<open>Metric_Types\<close>: metric.h and the protocol messages.  \<open>Agent_Config\<close>: config/config.h.
  \<^item> \<open>Series_Buffer\<close>, \<open>Metrics_Buffer\<close>: buffer.h / buffer.cc.  The ring buffer refines a specification
    that keeps the whole history (\<open>series_spec\<close>), for every sequence of operations; the locale
    \<open>series_log\<close> is what the streaming client uses of it.  The metrics buffer sorts samples into one
    series per key.
  \<^item> \<open>Writer\<close>, \<open>Stream_Reactor\<close>, \<open>Connect_Reactor\<close>, \<open>Client\<close>: the directory client/.  The locale \<open>message_writer\<close>
    is the write discipline of both reactors.  The streaming reactor is a step relation in which
    the polling thread, the callbacks of gRPC and the collector interleave; nothing is lost, sent
    twice or reordered.  \<open>Stream_Liveness\<close>: on fair schedules of that relation every round of batches
    ends, is acknowledged, and is followed by one that takes up what came in the meantime.
  \<^item> \<open>Config_Loader\<close>, \<open>Utils\<close>, \<open>Exporter\<close>: config/config_loader.cc, utils/utils.cc, exporter.cc.
  \<^item> \<open>Proc_Collectors\<close>, \<open>Rapl_Collector\<close>, \<open>Nvml\<close>, \<open>Collectors\<close>: the directory collectors/ and
    platform/nvml_loader.cc.  The locale \<open>collector\<close> is the contract of the abstract class, and each
    of the four classes, and their sum, is an interpretation of it.
  \<^item> \<open>Nvml_Types\<close>, \<open>Nvml_Enums\<close>: the structures, unions and enumerations of the vendored header nvml.h,
    with the layout of every structure and the version words made from it.  \<open>Nvml_Fields\<close>: its macros: the
    field identifiers, each used once, event types and clock event reasons with their masks, groups of
    codes, and the packed fields of the masks it defines accessors for.
  \<^item> \<open>Message_Queue\<close>: message_queue.cc, with the kernel's queue and the interleaving of senders and
    callback as a step relation.  \<open>Scheduler\<close>: scheduler.cc.  \<open>Platform\<close>: platform/platform_detector.cc.
  \<^item> \<open>Agent_Main\<close>: main.cc, and the composition of all of it up to the start of the threads.
  \<^item> \<open>Agent_System\<close>: the running agent.  The record \<open>agent\<close> has the state of all components and a program
    counter for the main thread (\<^verbatim>\<open>Scheduler::Run\<close> and the end of \<^verbatim>\<open>agent_mode\<close>), for the thread that
    \<^verbatim>\<open>mq_notify\<close> makes for a command (\<^verbatim>\<open>drain_and_rearm\<close>, the handler, \<^verbatim>\<open>StartDump\<close>, \<^verbatim>\<open>EndDump\<close>) and for the
    gRPC thread (\<^verbatim>\<open>Client::Connect\<close>, \<^verbatim>\<open>Await\<close>, the destructors); the polling thread keeps its own in the stream
    reactor.  \<open>agent_act\<close> is the next step of one of them, of a callback of gRPC, of the tool or of a
    signal, and \<open>agent_reachable\<close> what any interleaving leads to.
  \<^item> \<open>Agent_Delivery\<close>: the agent simulates the step relations of \<open>Stream_Reactor\<close> and \<open>Message_Queue\<close>, so that
    what was proved there holds of the whole.  \<open>Agent_Export\<close>: the export files under every interleaving, and
    the threads as a refinement of the atomic operations of \<open>Scheduler\<close>.  \<open>Agent_Shutdown\<close>: the end of the
    process, by ranks of the gRPC thread and of the main thread under a fair schedule.  \<open>Agent_Liveness\<close>:
    what the agent collects gets to the server, \<open>Stream_Liveness\<close> seen through the simulation.
    \<open>Progress\<close>: the rules by which both kinds of argument conclude that something happens.

  \<^bold>\<open>Correspondence.\<close>  A class is a record with the members of the class, a method a function that
  takes and returns the record; names follow the code, with the class in front where two classes
  share a name.  Machine integers are words of their width.  An exception or undefined behaviour is
  the left case of a \<open>result\<close>.  A lock makes the operations under it one step; where the code runs
  concurrently without one lock over the whole operation the model has a step relation or a list of
  events.  The theories of the components take an operation of another component as atomic;
  \<open>Agent_System\<close> has the same operations as sequences of steps, with \<^verbatim>\<open>Exporter\<close>, which has no lock, taken
  apart into its statements.  What the code asks of the system (files, clocks, registers, gRPC, toml++, NVML, the
  dynamic linker) is an argument; where the properties of a parameter matter, they are hypotheses.
  Text written to the console as a log is left out, except where it is the purpose of a function.

  \<^bold>\<open>What the properties show.\<close>  C1: the ring buffer.  C2 to C8: the running agent with all its threads:
  no sample is lost, duplicated or reordered on the way to the server, every sample gets there while
  the stream goes on, commands arrive in order, export files are well-formed, the threads refine the
  atomic operations, a signal ends the process and how it exits.  C9 to C15: the same for the
  components, from the collectors through the buffers to the stream, and only configured metrics are
  collected.  C16 to C20: the command queue and exports.  C21 to C25: control messages, identity and
  configuration.  C26 to C30: keys, batches and passes.  C31 to C35: single collectors and the NVML
  interface.  C36 to C40, and parts of C17 and C32, are behaviours that look unintended.

  \<^bold>\<open>Bounds and fuel.\<close>  There is no fuel.  Loops are structural recursions or have a measure; the CPU
  range loop, which need not end for every argument, is a partial function that is proved to return
  for the arguments it gets.  Counters are 64-bit; statements about whole histories assume fewer than
  \<open>2 ^ 64\<close> samples, where the counters do not wrap; the statement that samples are delivered has that
  many metrics or batches as its other outcome.

  \<^bold>\<open>Not modelled.\<close>  The server (Go), the dashboard (TypeScript), the build and deployment files: other
  programs and other languages.  Of nvml.h the function prototypes, since the library is not part of
  the repository, and the buffer sizes and format strings that are macros.  Sleeping.  An access to a shared variable is taken as atomic and seen by all threads
  at once: that \<^verbatim>\<open>listening_\<close>, \<^verbatim>\<open>is_exporting\<close> and the file stream are used by two threads without a lock is a data
  race, of which the model shows the interleavings only.
\<close>

end
